(* ===== verification/Prelude.thy ===== *)
theory Prelude
  imports Complex_Main "HOL-Library.Word" "HOL-Library.List_Lexorder" "HOL-Library.Char_ord"
begin

text \<open>
  Shared vocabulary of the development: the Rust integer types and the standard
  library arithmetic on them (saturating, checked, signed saturating), the
  ordered map \<open>BTreeMap\<close> as a sorted association list, and the fact collections
  that the component theories extend.

  Unsigned Rust integers are machine words of their width, so that wrap-around is
  the one of the hardware; \<open>unat_arith\<close> moves a goal about words to the natural
  numbers. Signed \<open>i64\<close> clock values are mathematical integers whose saturating
  operations write the range out.
\<close>

type_synonym u8 = "8 word"
type_synonym u16 = "16 word"
type_synonym u32 = "32 word"
type_synonym u64 = "64 word"
type_synonym u128 = "128 word"
type_synonym bytes = "u8 list"

named_theorems word_nat "words compared and computed through their natural number value"
named_theorems sum_cases "case splits of the result types"

declare sum.splits [sum_cases] option.splits [sum_cases] if_splits [sum_cases]

section \<open>Unsigned arithmetic\<close>

definition sat_add :: "'a::len word \<Rightarrow> 'a word \<Rightarrow> 'a word" where
  "sat_add a b = (if unat a + unat b < 2 ^ LENGTH('a) then a + b else - 1)"

definition sat_sub :: "'a::len word \<Rightarrow> 'a word \<Rightarrow> 'a word" where
  "sat_sub a b = (if a < b then 0 else a - b)"

definition sat_mul :: "'a::len word \<Rightarrow> 'a word \<Rightarrow> 'a word" where
  "sat_mul a b = (if unat a * unat b < 2 ^ LENGTH('a) then a * b else - 1)"

definition checked_add :: "'a::len word \<Rightarrow> 'a word \<Rightarrow> 'a word option" where
  "checked_add a b = (if unat a + unat b < 2 ^ LENGTH('a) then Some (a + b) else None)"

definition checked_mul :: "'a::len word \<Rightarrow> 'a word \<Rightarrow> 'a word option" where
  "checked_mul a b = (if unat a * unat b < 2 ^ LENGTH('a) then Some (a * b) else None)"

lemma unat_minus_one_max: "unat (- 1 :: 'a::len word) = 2 ^ LENGTH('a) - 1"
  by (simp add: unsigned_minus_1_eq_mask mask_eq_exp_minus_1)

lemma le_pow_minus_one: "n \<le> 2 ^ k - 1 \<longleftrightarrow> n < 2 ^ k" for n :: nat
  by (metis Suc_pred' less_Suc_eq_le pos2 zero_less_power diff_Suc_1)

lemma unat_lt_pow: "unat (a :: 'a::len word) < 2 ^ LENGTH('a)"
  by (rule unsigned_less)

lemma unat_add_small: "unat a + unat b < 2 ^ LENGTH('a) \<Longrightarrow> unat (a + b) = unat a + unat b"
  for a b :: "'a::len word"
  by (simp add: unat_word_ariths)

lemma unat_mul_small: "unat a * unat b < 2 ^ LENGTH('a) \<Longrightarrow> unat (a * b) = unat a * unat b"
  for a b :: "'a::len word"
  by (simp add: unat_word_ariths)

lemma unat_sat_add [word_nat]:
  "unat (sat_add a b) = min (unat a + unat b) (2 ^ LENGTH('a) - 1)" for a b :: "'a::len word"
  by (simp add: sat_add_def unat_add_small unat_minus_one_max min_def le_pow_minus_one del: One_nat_def)

lemma unat_sat_sub [word_nat]: "unat (sat_sub a b) = unat a - unat b"
  by (auto simp: sat_sub_def word_less_nat_alt unat_sub_if')

lemma unat_sat_mul [word_nat]:
  "unat (sat_mul a b) = min (unat a * unat b) (2 ^ LENGTH('a) - 1)" for a b :: "'a::len word"
  by (simp add: sat_mul_def unat_mul_small unat_minus_one_max min_def le_pow_minus_one del: One_nat_def)

lemma checked_add_Some [word_nat]:
  "checked_add a b = Some c \<longleftrightarrow> unat a + unat b < 2 ^ LENGTH('a) \<and> c = a + b" for a b :: "'a::len word"
  by (auto simp: checked_add_def)

lemma checked_mul_Some [word_nat]:
  "checked_mul a b = Some c \<longleftrightarrow> unat a * unat b < 2 ^ LENGTH('a) \<and> c = a * b" for a b :: "'a::len word"
  by (auto simp: checked_mul_def)

lemma checked_add_unat: "checked_add a b = Some c \<Longrightarrow> unat c = unat a + unat b"
  by (auto simp: checked_add_def unat_add_small split: if_splits)

lemma checked_mul_unat: "checked_mul a b = Some c \<Longrightarrow> unat c = unat a * unat b"
  by (auto simp: checked_mul_def unat_mul_small split: if_splits)

lemma unat_max [word_nat]: "unat (max a b) = max (unat a) (unat b)"
  by (simp add: max_def word_le_nat_alt)

lemma unat_min [word_nat]: "unat (min a b) = min (unat a) (unat b)"
  by (simp add: min_def word_le_nat_alt)

lemmas [word_nat] = word_le_nat_alt word_less_nat_alt

lemma sat_sub_le: "sat_sub a b \<le> a"
  by (simp add: word_nat)

lemma sat_add_ge: "a \<le> sat_add a b" and sat_add_ge2: "b \<le> sat_add a b"
  by (simp_all add: word_nat le_pow_minus_one unat_lt_pow del: One_nat_def)

lemma sat_sub_eq_0: "sat_sub a b = 0 \<longleftrightarrow> a \<le> b"
  by (auto simp: word_nat simp flip: unat_eq_zero)

section \<open>Signed clock arithmetic\<close>

definition i64_max :: int where "i64_max = 2 ^ 63 - 1"
definition i64_min :: int where "i64_min = - (2 ^ 63)"

text \<open>\<open>i64::saturating_sub\<close>.\<close>

definition i64_sat_sub :: "int \<Rightarrow> int \<Rightarrow> int" where
  "i64_sat_sub a b = max i64_min (min i64_max (a - b))"

text \<open>\<open>i64::try_from(u64)\<close>.\<close>

definition i64_of_u64 :: "u64 \<Rightarrow> int option" where
  "i64_of_u64 w = (if uint w \<le> i64_max then Some (uint w) else None)"

text \<open>\<open>u64::try_from(i64)\<close>.\<close>

definition u64_of_i64 :: "int \<Rightarrow> u64 option" where
  "u64_of_i64 i = (if 0 \<le> i then Some (word_of_int i) else None)"

lemma u64_of_i64_of_u64: "i64_of_u64 w = Some i \<Longrightarrow> u64_of_i64 i = Some w"
  by (auto simp: i64_of_u64_def u64_of_i64_def split: if_splits)

lemma i64_sat_sub_le: "0 \<le> b \<Longrightarrow> i64_min \<le> a \<Longrightarrow> i64_sat_sub a b \<le> a"
  by (simp add: i64_sat_sub_def)

section \<open>Ordered maps\<close>

text \<open>
  A \<open>BTreeMap\<close> is an association list sorted strictly by key: iteration order is
  list order. \<open>bt_wf\<close> is the type invariant every operation keeps.
\<close>

type_synonym ('k, 'v) btmap = "('k \<times> 'v) list"

definition bt_wf :: "('k::linorder, 'v) btmap \<Rightarrow> bool" where
  "bt_wf m = sorted_wrt (<) (map fst m)"

abbreviation bt_get :: "('k, 'v) btmap \<Rightarrow> 'k \<Rightarrow> 'v option" where
  "bt_get \<equiv> map_of"

fun bt_insert :: "'k::linorder \<Rightarrow> 'v \<Rightarrow> ('k, 'v) btmap \<Rightarrow> ('k, 'v) btmap" where
  "bt_insert k v [] = [(k, v)]"
| "bt_insert k v ((a, b) # m) =
     (if k < a then (k, v) # (a, b) # m
      else if k = a then (k, v) # m
      else (a, b) # bt_insert k v m)"

definition bt_remove :: "'k \<Rightarrow> ('k, 'v) btmap \<Rightarrow> ('k, 'v) btmap" where
  "bt_remove k m = filter (\<lambda>(a, _). a \<noteq> k) m"

definition bt_retain :: "('k \<Rightarrow> 'v \<Rightarrow> bool) \<Rightarrow> ('k, 'v) btmap \<Rightarrow> ('k, 'v) btmap" where
  "bt_retain P m = filter (\<lambda>(k, v). P k v) m"

abbreviation bt_contains :: "('k, 'v) btmap \<Rightarrow> 'k \<Rightarrow> bool" where
  "bt_contains m k \<equiv> map_of m k \<noteq> None"

text \<open>\<open>get(..).copied().unwrap_or(d)\<close>.\<close>

definition bt_get_or :: "'v \<Rightarrow> ('k, 'v) btmap \<Rightarrow> 'k \<Rightarrow> 'v" where
  "bt_get_or d m k = (case map_of m k of None \<Rightarrow> d | Some v \<Rightarrow> v)"

lemma bt_get_insert [simp]: "map_of (bt_insert k v m) = (map_of m)(k \<mapsto> v)"
  by (induction k v m rule: bt_insert.induct) auto

lemma bt_get_remove [simp]: "map_of (bt_remove k m) = (map_of m)(k := None)"
  by (induction m) (auto simp: bt_remove_def fun_eq_iff)

lemma bt_get_or_insert: "bt_get_or d (bt_insert k v m) j = (if j = k then v else bt_get_or d m j)"
  by (simp add: bt_get_or_def)

lemma bt_get_or_remove: "bt_get_or d (bt_remove k m) j = (if j = k then d else bt_get_or d m j)"
  by (simp add: bt_get_or_def)

lemma fst_bt_insert [simp]: "fst ` set (bt_insert k v m) = insert k (fst ` set m)"
  by (induction k v m rule: bt_insert.induct) auto

lemma bt_wf_Nil [simp]: "bt_wf []"
  by (simp add: bt_wf_def)

lemma bt_wf_Cons: "bt_wf ((k, v) # m) \<longleftrightarrow> (\<forall>a \<in> fst ` set m. k < a) \<and> bt_wf m"
  by (simp add: bt_wf_def)

lemma bt_wf_insert [simp]: "bt_wf m \<Longrightarrow> bt_wf (bt_insert k v m)"
  by (induction k v m rule: bt_insert.induct) (auto simp: bt_wf_Cons)

lemma bt_wf_filter: "bt_wf m \<Longrightarrow> bt_wf (filter P m)"
  by (simp add: bt_wf_def sorted_wrt_map sorted_wrt_filter)

lemma bt_wf_remove [simp]: "bt_wf m \<Longrightarrow> bt_wf (bt_remove k m)"
  by (simp add: bt_remove_def bt_wf_filter)

lemma bt_wf_retain [simp]: "bt_wf m \<Longrightarrow> bt_wf (bt_retain P m)"
  by (simp add: bt_retain_def bt_wf_filter)

lemma bt_wf_distinct: "bt_wf m \<Longrightarrow> distinct (map fst m)"
  by (metis bt_wf_def strict_sorted_iff)

section \<open>Sums over ordered maps\<close>

definition bt_sum :: "('k \<Rightarrow> 'v \<Rightarrow> nat) \<Rightarrow> ('k, 'v) btmap \<Rightarrow> nat" where
  "bt_sum f m = (\<Sum>(k, v) \<leftarrow> m. f k v)"

definition bt_total :: "('k, 'a::len word) btmap \<Rightarrow> nat" where
  "bt_total m = bt_sum (\<lambda>_. unat) m"

definition bt_at :: "('k \<Rightarrow> 'v \<Rightarrow> nat) \<Rightarrow> ('k, 'v) btmap \<Rightarrow> 'k \<Rightarrow> nat" where
  "bt_at f m k = (case map_of m k of None \<Rightarrow> 0 | Some v \<Rightarrow> f k v)"

lemma bt_sum_simps [simp]: "bt_sum f [] = 0" "bt_sum f ((k, v) # m) = f k v + bt_sum f m"
  by (simp_all add: bt_sum_def)

lemma bt_total_Nil [simp]: "bt_total [] = 0"
  by (simp add: bt_total_def)

lemma bt_total_Cons [simp]: "bt_total ((k, v) # m) = unat v + bt_total m"
  by (simp add: bt_total_def)

lemma bt_wf_get_None: "bt_wf ((a, b) # m) \<Longrightarrow> k \<le> a \<Longrightarrow> map_of m k = None"
  by (auto simp: bt_wf_Cons map_of_eq_None_iff)

lemma bt_sum_insert:
  "bt_wf m \<Longrightarrow> bt_sum f (bt_insert k v m) + bt_at f m k = bt_sum f m + f k v"
proof (induction k v m rule: bt_insert.induct)
  case (1 k v)
  then show ?case by (simp add: bt_at_def)
next
  case (2 k v a b m)
  then have m: "bt_wf m" by (simp add: bt_wf_Cons)
  show ?case
  proof (cases "k < a")
    case True
    with bt_wf_get_None [OF "2.prems", of k] show ?thesis by (auto simp: bt_at_def)
  next
    case False
    with "2.IH" m show ?thesis by (auto simp: bt_at_def)
  qed
qed

lemma bt_at_le: "bt_at f m k \<le> bt_sum f m"
  by (induction m) (auto simp: bt_at_def)

lemma bt_sum_filter_le: "bt_sum f (filter P m) \<le> bt_sum f m"
  by (induction m) auto

lemma bt_sum_cong: "(\<And>k v. (k, v) \<in> set m \<Longrightarrow> f k v = g k v) \<Longrightarrow> bt_sum f m = bt_sum g m"
  by (induction m) auto

lemma bt_total_at: "bt_at (\<lambda>_. unat) m k = unat (bt_get_or 0 m k)"
  by (simp add: bt_at_def bt_get_or_def split: option.splits)

lemma bt_total_insert:
  "bt_wf m \<Longrightarrow> bt_total (bt_insert k v m) + unat (bt_get_or 0 m k) = bt_total m + unat v"
  using bt_sum_insert [of m "\<lambda>_. unat" k v] by (simp add: bt_total_def bt_total_at)

lemma bt_total_get_le: "unat (bt_get_or 0 m k) \<le> bt_total m"
  by (induction m) (auto simp: bt_get_or_def)

lemma bt_remove_Cons: "bt_remove k ((a, b) # m) = (if a = k then bt_remove k m else (a, b) # bt_remove k m)"
  by (simp add: bt_remove_def)

lemma bt_remove_notin: "map_of m k = None \<Longrightarrow> bt_remove k m = m"
  by (induction m) (auto simp: bt_remove_def split: if_splits)

lemma bt_sum_remove: "bt_wf m \<Longrightarrow> bt_sum f (bt_remove k m) + bt_at f m k = bt_sum f m"
proof (induction m)
  case Nil
  then show ?case by (simp add: bt_remove_def bt_at_def)
next
  case (Cons p m)
  obtain a b where p: "p = (a, b)" by (cases p)
  from Cons.prems have wf: "bt_wf ((a, b) # m)" by (simp add: p)
  then have m: "bt_wf m" by (simp add: bt_wf_Cons)
  show ?case
  proof (cases "a = k")
    case True
    with bt_wf_get_None [OF wf, of k] show ?thesis
      by (simp add: p bt_remove_Cons bt_remove_notin bt_at_def)
  next
    case False
    with Cons.IH [OF m] show ?thesis by (simp add: p bt_remove_Cons bt_at_def)
  qed
qed

lemma bt_total_remove:
  "bt_wf m \<Longrightarrow> bt_total (bt_remove k m) + unat (bt_get_or 0 m k) = bt_total m"
  using bt_sum_remove [of m "\<lambda>_. unat" k] by (simp add: bt_total_def bt_total_at)

section \<open>Big-endian bytes\<close>

fun be_bytes :: "nat \<Rightarrow> nat \<Rightarrow> bytes" where
  "be_bytes 0 k = []"
| "be_bytes (Suc n) k = of_nat (k div 256 ^ n) # be_bytes n (k mod 256 ^ n)"

definition be_val :: "bytes \<Rightarrow> nat" where
  "be_val = foldl (\<lambda>a b. a * 256 + unat b) 0"

text \<open>\<open>to_be_bytes\<close> and \<open>from_be_bytes\<close> of an unsigned integer of whole bytes.\<close>

definition to_be_bytes :: "'a::len word \<Rightarrow> bytes" where
  "to_be_bytes w = be_bytes (LENGTH('a) div 8) (unat w)"

definition from_be_bytes :: "bytes \<Rightarrow> 'a::len word" where
  "from_be_bytes bs = of_nat (be_val bs)"

lemma length_be_bytes [simp]: "length (be_bytes n k) = n"
  by (induction n arbitrary: k) auto

lemma length_to_be_bytes [simp]: "length (to_be_bytes (w :: 'a::len word)) = LENGTH('a) div 8"
  by (simp add: to_be_bytes_def)

lemma be_val_foldl: "foldl (\<lambda>a b. a * 256 + unat b) acc bs = acc * 256 ^ length bs + be_val bs"
proof (induction bs arbitrary: acc)
  case Nil
  then show ?case by (simp add: be_val_def)
next
  case (Cons b bs)
  have "be_val (b # bs) = foldl (\<lambda>a b. a * 256 + unat b) (unat b) bs" by (simp add: be_val_def)
  with Cons [of "acc * 256 + unat b"] Cons [of "unat b"] show ?case by (simp add: algebra_simps)
qed

lemma be_val_Cons: "be_val (b # bs) = unat b * 256 ^ length bs + be_val bs"
  using be_val_foldl [of "unat b" bs] by (simp add: be_val_def)

lemma be_val_be_bytes: "k < 256 ^ n \<Longrightarrow> be_val (be_bytes n k) = k"
proof (induction n arbitrary: k)
  case 0
  then show ?case by (simp add: be_val_def)
next
  case (Suc n)
  then have "k div 256 ^ n < 256" by (simp add: less_mult_imp_div_less)
  then have "unat (of_nat (k div 256 ^ n) :: u8) = k div 256 ^ n"
    by (simp add: unsigned_of_nat take_bit_nat_eq_self)
  with Suc.IH [of "k mod 256 ^ n"] show ?case
    by (simp add: be_val_Cons) (rule div_mult_mod_eq)
qed

lemma from_to_be_bytes:
  assumes "8 dvd LENGTH('a::len)"
  shows "from_be_bytes (to_be_bytes (w :: 'a word)) = w"
proof -
  from assms obtain k where k: "LENGTH('a) = 8 * k" ..
  then have "(2::nat) ^ LENGTH('a) = 256 ^ (LENGTH('a) div 8)" by (simp add: power_mult)
  with unat_lt_pow [of w] have "unat w < 256 ^ (LENGTH('a) div 8)" by simp
  then show ?thesis by (simp add: from_be_bytes_def to_be_bytes_def be_val_be_bytes)
qed

lemma to_be_bytes_inject:
  assumes "8 dvd LENGTH('a::len)"
  shows "to_be_bytes (v :: 'a word) = to_be_bytes w \<longleftrightarrow> v = w"
  by (metis assms from_to_be_bytes)

lemma bt_eqI: "bt_wf m \<Longrightarrow> bt_wf m' \<Longrightarrow> map_of m = map_of m' \<Longrightarrow> m = m'"
proof (induction m arbitrary: m')
  case Nil
  then show ?case by (metis map_of.simps(1) map_of_eq_empty_iff)
next
  case (Cons p m)
  obtain k v where p: "p = (k, v)" by (cases p)
  obtain k' v' n where m': "m' = (k', v') # n"
    using fun_cong [OF Cons.prems(3), of k] by (cases m') (auto simp: p)
  have keys: "insert k (fst ` set m) = insert k' (fst ` set n)"
    using arg_cong [OF Cons.prems(3), of dom] unfolding dom_map_of_conv_image_fst by (simp add: p m')
  have "k \<in> insert k' (fst ` set n)" "k' \<in> insert k (fst ` set m)"
    using keys by (simp_all only: insertI1 flip: keys) (simp add: keys)
  then have kk: "k = k'"
    using Cons.prems(1,2) by (auto simp: p m' bt_wf_Cons dest: less_asym)
  have "map_of m = map_of n"
  proof
    fix x
    show "map_of m x = map_of n x"
    proof (cases "x = k")
      case True
      then show ?thesis
        using Cons.prems(1,2) kk bt_wf_get_None [of k v m x] bt_wf_get_None [of k' v' n x] by (simp add: p m')
    next
      case False
      then show ?thesis using fun_cong [OF Cons.prems(3), of x] kk by (simp add: p m')
    qed
  qed
  then have "m = n" using Cons.IH [of n] Cons.prems(1,2) by (auto simp: p m' bt_wf_Cons)
  moreover have "v = v'" using fun_cong [OF Cons.prems(3), of k] kk by (simp add: p m')
  ultimately show ?case by (simp add: p m' kk)
qed

lemma set_bt_insert: "set (bt_insert k v m) \<subseteq> insert (k, v) (set m)"
  by (induction k v m rule: bt_insert.induct) auto

lemma length_bt_insert: "map_of m k = None \<Longrightarrow> length (bt_insert k v m) = Suc (length m)"
  by (induction k v m rule: bt_insert.induct) (auto split: if_splits)

lemma length_insort_insert_le: "length (insort_insert k xs) \<le> Suc (length xs)"
  by (simp add: insort_insert_key_def)

end
