(* ===== verification/Rust_Text.thy ===== *)
theory Rust_Text
  imports Prelude
begin

text \<open>
  The parts of Rust's text formatting and parsing the sources use: decimal
  printing of unsigned integers (\<open>format!("{n}")\<close>, zero padded as in
  \<open>{:05}\<close>), \<open>str::parse\<close> for unsigned integers, prefix stripping and
  splitting at the first separator, trimming and ASCII case. A string is the list of its UTF-8 bytes.
\<close>

section \<open>Operations\<close>

definition digit_char :: "nat \<Rightarrow> char" where
  "digit_char d = char_of (48 + d)"

definition digit_val :: "char \<Rightarrow> nat option" where
  "digit_val c =
     (let k = (of_char c :: nat) in if 48 \<le> k \<and> k \<le> 57 then Some (k - 48) else None)"

fun show_nat :: "nat \<Rightarrow> string" where
  "show_nat n =
     (if n < 10 then [digit_char n] else show_nat (n div 10) @ [digit_char (n mod 10)])"

declare show_nat.simps [simp del]

definition pad_zeros :: "nat \<Rightarrow> string \<Rightarrow> string" where
  "pad_zeros w s = replicate (w - length s) (CHR ''0'') @ s"

fun parse_digits :: "nat \<Rightarrow> string \<Rightarrow> nat option" where
  "parse_digits acc [] = Some acc"
| "parse_digits acc (c # cs) =
     (case digit_val c of None \<Rightarrow> None | Some d \<Rightarrow> parse_digits (acc * 10 + d) cs)"

text \<open>\<open>str::parse::<uN>\<close>: an optional plus sign, at least one digit, no overflow.\<close>

definition parse_word :: "string \<Rightarrow> 'a::len word option" where
  "parse_word s =
     (let t = (case s of c # cs \<Rightarrow> if c = CHR ''+'' then cs else s | [] \<Rightarrow> s)
      in if t = [] then None
         else case parse_digits 0 t of
           None \<Rightarrow> None
         | Some n \<Rightarrow> if n < 2 ^ LENGTH('a) then Some (of_nat n) else None)"

fun strip_prefix :: "string \<Rightarrow> string \<Rightarrow> string option" where
  "strip_prefix [] s = Some s"
| "strip_prefix (p # ps) [] = None"
| "strip_prefix (p # ps) (c # cs) = (if p = c then strip_prefix ps cs else None)"

text \<open>\<open>str::split_once\<close> with a one-character separator.\<close>

fun split_once :: "char \<Rightarrow> string \<Rightarrow> (string \<times> string) option" where
  "split_once sep [] = None"
| "split_once sep (c # cs) =
     (if c = sep then Some ([], cs)
      else case split_once sep cs of
        None \<Rightarrow> None
      | Some (a, b) \<Rightarrow> Some (c # a, b))"

definition show_word :: "'a::len word \<Rightarrow> string" where
  "show_word w = show_nat (unat w)"

text \<open>\<open>i64\<close> printing and parsing.\<close>

definition show_int :: "int \<Rightarrow> string" where
  "show_int i = (if i < 0 then CHR ''-'' # show_nat (nat (- i)) else show_nat (nat i))"

definition parse_i64 :: "string \<Rightarrow> int option" where
  "parse_i64 s =
     (let (neg, t) = (case s of
            c # cs \<Rightarrow> if c = CHR ''-'' then (True, cs) else if c = CHR ''+'' then (False, cs) else (False, s)
          | [] \<Rightarrow> (False, s))
      in if t = [] then None
         else case parse_digits 0 t of
           None \<Rightarrow> None
         | Some n \<Rightarrow>
             let i = (if neg then - int n else int n)
             in if i64_min \<le> i \<and> i \<le> i64_max then Some i else None)"

text \<open>ASCII classes and case.\<close>

definition ascii_lower :: "char \<Rightarrow> char" where
  "ascii_lower c =
     (let k = (of_char c :: nat) in if 65 \<le> k \<and> k \<le> 90 then char_of (k + 32) else c)"

definition ascii_lowercase :: "string \<Rightarrow> string" where
  "ascii_lowercase s = map ascii_lower s"

definition ascii_hexdigit :: "char \<Rightarrow> bool" where
  "ascii_hexdigit c =
     (let k = (of_char c :: nat)
      in 48 \<le> k \<and> k \<le> 57 \<or> 65 \<le> k \<and> k \<le> 70 \<or> 97 \<le> k \<and> k \<le> 102)"

text \<open>
  \<open>str::trim\<close>: the characters of the Unicode property \<open>White_Space\<close>, as UTF-8 sequences,
  removed from both ends.
\<close>

definition white_space :: "string list" where
  "white_space =
     map (map char_of)
       ([[9], [10], [11], [12], [13], [32], [194, 133], [194, 160], [225, 154, 128],
         [226, 128, 168], [226, 128, 169], [226, 128, 175], [226, 129, 159], [227, 128, 128]]
        @ map (\<lambda>k. [226, 128, k]) [128..<139] :: nat list list)"

function trim_start_of :: "string list \<Rightarrow> string \<Rightarrow> string" where
  "trim_start_of ws s =
     (case find (\<lambda>w. w \<noteq> [] \<and> strip_prefix w s \<noteq> None) ws of
        None \<Rightarrow> s
      | Some w \<Rightarrow> trim_start_of ws (drop (length w) s))"
  by auto

definition trim :: "string \<Rightarrow> string" where
  "trim s = rev (trim_start_of (map rev white_space) (rev (trim_start_of white_space s)))"

section \<open>Facts\<close>

lemma strip_prefix_length: "strip_prefix p s \<noteq> None \<Longrightarrow> length p \<le> length s"
  by (induction p s rule: strip_prefix.induct) (auto split: if_splits)

termination trim_start_of
proof (relation "measure (\<lambda>(ws, s). length s)")
  fix ws s w
  assume "find (\<lambda>w. w \<noteq> [] \<and> strip_prefix w s \<noteq> None) ws = Some w"
  then have "w \<noteq> []" "strip_prefix w s \<noteq> None" by (auto simp: find_Some_iff)
  then have "0 < length w" "length w \<le> length s" using strip_prefix_length by auto
  then have "length s - length w < length s" by linarith
  then show "((ws, drop (length w) s), (ws, s)) \<in> measure (\<lambda>(ws, s). length s)" by simp
qed simp

declare trim_start_of.simps [simp del]


lemma of_char_digit_char [simp]: "d < 10 \<Longrightarrow> (of_char (digit_char d) :: nat) = 48 + d"
  by (simp add: digit_char_def)

lemma digit_val_digit_char [simp]: "d < 10 \<Longrightarrow> digit_val (digit_char d) = Some d"
  by (simp add: digit_val_def)

lemma parse_digits_append:
  "parse_digits acc (xs @ ys) =
     (case parse_digits acc xs of None \<Rightarrow> None | Some n \<Rightarrow> parse_digits n ys)"
  by (induction xs arbitrary: acc) (auto split: option.split)

lemma parse_digits_show_nat:
  "parse_digits acc (show_nat n) = Some (acc * 10 ^ length (show_nat n) + n)"
proof (induction n arbitrary: acc rule: show_nat.induct)
  case (1 n)
  show ?case
  proof (cases "n < 10")
    case True
    then show ?thesis by (simp add: show_nat.simps)
  next
    case False
    with 1 have "parse_digits acc (show_nat (n div 10)) =
        Some (acc * 10 ^ length (show_nat (n div 10)) + n div 10)" by blast
    with False show ?thesis
      by (simp add: show_nat.simps [of n] parse_digits_append algebra_simps)
  qed
qed

lemma show_nat_not_Nil [simp]: "show_nat n \<noteq> []"
  by (simp add: show_nat.simps)

lemma digit_val_set_show_nat: "c \<in> set (show_nat n) \<Longrightarrow> digit_val c \<noteq> None"
proof (induction n rule: show_nat.induct)
  case (1 n)
  then show ?case
    by (cases "n < 10") (auto simp: show_nat.simps [of n])
qed

lemma show_nat_chars: "digit_val c = None \<Longrightarrow> c \<notin> set (show_nat n)"
  using digit_val_set_show_nat by blast

lemma digit_val_punct [simp]:
  "digit_val (CHR ''+'') = None" "digit_val (CHR '':'') = None"
  by (simp_all add: digit_val_def)

lemma parse_word_show_word [simp]: "parse_word (show_word (w :: 'a::len word)) = Some w"
proof -
  have plus: "CHR ''+'' \<notin> set (show_nat (unat w))" by (rule show_nat_chars) simp
  then obtain c cs where s: "show_nat (unat w) = c # cs" "c \<noteq> CHR ''+''"
    by (cases "show_nat (unat w)") auto
  have "parse_digits 0 (show_nat (unat w)) = Some (unat w)"
    by (simp add: parse_digits_show_nat)
  with s show ?thesis by (simp add: parse_word_def show_word_def Let_def unat_lt_pow)
qed

lemma show_nat_inject [simp]: "show_nat m = show_nat n \<longleftrightarrow> m = n"
proof
  assume "show_nat m = show_nat n"
  then have "parse_digits 0 (show_nat m) = parse_digits 0 (show_nat n)" by (rule arg_cong)
  then show "m = n" by (simp add: parse_digits_show_nat)
qed simp

lemma show_word_inject [simp]: "show_word v = show_word w \<longleftrightarrow> v = w"
  by (simp add: show_word_def word_unat_eq_iff)

lemma strip_prefix_append [simp]: "strip_prefix p (p @ s) = Some s"
  by (induction p) auto

lemma strip_prefix_Some: "strip_prefix p s = Some t \<longleftrightarrow> s = p @ t"
  by (induction p s rule: strip_prefix.induct) auto

lemma split_once_append [simp]: "sep \<notin> set a \<Longrightarrow> split_once sep (a @ sep # b) = Some (a, b)"
  by (induction a) auto

lemma split_once_Some:
  "split_once sep s = Some (a, b) \<longleftrightarrow> s = a @ sep # b \<and> sep \<notin> set a"
proof
  show "split_once sep s = Some (a, b) \<Longrightarrow> s = a @ sep # b \<and> sep \<notin> set a"
    by (induction sep s arbitrary: a rule: split_once.induct) (auto split: option.splits if_splits)
qed auto

lemma length_pad_zeros: "length (pad_zeros w s) = max w (length s)"
  by (simp add: pad_zeros_def)

lemma length_show_nat_le: "n < 10 ^ Suc k \<Longrightarrow> length (show_nat n) \<le> Suc k"
proof (induction k arbitrary: n)
  case 0
  then show ?case by (simp add: show_nat.simps)
next
  case (Suc k)
  then have "n div 10 < 10 ^ Suc k" by (simp add: less_mult_imp_div_less)
  with Suc.IH [of "n div 10"] show ?case by (simp add: show_nat.simps [of n])
qed

lemma trim_start_of_keep:
  assumes "\<And>w. w \<in> set ws \<Longrightarrow> w \<noteq> [] \<Longrightarrow> hd w \<noteq> c"
  shows "trim_start_of ws (c # s) = c # s"
proof -
  have "find (\<lambda>w. w \<noteq> [] \<and> strip_prefix w (c # s) \<noteq> None) ws = None"
  proof -
    have "strip_prefix w (c # s) = None" if "w \<in> set ws" "w \<noteq> []" for w
      using assms [OF that] that(2) by (cases w) auto
    then show ?thesis by (force simp: find_None_iff)
  qed
  then show ?thesis by (subst trim_start_of.simps) simp
qed

lemma white_space_not_hex:
  assumes "ascii_hexdigit c"
  shows "w \<in> set white_space \<Longrightarrow> w \<noteq> [] \<Longrightarrow> hd w \<noteq> c"
    and "w \<in> set white_space \<Longrightarrow> w \<noteq> [] \<Longrightarrow> last w \<noteq> c"
proof -
  have "list_all (\<lambda>w. \<not> ascii_hexdigit (hd w) \<and> \<not> ascii_hexdigit (last w)) white_space"
    by code_simp
  with assms show "w \<in> set white_space \<Longrightarrow> w \<noteq> [] \<Longrightarrow> hd w \<noteq> c"
    "w \<in> set white_space \<Longrightarrow> w \<noteq> [] \<Longrightarrow> last w \<noteq> c"
    by (auto simp: list_all_iff)
qed

lemma trim_hex: "list_all ascii_hexdigit s \<Longrightarrow> trim s = s"
proof (cases s)
  case (Cons c cs)
  assume hex: "list_all ascii_hexdigit s"
  have "trim_start_of white_space s = s"
    using hex white_space_not_hex(1) by (auto simp: Cons intro: trim_start_of_keep)
  moreover obtain d ds where d: "rev s = d # ds" by (cases "rev s") (auto simp: Cons)
  then have "ascii_hexdigit d" using hex by (metis list.set_intros(1) list_all_iff set_rev)
  then have "trim_start_of (map rev white_space) (rev s) = rev s"
    using white_space_not_hex(2) [OF \<open>ascii_hexdigit d\<close>] unfolding d
    by (intro trim_start_of_keep) (fastforce simp: hd_rev)
  ultimately show ?thesis by (simp add: trim_def)
qed (simp add: trim_def trim_start_of.simps white_space_def)

lemma ascii_lower_idem [simp]: "ascii_lower (ascii_lower c) = ascii_lower c"
  by (simp add: ascii_lower_def Let_def)

lemma ascii_lowercase_idem [simp]: "ascii_lowercase (ascii_lowercase s) = ascii_lowercase s"
  by (simp add: ascii_lowercase_def)

end
