(* ===== verification/Core_Types.thy ===== *)
theory Core_Types
  imports Rust_Text
begin

text \<open>
  The identifiers and proofs of \<open>konsensus-core/src/types.rs\<close> and the error type of
  \<open>error.rs\<close>. A fixed-size array \<open>[u8; N]\<close> is a byte list inside its constructor;
  the predicates \<open>wf_...\<close> state its length, and every checked constructor
  establishes it. The hash, hex, UUID and signature crates are the fields of
  \<open>ext_ops\<close>: nothing is assumed of them here.
\<close>

section \<open>External crates\<close>

text \<open>
  \<open>blake3\<close> and \<open>sha256\<close> hash a byte string (feeding a hasher in pieces hashes the
  concatenation). \<open>hex_decode\<close>, \<open>vk_from_bytes\<close>, \<open>uuid_parse\<close> and \<open>verify_strict\<close>
  return the crate's error text or their result; a verifying key is named by its encoding;
  \<open>json_strings\<close> is \<open>serde_json::to_string\<close> on a list of strings.
\<close>

record ext_ops =
  blake3 :: "bytes \<Rightarrow> bytes"
  sha256 :: "bytes \<Rightarrow> bytes"
  hex_encode :: "bytes \<Rightarrow> string"
  hex_decode :: "string \<Rightarrow> string + bytes"
  uuid_parse :: "string \<Rightarrow> string + bytes"
  uuid_to_string :: "bytes \<Rightarrow> string"
  json_strings :: "string list \<Rightarrow> string + string"
  vk_from_bytes :: "bytes \<Rightarrow> string + bytes"
  verify_strict :: "bytes \<Rightarrow> bytes \<Rightarrow> bytes \<Rightarrow> string + unit"
  ed25519_sign :: "bytes \<Rightarrow> bytes \<Rightarrow> bytes"

section \<open>Errors\<close>

datatype core_error =
    InvalidPublicKey string
  | InvalidSignature string
  | InvalidMessageId string
  | InvalidNonce string
  | EnvelopeValidation string
  | InvalidPaymentProof string
  | Serialization string
  | InvalidRoomId string
  | HexDecode string

section \<open>Identifiers\<close>

datatype message_id = MessageId (mid_bytes: bytes)
datatype node_id = NodeId (nid_bytes: bytes)
datatype room_id = RoomId (room_bytes: bytes)
datatype nonce = Nonce (nonce_bytes: bytes)
datatype signature = Signature (sig_bytes: bytes)
datatype recipient = Node node_id | Room room_id | Broadcast

fun wf_message_id :: "message_id \<Rightarrow> bool" where "wf_message_id (MessageId b) = (length b = 32)"
fun wf_node_id :: "node_id \<Rightarrow> bool" where "wf_node_id (NodeId b) = (length b = 32)"
fun wf_room_id :: "room_id \<Rightarrow> bool" where "wf_room_id (RoomId b) = (length b = 16)"
fun wf_nonce :: "nonce \<Rightarrow> bool" where "wf_nonce (Nonce b) = (length b = 24)"
fun wf_signature :: "signature \<Rightarrow> bool" where "wf_signature (Signature b) = (length b = 64)"

fun wf_recipient :: "recipient \<Rightarrow> bool" where
  "wf_recipient (Node n) = wf_node_id n"
| "wf_recipient (Room r) = wf_room_id r"
| "wf_recipient Broadcast = True"

definition expected_bytes :: "nat \<Rightarrow> bytes \<Rightarrow> string" where
  "expected_bytes n b =
     ''expected '' @ show_nat n @ '' bytes, got '' @ show_nat (length b)"

definition message_id_compute :: "ext_ops \<Rightarrow> bytes \<Rightarrow> nonce \<Rightarrow> message_id" where
  "message_id_compute x ciphertext n = MessageId (blake3 x (ciphertext @ nonce_bytes n))"

definition message_id_try_from_slice :: "bytes \<Rightarrow> core_error + message_id" where
  "message_id_try_from_slice b =
     (if length b = 32 then Inr (MessageId b) else Inl (InvalidMessageId (expected_bytes 32 b)))"

definition message_id_from_hex :: "ext_ops \<Rightarrow> string \<Rightarrow> core_error + message_id" where
  "message_id_from_hex x s =
     (case hex_decode x s of
        Inl e \<Rightarrow> Inl (HexDecode e)
      | Inr b \<Rightarrow> message_id_try_from_slice b)"

definition message_id_to_hex :: "ext_ops \<Rightarrow> message_id \<Rightarrow> string" where
  "message_id_to_hex x m = hex_encode x (mid_bytes m)"

definition node_id_try_from_slice :: "bytes \<Rightarrow> core_error + node_id" where
  "node_id_try_from_slice b =
     (if length b = 32 then Inr (NodeId b) else Inl (InvalidPublicKey (expected_bytes 32 b)))"

definition node_id_from_hex :: "ext_ops \<Rightarrow> string \<Rightarrow> core_error + node_id" where
  "node_id_from_hex x s =
     (case hex_decode x s of
        Inl e \<Rightarrow> Inl (HexDecode e)
      | Inr b \<Rightarrow> node_id_try_from_slice b)"

definition node_id_to_hex :: "ext_ops \<Rightarrow> node_id \<Rightarrow> string" where
  "node_id_to_hex x n = hex_encode x (nid_bytes n)"

definition to_verifying_key :: "ext_ops \<Rightarrow> node_id \<Rightarrow> core_error + bytes" where
  "to_verifying_key x n =
     (case vk_from_bytes x (nid_bytes n) of
        Inl e \<Rightarrow> Inl (InvalidPublicKey e)
      | Inr k \<Rightarrow> Inr k)"

definition room_id_parse :: "ext_ops \<Rightarrow> string \<Rightarrow> core_error + room_id" where
  "room_id_parse x s =
     (case uuid_parse x s of
        Inl e \<Rightarrow> Inl (InvalidRoomId e)
      | Inr b \<Rightarrow> Inr (RoomId b))"

definition nonce_try_from_slice :: "bytes \<Rightarrow> core_error + nonce" where
  "nonce_try_from_slice b =
     (if length b = 24 then Inr (Nonce b) else Inl (InvalidNonce (expected_bytes 24 b)))"

definition signature_try_from_slice :: "bytes \<Rightarrow> core_error + signature" where
  "signature_try_from_slice b =
     (if length b = 64 then Inr (Signature b)
      else Inl (InvalidSignature (expected_bytes 64 b)))"

text \<open>
  The serde visitor for fixed-size hex fields: the text length is checked before
  anything is decoded (\<open>decode_to_slice\<close> into a buffer of the right size decodes as
  \<open>decode\<close> does).
\<close>

definition fixed_hex :: "ext_ops \<Rightarrow> nat \<Rightarrow> string \<Rightarrow> string + bytes" where
  "fixed_hex x n value =
     (if length value \<noteq> n * 2
      then Inl (''expected '' @ show_nat (n * 2) @ '' hex characters'')
      else hex_decode x value)"

section \<open>Safety numbers\<close>

definition safety_group :: "bytes \<Rightarrow> bytes \<Rightarrow> nat \<Rightarrow> string" where
  "safety_group bs bs2 i =
     (let src = (if i < 8 then bs else bs2);
          offset = (i mod 8) * 4;
          val = (from_be_bytes [src ! offset, src ! (offset + 1), src ! (offset + 2),
                                src ! (offset + 3)] :: u32)
      in pad_zeros 5 (show_word (val mod 100000)))"

fun join_space :: "string list \<Rightarrow> string" where
  "join_space [] = []"
| "join_space [s] = s"
| "join_space (s # ss) = s @ '' '' @ join_space ss"

definition ascii_bytes :: "string \<Rightarrow> bytes" where
  "ascii_bytes s = map (\<lambda>c. of_nat (of_char c)) s"

definition safety_number :: "ext_ops \<Rightarrow> node_id \<Rightarrow> node_id \<Rightarrow> string" where
  "safety_number x me peer =
     (let (a, b) = (if nid_bytes me < nid_bytes peer then (nid_bytes me, nid_bytes peer)
                    else (nid_bytes peer, nid_bytes me));
          hash = blake3 x (ascii_bytes ''konsensus-safety-number-v1'' @ a @ b);
          hash2 = blake3 x hash
      in join_space (map (safety_group hash hash2) [0..<12]))"

section \<open>Payment proofs\<close>

record payment_proof =
  payment_hash :: bytes
  preimage :: bytes
  amount_msat :: u64

definition payment_proof_new :: "bytes \<Rightarrow> bytes \<Rightarrow> u64 \<Rightarrow> payment_proof" where
  "payment_proof_new h p a = \<lparr> payment_hash = h, preimage = p, amount_msat = a \<rparr>"

definition wf_payment_proof :: "payment_proof \<Rightarrow> bool" where
  "wf_payment_proof p = (length (payment_hash p) = 32 \<and> length (preimage p) = 32)"

definition verify_preimage :: "ext_ops \<Rightarrow> payment_proof \<Rightarrow> core_error + unit" where
  "verify_preimage x p =
     (if sha256 x (preimage p) = payment_hash p then Inr ()
      else Inl (InvalidPaymentProof ''preimage does not match payment hash''))"

section \<open>Facts\<close>

lemma message_id_from_hex_wf: "message_id_from_hex x s = Inr m \<Longrightarrow> wf_message_id m"
  by (auto simp: message_id_from_hex_def message_id_try_from_slice_def split: sum.splits if_splits)

lemma node_id_from_hex_wf: "node_id_from_hex x s = Inr n \<Longrightarrow> wf_node_id n"
  by (auto simp: node_id_from_hex_def node_id_try_from_slice_def split: sum.splits if_splits)

lemma message_id_hex_round_trip:
  assumes "\<And>b. hex_decode x (hex_encode x b) = Inr b" "wf_message_id m"
  shows "message_id_from_hex x (message_id_to_hex x m) = Inr m"
  using assms by (cases m) (simp add: message_id_from_hex_def message_id_to_hex_def
      message_id_try_from_slice_def)

lemma node_id_hex_round_trip:
  assumes "\<And>b. hex_decode x (hex_encode x b) = Inr b" "wf_node_id n"
  shows "node_id_from_hex x (node_id_to_hex x n) = Inr n"
  using assms by (cases n) (simp add: node_id_from_hex_def node_id_to_hex_def
      node_id_try_from_slice_def)

lemma safety_number_commute: "safety_number x a b = safety_number x b a"
proof (cases "nid_bytes a = nid_bytes b")
  case False
  then have "nid_bytes a < nid_bytes b \<longleftrightarrow> \<not> nid_bytes b < nid_bytes a"
    by (meson linorder_less_linear order_less_asym)
  then show ?thesis by (simp add: safety_number_def)
qed (simp add: safety_number_def)

lemma length_join_space:
  "(\<And>s. s \<in> set ss \<Longrightarrow> length s = n) \<Longrightarrow>
   length (join_space ss) = length ss * n + (length ss - 1)"
  by (induction ss rule: join_space.induct) auto

lemma length_pad_mod: "length (pad_zeros 5 (show_word ((v :: u32) mod 100000))) = 5"
  using length_show_nat_le [of "unat (v mod 100000)" 4]
  by (simp add: unat_mod length_pad_zeros show_word_def max_def)

lemma length_safety_group: "length (safety_group bs bs2 i) = 5"
  by (simp add: safety_group_def Let_def length_pad_mod)

lemma length_safety_groups:
  "length (join_space (map (safety_group bs bs2) [0..<12])) = 71"
  using length_join_space [of "map (safety_group bs bs2) [0..<12]" 5] length_safety_group
  by auto

lemma length_safety_number: "length (safety_number x a b) = 71"
  unfolding safety_number_def Let_def by (cases "nid_bytes a < nid_bytes b")
    (simp_all add: length_safety_groups del: upt_Suc)

lemma verify_preimage_iff: "verify_preimage x p = Inr () \<longleftrightarrow> payment_hash p = sha256 x (preimage p)"
  by (auto simp: verify_preimage_def)

section \<open>Properties\<close>

text \<open>
  Both peers of a conversation compute the same safety number, whatever the hash
  function, and it always has the same printed width of 71 characters.
\<close>

theorem safety_number_symmetric:
  "safety_number x a b = safety_number x b a \<and> length (safety_number x a b) = 71"
  by (metis safety_number_commute length_safety_number)

end
