(* ===== verification/Kinds.thy ===== *)
theory Kinds
  imports Prelude
begin

text \<open>
  The message-kind taxonomy of \<open>konsensus-core/src/kind.rs\<close>: the kind constants,
  the category of a kind and the key of a category in a price table.
\<close>

section \<open>Constants\<close>

definition KIND_CHAT :: u16 where "KIND_CHAT = 0"
definition KIND_LONGFORM :: u16 where "KIND_LONGFORM = 1"
definition KIND_REPLY :: u16 where "KIND_REPLY = 2"
definition KIND_REACTION :: u16 where "KIND_REACTION = 3"
definition KIND_EDIT :: u16 where "KIND_EDIT = 4"
definition KIND_DELETE :: u16 where "KIND_DELETE = 5"
definition KIND_FORWARD :: u16 where "KIND_FORWARD = 6"

definition KIND_CALENDAR_EVENT :: u16 where "KIND_CALENDAR_EVENT = 100"
definition KIND_RSVP :: u16 where "KIND_RSVP = 101"
definition KIND_CONTACT :: u16 where "KIND_CONTACT = 102"
definition KIND_PROFILE :: u16 where "KIND_PROFILE = 103"
definition KIND_CALENDAR_UPDATE :: u16 where "KIND_CALENDAR_UPDATE = 104"

definition KIND_FILE_REF :: u16 where "KIND_FILE_REF = 200"
definition KIND_INLINE_IMAGE :: u16 where "KIND_INLINE_IMAGE = 201"
definition KIND_VOICE_MEMO :: u16 where "KIND_VOICE_MEMO = 202"

definition KIND_CRDT_OP :: u16 where "KIND_CRDT_OP = 300"
definition KIND_DOC_SNAPSHOT :: u16 where "KIND_DOC_SNAPSHOT = 301"

definition KIND_PAGE_REQUEST :: u16 where "KIND_PAGE_REQUEST = 500"
definition KIND_PAGE_RESPONSE :: u16 where "KIND_PAGE_RESPONSE = 501"
definition KIND_WEB_MANIFEST :: u16 where "KIND_WEB_MANIFEST = 510"
definition KIND_PEER_ENDORSE :: u16 where "KIND_PEER_ENDORSE = 520"
definition KIND_CONTENT_ANNOUNCE :: u16 where "KIND_CONTENT_ANNOUNCE = 521"
definition KIND_TOPIC_SUBSCRIBE :: u16 where "KIND_TOPIC_SUBSCRIBE = 522"
definition KIND_TOPIC_UNSUBSCRIBE :: u16 where "KIND_TOPIC_UNSUBSCRIBE = 523"

definition KIND_CALL_INVITE :: u16 where "KIND_CALL_INVITE = 400"
definition KIND_CALL_ANSWER :: u16 where "KIND_CALL_ANSWER = 401"
definition KIND_ICE_CANDIDATE :: u16 where "KIND_ICE_CANDIDATE = 402"
definition KIND_CALL_HANGUP :: u16 where "KIND_CALL_HANGUP = 403"
definition KIND_CALL_BLOCK :: u16 where "KIND_CALL_BLOCK = 404"

definition KIND_TYPING :: u16 where "KIND_TYPING = 900"
definition KIND_READ_RECEIPT :: u16 where "KIND_READ_RECEIPT = 901"
definition KIND_PRESENCE :: u16 where "KIND_PRESENCE = 902"
definition KIND_PEER_EXCHANGE :: u16 where "KIND_PEER_EXCHANGE = 903"
definition KIND_ROOM_CREATE :: u16 where "KIND_ROOM_CREATE = 910"
definition KIND_ROOM_INVITE :: u16 where "KIND_ROOM_INVITE = 911"
definition KIND_ROOM_JOIN :: u16 where "KIND_ROOM_JOIN = 912"
definition KIND_ROOM_LEAVE :: u16 where "KIND_ROOM_LEAVE = 913"
definition KIND_ROOM_UPDATE :: u16 where "KIND_ROOM_UPDATE = 914"
definition KIND_KEY_EXCHANGE :: u16 where "KIND_KEY_EXCHANGE = 950"
definition KIND_MLS_WELCOME :: u16 where "KIND_MLS_WELCOME = 960"
definition KIND_MLS_COMMIT :: u16 where "KIND_MLS_COMMIT = 961"
definition KIND_MLS_PROPOSAL :: u16 where "KIND_MLS_PROPOSAL = 962"

definition KIND_RELAY_REGISTER :: u16 where "KIND_RELAY_REGISTER = 600"
definition KIND_RELAY_DEPOSIT :: u16 where "KIND_RELAY_DEPOSIT = 601"
definition KIND_RELAY_ACK :: u16 where "KIND_RELAY_ACK = 602"
definition KIND_RELAY_DRAIN :: u16 where "KIND_RELAY_DRAIN = 603"
definition KIND_RELAY_UNREGISTER :: u16 where "KIND_RELAY_UNREGISTER = 604"

definition KIND_APP_EXT_START :: u16 where "KIND_APP_EXT_START = 1000"

lemmas web_kind_defs =
  KIND_PAGE_REQUEST_def KIND_PAGE_RESPONSE_def KIND_WEB_MANIFEST_def

lemmas call_kind_defs =
  KIND_CALL_INVITE_def KIND_CALL_ANSWER_def KIND_ICE_CANDIDATE_def KIND_CALL_HANGUP_def
  KIND_CALL_BLOCK_def

section \<open>Categories\<close>

datatype kind_category =
    Communication | StructuredData | FilesMedia | Collaboration | RealTimeSignaling
  | WebContent | Storage | Control | AppExtension | Unknown

fun price_table_key :: "kind_category \<Rightarrow> string" where
  "price_table_key Communication = ''communication''"
| "price_table_key StructuredData = ''structured_data''"
| "price_table_key FilesMedia = ''files_media''"
| "price_table_key Collaboration = ''collaboration''"
| "price_table_key RealTimeSignaling = ''realtime_signaling''"
| "price_table_key WebContent = ''web_content''"
| "price_table_key Storage = ''relay_storage''"
| "price_table_key Control = ''control''"
| "price_table_key AppExtension = ''app_extension''"
| "price_table_key Unknown = ''unknown''"

definition from_kind :: "u16 \<Rightarrow> kind_category" where
  "from_kind kind =
     (if kind \<le> 99 then Communication
      else if 100 \<le> kind \<and> kind \<le> 199 then StructuredData
      else if 200 \<le> kind \<and> kind \<le> 299 then FilesMedia
      else if 300 \<le> kind \<and> kind \<le> 399 then Collaboration
      else if 400 \<le> kind \<and> kind \<le> 499 then RealTimeSignaling
      else if 500 \<le> kind \<and> kind \<le> 599 then WebContent
      else if 600 \<le> kind \<and> kind \<le> 699 then Storage
      else if 900 \<le> kind \<and> kind \<le> 999 then Control
      else if 1000 \<le> kind then AppExtension
      else Unknown)"

lemma price_table_key_inject [simp]: "price_table_key a = price_table_key b \<longleftrightarrow> a = b"
  by (cases a; cases b) simp_all

lemma from_kind_range:
  "unat k \<le> 99 \<Longrightarrow> from_kind k = Communication"
  "100 \<le> unat k \<Longrightarrow> unat k \<le> 199 \<Longrightarrow> from_kind k = StructuredData"
  "200 \<le> unat k \<Longrightarrow> unat k \<le> 299 \<Longrightarrow> from_kind k = FilesMedia"
  "300 \<le> unat k \<Longrightarrow> unat k \<le> 399 \<Longrightarrow> from_kind k = Collaboration"
  "400 \<le> unat k \<Longrightarrow> unat k \<le> 499 \<Longrightarrow> from_kind k = RealTimeSignaling"
  "500 \<le> unat k \<Longrightarrow> unat k \<le> 599 \<Longrightarrow> from_kind k = WebContent"
  "600 \<le> unat k \<Longrightarrow> unat k \<le> 699 \<Longrightarrow> from_kind k = Storage"
  "700 \<le> unat k \<Longrightarrow> unat k \<le> 899 \<Longrightarrow> from_kind k = Unknown"
  "900 \<le> unat k \<Longrightarrow> unat k \<le> 999 \<Longrightarrow> from_kind k = Control"
  "1000 \<le> unat k \<Longrightarrow> from_kind k = AppExtension"
  by (simp_all add: from_kind_def word_le_nat_alt)

lemma from_kind_call:
  "from_kind k = RealTimeSignaling \<longleftrightarrow> 400 \<le> unat k \<and> unat k \<le> 499"
proof
  show "400 \<le> unat k \<and> unat k \<le> 499 \<Longrightarrow> from_kind k = RealTimeSignaling"
    by (simp add: from_kind_range)
  assume a: "from_kind k = RealTimeSignaling"
  consider "unat k \<le> 99" | "100 \<le> unat k" "unat k \<le> 199" | "200 \<le> unat k" "unat k \<le> 299"
    | "300 \<le> unat k" "unat k \<le> 399" | "400 \<le> unat k" "unat k \<le> 499"
    | "500 \<le> unat k" "unat k \<le> 599" | "600 \<le> unat k" "unat k \<le> 699"
    | "700 \<le> unat k" "unat k \<le> 899" | "900 \<le> unat k" "unat k \<le> 999" | "1000 \<le> unat k"
    by linarith
  then show "400 \<le> unat k \<and> unat k \<le> 499"
    using a by cases (simp_all add: from_kind_range)
qed

end
