(* ===== verification/Envelope.thy ===== *)
theory Envelope
  imports Core_Types Kinds
begin

text \<open>
  The message envelope of \<open>konsensus-core/src/envelope.rs\<close> (decoding caps, signed
  bytes, integrity check, re-signing for a resend, the builder) and the binding of
  web service replies to paid requests of \<open>web_reply.rs\<close>.
\<close>

section \<open>Envelope\<close>

definition MAX_MESSAGE_REFERENCES :: nat where "MAX_MESSAGE_REFERENCES = 64"
definition MAX_CIPHERTEXT_BYTES :: nat where "MAX_CIPHERTEXT_BYTES = 6 * 1024 * 1024"

text \<open>
  The bounded visitors pull elements one at a time; an element the deserializer
  cannot read is \<open>Inl\<close> its error. Both stop at the first element past the cap.
\<close>

fun visit_bounded :: "nat \<Rightarrow> string \<Rightarrow> 'a list \<Rightarrow> (string + 'a) list \<Rightarrow> string + 'a list" where
  "visit_bounded cap msg out [] = Inr out"
| "visit_bounded cap msg out (Inl e # seq) = Inl e"
| "visit_bounded cap msg out (Inr item # seq) =
     (if cap \<le> length out then Inl msg else visit_bounded cap msg (out @ [item]) seq)"

definition bounded_references :: "(string + message_id) list \<Rightarrow> string + message_id list" where
  "bounded_references seq =
     visit_bounded MAX_MESSAGE_REFERENCES
       (''references list exceeds maximum of '' @ show_nat MAX_MESSAGE_REFERENCES @ '' entries'')
       [] seq"

definition bounded_ciphertext :: "(string + u8) list \<Rightarrow> string + bytes" where
  "bounded_ciphertext seq =
     visit_bounded MAX_CIPHERTEXT_BYTES ''ciphertext exceeds byte cap'' [] seq"

record ukm_envelope =
  ukm_id :: message_id
  ukm_kind :: u16
  ukm_sender :: node_id
  ukm_recipient :: recipient
  ukm_timestamp :: u64
  ukm_ciphertext :: bytes
  ukm_payment_proof :: payment_proof
  ukm_signature :: signature
  ukm_nonce :: nonce
  ukm_references :: "message_id list"

record node_identity =
  ident_node_id :: node_id
  ident_signing :: bytes

definition identity_sign :: "ext_ops \<Rightarrow> node_identity \<Rightarrow> bytes \<Rightarrow> signature" where
  "identity_sign x ident msg = Signature (ed25519_sign x (ident_signing ident) msg)"

fun recipient_bytes :: "recipient \<Rightarrow> bytes" where
  "recipient_bytes (Node n) = 0x01 # nid_bytes n"
| "recipient_bytes (Room r) = 0x02 # room_bytes r"
| "recipient_bytes Broadcast = [0x03]"

definition signable_bytes :: "ukm_envelope \<Rightarrow> bytes" where
  "signable_bytes e =
     to_be_bytes (ukm_kind e)
     @ nid_bytes (ukm_sender e)
     @ recipient_bytes (ukm_recipient e)
     @ to_be_bytes (ukm_timestamp e)
     @ ukm_ciphertext e
     @ nonce_bytes (ukm_nonce e)
     @ payment_hash (ukm_payment_proof e)
     @ preimage (ukm_payment_proof e)
     @ to_be_bytes (amount_msat (ukm_payment_proof e))"

definition refresh_for_resend ::
  "ext_ops \<Rightarrow> node_identity \<Rightarrow> u64 \<Rightarrow> ukm_envelope \<Rightarrow> (core_error + bool) \<times> ukm_envelope" where
  "refresh_for_resend x ident now_ms e =
     (if ukm_sender e \<noteq> ident_node_id ident
      then (Inl (EnvelopeValidation ''cannot re-sign another sender's envelope''), e)
      else if sat_sub now_ms (ukm_timestamp e) \<le> 240000 then (Inr False, e)
      else let e' = e \<lparr> ukm_timestamp := now_ms \<rparr>
           in (Inr True, e' \<lparr> ukm_signature := identity_sign x ident (signable_bytes e') \<rparr>))"

definition validate :: "ext_ops \<Rightarrow> ukm_envelope \<Rightarrow> core_error + unit" where
  "validate x e =
     (if ukm_id e \<noteq> message_id_compute x (ukm_ciphertext e) (ukm_nonce e)
      then Inl (EnvelopeValidation ''message id does not match blake3(ciphertext || nonce)'')
      else if ukm_ciphertext e = []
      then Inl (EnvelopeValidation ''ciphertext must not be empty'')
      else case verify_preimage x (ukm_payment_proof e) of
        Inl err \<Rightarrow> Inl err
      | Inr _ \<Rightarrow>
          if length (ukm_references e) > MAX_MESSAGE_REFERENCES
          then Inl (EnvelopeValidation
                 (''references list exceeds maximum of '' @ show_nat MAX_MESSAGE_REFERENCES))
          else Inr ())"

section \<open>Builder\<close>

record ukm_builder =
  b_kind :: u16
  b_sender :: node_id
  b_recipient :: recipient
  b_timestamp :: u64
  b_ciphertext :: bytes
  b_payment_proof :: payment_proof
  b_signature :: signature
  b_nonce :: nonce
  b_references :: "message_id list"

text \<open>The clock reading in milliseconds (a \<open>u128\<close>) and the random nonce are arguments.\<close>

definition builder_new ::
  "u128 \<Rightarrow> nonce \<Rightarrow> u16 \<Rightarrow> node_id \<Rightarrow> recipient \<Rightarrow> bytes \<Rightarrow> payment_proof \<Rightarrow> ukm_builder" where
  "builder_new now_ms_u128 gen_nonce kind sender recip ct proof =
     \<lparr> b_kind = kind, b_sender = sender, b_recipient = recip,
       b_timestamp = (if unat now_ms_u128 < 2 ^ 64 then ucast now_ms_u128 else - 1),
       b_ciphertext = ct, b_payment_proof = proof,
       b_signature = Signature (replicate 64 0), b_nonce = gen_nonce, b_references = [] \<rparr>"

definition builder_timestamp :: "u64 \<Rightarrow> ukm_builder \<Rightarrow> ukm_builder" where
  "builder_timestamp ts b = b \<lparr> b_timestamp := ts \<rparr>"

definition builder_nonce :: "nonce \<Rightarrow> ukm_builder \<Rightarrow> ukm_builder" where
  "builder_nonce n b = b \<lparr> b_nonce := n \<rparr>"

definition builder_signature :: "signature \<Rightarrow> ukm_builder \<Rightarrow> ukm_builder" where
  "builder_signature sg b = b \<lparr> b_signature := sg \<rparr>"

definition builder_references :: "message_id list \<Rightarrow> ukm_builder \<Rightarrow> ukm_builder" where
  "builder_references refs b = b \<lparr> b_references := refs \<rparr>"

definition build :: "ext_ops \<Rightarrow> ukm_builder \<Rightarrow> ukm_envelope" where
  "build x b =
     \<lparr> ukm_id = message_id_compute x (b_ciphertext b) (b_nonce b),
       ukm_kind = b_kind b, ukm_sender = b_sender b, ukm_recipient = b_recipient b,
       ukm_timestamp = b_timestamp b, ukm_ciphertext = b_ciphertext b,
       ukm_payment_proof = b_payment_proof b, ukm_signature = b_signature b,
       ukm_nonce = b_nonce b, ukm_references = b_references b \<rparr>"

section \<open>Web replies\<close>

definition OUTSTANDING_TTL_MS :: u64 where "OUTSTANDING_TTL_MS = 5 * 60 * 1000"

record outstanding_web_request =
  request_id :: message_id
  peer :: node_id
  ow_expected_reply_kind :: u16
  expires_at_ms :: u64

definition expected_reply_kind :: "u16 \<Rightarrow> u16 option" where
  "expected_reply_kind k =
     (if k = KIND_PAGE_REQUEST then Some KIND_PAGE_RESPONSE
      else if k = KIND_WEB_MANIFEST then Some KIND_WEB_MANIFEST
      else None)"

definition reply_bound_proof :: "payment_proof \<Rightarrow> payment_proof" where
  "reply_bound_proof p = payment_proof_new (payment_hash p) (preimage p) 0"

definition is_web_service_reply :: "ukm_envelope \<Rightarrow> bool" where
  "is_web_service_reply e =
     ((ukm_kind e = KIND_PAGE_RESPONSE \<or> ukm_kind e = KIND_WEB_MANIFEST)
      \<and> amount_msat (ukm_payment_proof e) = 0
      \<and> ukm_references e \<noteq> [])"

definition reply_matches_outstanding ::
  "ukm_envelope \<Rightarrow> outstanding_web_request \<Rightarrow> u64 \<Rightarrow> bool" where
  "reply_matches_outstanding e out now_ms =
     (if now_ms > expires_at_ms out then False
      else if ukm_sender e \<noteq> peer out then False
      else if ukm_kind e \<noteq> ow_expected_reply_kind out then False
      else request_id out \<in> set (ukm_references e))"

definition wf_envelope :: "ukm_envelope \<Rightarrow> bool" where
  "wf_envelope e =
     (wf_node_id (ukm_sender e) \<and> wf_recipient (ukm_recipient e)
      \<and> wf_nonce (ukm_nonce e) \<and> wf_payment_proof (ukm_payment_proof e))"

section \<open>Facts\<close>

lemma visit_bounded_Inr:
  "visit_bounded cap msg out seq = Inr xs \<Longrightarrow> length out \<le> cap \<Longrightarrow>
   length xs \<le> cap \<and> map Inr xs = map Inr out @ seq"
  by (induction cap msg out seq rule: visit_bounded.induct) (auto split: if_splits)

lemma visit_bounded_complete:
  "length out + length xs \<le> cap \<Longrightarrow> visit_bounded cap msg out (map Inr xs) = Inr (out @ xs)"
  by (induction xs arbitrary: out) auto

lemma length_nid: "wf_node_id n \<Longrightarrow> length (nid_bytes n) = 32"
  by (cases n) simp

lemma length_nonce: "wf_nonce n \<Longrightarrow> length (nonce_bytes n) = 24"
  by (cases n) simp

lemma append_same_length:
  "length a = length b \<Longrightarrow> a @ s = b @ t \<longleftrightarrow> a = b \<and> s = t"
  by simp

lemma append_same_suffix_length:
  "length s = length t \<Longrightarrow> a @ s = b @ t \<longleftrightarrow> a = b \<and> s = t"
  by simp

text \<open>The tag byte makes the variable-length recipient self-delimiting.\<close>

lemma recipient_bytes_prefix:
  assumes "wf_recipient r" "wf_recipient r'" "recipient_bytes r @ s = recipient_bytes r' @ t"
  shows "r = r' \<and> s = t"
proof (cases r; cases r')
  fix n n'
  assume rr: "r = Node n" "r' = Node n'"
  obtain b b' where "n = NodeId b" "n' = NodeId b'" by (cases n; cases n')
  with rr assms show ?thesis by auto
next
  fix n n'
  assume rr: "r = Room n" "r' = Room n'"
  obtain b b' where "n = RoomId b" "n' = RoomId b'" by (cases n; cases n')
  with rr assms show ?thesis by auto
qed (use assms in auto)

lemma signable_bytes_inject:
  assumes wf: "wf_envelope e" "wf_envelope e'" and eq: "signable_bytes e = signable_bytes e'"
  shows "ukm_kind e = ukm_kind e' \<and> ukm_sender e = ukm_sender e'
    \<and> ukm_recipient e = ukm_recipient e' \<and> ukm_timestamp e = ukm_timestamp e'
    \<and> ukm_ciphertext e = ukm_ciphertext e' \<and> ukm_nonce e = ukm_nonce e'
    \<and> ukm_payment_proof e = ukm_payment_proof e'"
proof -
  let ?tail = "\<lambda>e. to_be_bytes (ukm_timestamp e) @ ukm_ciphertext e @ nonce_bytes (ukm_nonce e)
     @ payment_hash (ukm_payment_proof e) @ preimage (ukm_payment_proof e)
     @ to_be_bytes (amount_msat (ukm_payment_proof e))"
  have head: "to_be_bytes (ukm_kind e) = to_be_bytes (ukm_kind e')"
      "nid_bytes (ukm_sender e) = nid_bytes (ukm_sender e')"
      "recipient_bytes (ukm_recipient e) @ ?tail e = recipient_bytes (ukm_recipient e') @ ?tail e'"
    using eq wf by (simp_all add: signable_bytes_def wf_envelope_def length_nid append_same_length)
  then have r: "ukm_recipient e = ukm_recipient e'" and "?tail e = ?tail e'"
    using wf recipient_bytes_prefix [OF _ _ head(3)] by (simp_all add: wf_envelope_def)
  then have t: "to_be_bytes (ukm_timestamp e) = to_be_bytes (ukm_timestamp e')"
      "ukm_ciphertext e = ukm_ciphertext e'"
      "nonce_bytes (ukm_nonce e) = nonce_bytes (ukm_nonce e')"
      "payment_hash (ukm_payment_proof e) = payment_hash (ukm_payment_proof e')"
      "preimage (ukm_payment_proof e) = preimage (ukm_payment_proof e')"
      "to_be_bytes (amount_msat (ukm_payment_proof e)) = to_be_bytes (amount_msat (ukm_payment_proof e'))"
    using wf by (simp_all add: wf_envelope_def wf_payment_proof_def length_nonce
        append_same_length append_same_suffix_length)
  show ?thesis
    using head r t by (simp add: to_be_bytes_inject node_id.expand nonce.expand)
qed

lemma validate_Inr:
  "validate x e = Inr () \<longleftrightarrow>
     ukm_id e = message_id_compute x (ukm_ciphertext e) (ukm_nonce e)
     \<and> ukm_ciphertext e \<noteq> []
     \<and> payment_hash (ukm_payment_proof e) = sha256 x (preimage (ukm_payment_proof e))
     \<and> length (ukm_references e) \<le> MAX_MESSAGE_REFERENCES"
  by (auto simp: validate_def verify_preimage_def)

lemma validate_build:
  "b_ciphertext b \<noteq> [] \<Longrightarrow> verify_preimage x (b_payment_proof b) = Inr ()
   \<Longrightarrow> length (b_references b) \<le> MAX_MESSAGE_REFERENCES \<Longrightarrow> validate x (build x b) = Inr ()"
  by (simp add: validate_Inr build_def verify_preimage_iff)

lemma reply_bound_proof_sel [simp]:
  "payment_hash (reply_bound_proof p) = payment_hash p"
  "preimage (reply_bound_proof p) = preimage p"
  "amount_msat (reply_bound_proof p) = 0"
  by (simp_all add: reply_bound_proof_def payment_proof_new_def)

lemma verify_reply_bound_proof:
  "verify_preimage x (reply_bound_proof p) = verify_preimage x p"
  by (simp add: verify_preimage_def)

end
