(* ===== verification/Samples.thy ===== *)
theory Samples
  imports Envelope
begin

text \<open>
  Concrete instances of the external crates and a signed, paid envelope, at which the
  theorems of the library are applied. The sample codecs are injective and invert each
  other, as the real ones do; the sample hashes pad or cut to 32 bytes; the sample
  signature scheme accepts exactly the padded message.
\<close>

definition pad_to :: "nat \<Rightarrow> bytes \<Rightarrow> bytes" where
  "pad_to n b = take n (b @ replicate n 0)"

definition byte_char :: "u8 \<Rightarrow> char" where "byte_char w = char_of (unat w)"
definition char_byte :: "char \<Rightarrow> u8" where "char_byte c = of_nat (of_char c)"

definition sample_ops :: ext_ops where
  "sample_ops =
     \<lparr> blake3 = pad_to 32, sha256 = pad_to 32,
       hex_encode = map byte_char, hex_decode = (\<lambda>s. Inr (map char_byte s)),
       uuid_parse = (\<lambda>s. Inr (pad_to 16 (map char_byte s))), uuid_to_string = map byte_char,
       json_strings = (\<lambda>ss. Inr (concat ss)),
       vk_from_bytes = Inr,
       verify_strict = (\<lambda>key msg sg. if sg = pad_to 64 msg then Inr () else Inl ''signature error''),
       ed25519_sign = (\<lambda>key msg. pad_to 64 msg) \<rparr>"

definition sample_node :: "u8 \<Rightarrow> node_id" where "sample_node k = NodeId (replicate 32 k)"

definition sample_proof :: "u64 \<Rightarrow> payment_proof" where
  "sample_proof amount = payment_proof_new (replicate 32 7) (replicate 32 7) amount"

text \<open>A message of the given kind and amount from node 1 to node 2, sent at time 1000000.\<close>

definition sample_unsigned :: "u16 \<Rightarrow> u64 \<Rightarrow> ukm_envelope" where
  "sample_unsigned kind amount =
     build sample_ops (builder_timestamp 1000000
       (builder_new 1000000 (Nonce (replicate 24 5)) kind (sample_node 1) (Node (sample_node 2))
          [1, 2, 3] (sample_proof amount)))"

definition sample_envelope :: "u16 \<Rightarrow> u64 \<Rightarrow> ukm_envelope" where
  "sample_envelope kind amount =
     (sample_unsigned kind amount)
       \<lparr> ukm_signature := Signature (ed25519_sign sample_ops [] (signable_bytes (sample_unsigned kind amount))) \<rparr>"

lemma char_byte_byte_char [simp]: "char_byte (byte_char w) = w"
  using unat_lt_pow [of w] by (simp add: char_byte_def byte_char_def)

lemma map_char_byte [simp]: "map char_byte (map byte_char b) = b"
  by (simp add: comp_def)

lemma inj_sample_hex: "inj (hex_encode sample_ops)"
  by (rule inj_on_inverseI [where g = "map char_byte"]) (simp add: sample_ops_def comp_def)

lemma sample_json [simp]: "json_strings sample_ops ss = Inr (concat ss)"
  by (simp add: sample_ops_def)

lemma signable_bytes_signature [simp]: "signable_bytes (e \<lparr> ukm_signature := sg \<rparr>) = signable_bytes e"
  by (simp add: signable_bytes_def)

lemma sample_sel [simp]:
  "ukm_sender (sample_envelope k a) = sample_node 1"
  "ukm_recipient (sample_envelope k a) = Node (sample_node 2)"
  "ukm_kind (sample_envelope k a) = k" "ukm_timestamp (sample_envelope k a) = 1000000"
  "ukm_nonce (sample_envelope k a) = Nonce (replicate 24 5)"
  "ukm_payment_proof (sample_envelope k a) = sample_proof a"
  "ukm_references (sample_envelope k a) = []"
  by (simp_all add: sample_envelope_def sample_unsigned_def build_def builder_timestamp_def
      builder_new_def)

lemma sample_proof_sel [simp]:
  "payment_hash (sample_proof a) = replicate 32 7" "preimage (sample_proof a) = replicate 32 7"
  "amount_msat (sample_proof a) = a"
  by (simp_all add: sample_proof_def payment_proof_new_def)

lemma sample_validate: "validate sample_ops (sample_envelope k a) = Inr ()"
  by (simp add: validate_Inr sample_envelope_def sample_unsigned_def build_def builder_timestamp_def
      builder_new_def sample_ops_def pad_to_def MAX_MESSAGE_REFERENCES_def message_id_compute_def)

lemma sample_signed:
  "verify_strict sample_ops key (signable_bytes (sample_envelope k a))
     (sig_bytes (ukm_signature (sample_envelope k a))) = Inr ()"
  by (simp add: sample_envelope_def) (simp add: sample_ops_def)

end
