(* ===== verification/Sqlite_Store.thy ===== *)
theory Sqlite_Store
  imports Samples
begin

text \<open>
  The money-path tables of \<open>konsensus-storage/src/sqlite.rs\<close>: nonces, payment
  receipts, stored messages, delivery price quotes, outstanding web requests and
  held call signals, with the statements that read and write them. A table is a map
  from its primary key; a row holds the column values, hex and JSON columns as the
  text the statements bind. Each transaction is one state transformer: a rollback
  returns the state it started from. Failures of the database engine itself are not
  modelled, constraint violations are.
\<close>

section \<open>Rows and tables\<close>

datatype storage_error =
    Database string | NotFound string | SerializationError string | Conversion string

record nonce_row =
  nr_sender :: string
  nr_received_at :: int

text \<open>
  The nullable binding columns of a receipt are written together: \<open>None\<close> is the
  freshly inserted row.
\<close>

record receipt_binding =
  bd_kind :: int
  bd_rtype :: string
  bd_rid :: string
  bd_preimage :: string
  bd_amount :: int
  bd_nonce :: string
  bd_refs :: string

record receipt_row =
  rc_message_id :: string
  rc_sender :: string
  rc_accepted :: int
  rc_binding :: "receipt_binding option"

record message_row =
  ms_sender :: string
  ms_binding :: receipt_binding
  ms_timestamp :: int
  ms_ciphertext :: bytes
  ms_payment_hash :: string
  ms_signature :: string

record quote_row =
  qr_sender :: string
  qr_scope :: string
  qr_amount :: int
  qr_issued :: int
  qr_expires :: int
  qr_excluded :: string

record web_row =
  wr_request_id :: string
  wr_peer :: string
  wr_kind :: int
  wr_expires :: int

record hold_row =
  hr_sender :: string
  hr_held_at :: int

record db =
  db_nonces :: "string \<rightharpoonup> nonce_row"
  db_receipts :: "string \<rightharpoonup> receipt_row"
  db_messages :: "string \<rightharpoonup> message_row"
  db_quotes :: "quote_row list"
  db_web :: "string \<rightharpoonup> web_row"
  db_hold :: "string \<rightharpoonup> hold_row"
  db_pending :: "string \<Rightarrow> bool"

datatype paid_acceptance = Accepted | AlreadyAccepted | NonceReused | PaymentReused | Withdrawn
datatype paid_replay = ReplayAccepted | ReplayNonceReused | ReplayPaymentReused

definition db_empty :: db where
  "db_empty =
     \<lparr> db_nonces = Map.empty, db_receipts = Map.empty, db_messages = Map.empty, db_quotes = [],
       db_web = Map.empty, db_hold = Map.empty, db_pending = (\<lambda>_. False) \<rparr>"

section \<open>Column values\<close>

definition i64_try_from_u64 :: "u64 \<Rightarrow> int option" where
  "i64_try_from_u64 w = (if unat w < 2 ^ 63 then Some (int (unat w)) else None)"

fun recipient_to_parts :: "ext_ops \<Rightarrow> recipient \<Rightarrow> string \<times> string" where
  "recipient_to_parts x (Node n) = (''node'', node_id_to_hex x n)"
| "recipient_to_parts x (Room r) = (''room'', uuid_to_string x (room_bytes r))"
| "recipient_to_parts x Broadcast = (''broadcast'', [])"

definition hash_hex :: "ext_ops \<Rightarrow> ukm_envelope \<Rightarrow> string" where
  "hash_hex x e = hex_encode x (payment_hash (ukm_payment_proof e))"

definition nonce_hex :: "ext_ops \<Rightarrow> ukm_envelope \<Rightarrow> string" where
  "nonce_hex x e = hex_encode x (nonce_bytes (ukm_nonce e))"

definition sender_hex :: "ext_ops \<Rightarrow> ukm_envelope \<Rightarrow> string" where
  "sender_hex x e = node_id_to_hex x (ukm_sender e)"

definition id_hex :: "ext_ops \<Rightarrow> ukm_envelope \<Rightarrow> string" where
  "id_hex x e = message_id_to_hex x (ukm_id e)"

text \<open>
  The bound columns of an envelope, everything but the timestamp and signature
  wrapper: the conversions each statement makes before it runs.
\<close>

definition env_binding :: "ext_ops \<Rightarrow> ukm_envelope \<Rightarrow> storage_error + receipt_binding" where
  "env_binding x e =
     (case i64_try_from_u64 (amount_msat (ukm_payment_proof e)) of
        None \<Rightarrow> Inl (Conversion (''amount_msat overflows i64: ''
                                 @ show_word (amount_msat (ukm_payment_proof e))))
      | Some amt \<Rightarrow>
          (case json_strings x (map (message_id_to_hex x) (ukm_references e)) of
             Inl err \<Rightarrow> Inl (SerializationError err)
           | Inr refs \<Rightarrow>
               Inr \<lparr> bd_kind = int (unat (ukm_kind e)),
                     bd_rtype = fst (recipient_to_parts x (ukm_recipient e)),
                     bd_rid = snd (recipient_to_parts x (ukm_recipient e)),
                     bd_preimage = hex_encode x (preimage (ukm_payment_proof e)),
                     bd_amount = amt, bd_nonce = nonce_hex x e, bd_refs = refs \<rparr>))"

definition timestamp_i64 :: "ukm_envelope \<Rightarrow> storage_error + int" where
  "timestamp_i64 e =
     (case i64_try_from_u64 (ukm_timestamp e) of
        None \<Rightarrow> Inl (Conversion (''timestamp overflows i64: '' @ show_word (ukm_timestamp e)))
      | Some ts \<Rightarrow> Inr ts)"

definition new_receipt :: "ext_ops \<Rightarrow> ukm_envelope \<Rightarrow> receipt_row" where
  "new_receipt x e =
     \<lparr> rc_message_id = id_hex x e, rc_sender = sender_hex x e, rc_accepted = 0, rc_binding = None \<rparr>"

definition new_message ::
  "ext_ops \<Rightarrow> ukm_envelope \<Rightarrow> receipt_binding \<Rightarrow> int \<Rightarrow> message_row" where
  "new_message x e b ts =
     \<lparr> ms_sender = sender_hex x e, ms_binding = b, ms_timestamp = ts,
       ms_ciphertext = ukm_ciphertext e, ms_payment_hash = hash_hex x e,
       ms_signature = hex_encode x (sig_bytes (ukm_signature e)) \<rparr>"

section \<open>Receipt queries\<close>

text \<open>The receipt of this envelope carries exactly its binding, in the given state.\<close>

definition receipt_bound :: "ext_ops \<Rightarrow> ukm_envelope \<Rightarrow> receipt_binding \<Rightarrow> int \<Rightarrow> db \<Rightarrow> bool" where
  "receipt_bound x e b acc d =
     (case db_receipts d (hash_hex x e) of
        None \<Rightarrow> False
      | Some r \<Rightarrow> rc_message_id r = id_hex x e \<and> rc_sender r = sender_hex x e
                 \<and> rc_accepted r = acc \<and> rc_binding r = Some b)"

text \<open>A legacy receipt whose message row matches the envelope in every bound column.\<close>

definition message_matches :: "ext_ops \<Rightarrow> ukm_envelope \<Rightarrow> receipt_binding \<Rightarrow> db \<Rightarrow> bool" where
  "message_matches x e b d =
     (case db_receipts d (hash_hex x e) of
        None \<Rightarrow> False
      | Some r \<Rightarrow> rc_message_id r = id_hex x e \<and> rc_sender r = sender_hex x e
                 \<and> (case db_messages d (id_hex x e) of
                      None \<Rightarrow> False
                    | Some m \<Rightarrow> ms_sender m = rc_sender r \<and> ms_binding m = b
                               \<and> ms_payment_hash m = hash_hex x e))"

definition bind_receipt :: "string \<Rightarrow> receipt_binding \<Rightarrow> db \<Rightarrow> db" where
  "bind_receipt ph b d =
     (case db_receipts d ph of
        None \<Rightarrow> d
      | Some r \<Rightarrow> d \<lparr> db_receipts := (db_receipts d)(ph \<mapsto>
                        r \<lparr> rc_accepted := 1, rc_binding := Some b \<rparr>) \<rparr>)"

definition is_paid_envelope_rejected :: "ext_ops \<Rightarrow> ukm_envelope \<Rightarrow> db \<Rightarrow> storage_error + bool" where
  "is_paid_envelope_rejected x e d =
     (case env_binding x e of
        Inl err \<Rightarrow> Inl err
      | Inr b \<Rightarrow> Inr (receipt_bound x e b (- 1) d))"

definition is_paid_envelope_accepted ::
  "ext_ops \<Rightarrow> ukm_envelope \<Rightarrow> db \<Rightarrow> (storage_error + bool) \<times> db" where
  "is_paid_envelope_accepted x e d =
     (case env_binding x e of
        Inl err \<Rightarrow> (Inl err, d)
      | Inr b \<Rightarrow>
          let held = (db_hold d (id_hex x e) \<noteq> None)
          in if \<not> held \<and> receipt_bound x e b 1 d then (Inr True, d)
             else if \<not> (\<not> held \<and> message_matches x e b d) then (Inr False, d)
             else (Inr True, bind_receipt (hash_hex x e) b d))"

section \<open>Acceptance\<close>

text \<open>
  The acceptance transaction in its two stages: what an existing receipt for the
  payment hash decides, and the insertion of nonce and message with the final binding
  of the receipt. \<open>None\<close> in the first stage lets the transaction go on to repair the
  missing message row of its own receipt.
\<close>

definition existing_receipt ::
  "ext_ops \<Rightarrow> ukm_envelope \<Rightarrow> receipt_binding \<Rightarrow> db \<Rightarrow> receipt_row \<Rightarrow> (paid_acceptance \<times> db) option" where
  "existing_receipt x e b d r =
     (if rc_message_id r \<noteq> id_hex x e \<or> rc_sender r \<noteq> sender_hex x e then Some (PaymentReused, d)
      else if rc_accepted r = - 1 then Some (Withdrawn, d)
      else if receipt_bound x e b 1 d then Some (AlreadyAccepted, d)
      else if message_matches x e b d then Some (AlreadyAccepted, bind_receipt (hash_hex x e) b d)
      else if db_messages d (id_hex x e) \<noteq> None \<or> rc_accepted r \<noteq> 0 then Some (PaymentReused, d)
      else None)"

definition insert_accepted ::
  "ext_ops \<Rightarrow> int \<Rightarrow> ukm_envelope \<Rightarrow> receipt_binding \<Rightarrow> int \<Rightarrow> bool \<Rightarrow> db
   \<Rightarrow> (storage_error + paid_acceptance) \<times> db" where
  "insert_accepted x now e b ts healing d =
     (let nonce_owner = db_nonces d (nonce_hex x e);
          d1 = (if healing then d
                else d \<lparr> db_receipts := (db_receipts d)(hash_hex x e \<mapsto> new_receipt x e) \<rparr>);
          d2 = (if nonce_owner \<noteq> None then d1
                else d1 \<lparr> db_nonces := (db_nonces d1)(nonce_hex x e \<mapsto>
                            \<lparr> nr_sender = sender_hex x e, nr_received_at = now \<rparr>) \<rparr>);
          d3 = d2 \<lparr> db_messages := (db_messages d2)(id_hex x e \<mapsto> new_message x e b ts) \<rparr>
      in if (case nonce_owner of
               None \<Rightarrow> False
             | Some n \<Rightarrow> \<not> healing \<or> nr_sender n \<noteq> sender_hex x e)
         then (Inr NonceReused, d)
         else if db_messages d (id_hex x e) \<noteq> None
         then (Inl (Database ''UNIQUE constraint failed: messages.id''), d)
         else (Inr Accepted, bind_receipt (hash_hex x e) b d3))"

definition accept_paid_envelope ::
  "ext_ops \<Rightarrow> int \<Rightarrow> ukm_envelope \<Rightarrow> db \<Rightarrow> (storage_error + paid_acceptance) \<times> db" where
  "accept_paid_envelope x now e d =
     (case timestamp_i64 e of
        Inl err \<Rightarrow> (Inl err, d)
      | Inr ts \<Rightarrow>
     (case env_binding x e of
        Inl err \<Rightarrow> (Inl err, d)
      | Inr b \<Rightarrow>
     (case db_receipts d (hash_hex x e) of
        None \<Rightarrow> insert_accepted x now e b ts False d
      | Some r \<Rightarrow>
          (case existing_receipt x e b d r of
             Some (outcome, d') \<Rightarrow> (Inr outcome, d')
           | None \<Rightarrow> insert_accepted x now e b ts True d))))"

definition store_message ::
  "ext_ops \<Rightarrow> ukm_envelope \<Rightarrow> db \<Rightarrow> (storage_error + unit) \<times> db" where
  "store_message x e d =
     (case timestamp_i64 e of
        Inl err \<Rightarrow> (Inl err, d)
      | Inr ts \<Rightarrow>
     (case env_binding x e of
        Inl err \<Rightarrow> (Inl err, d)
      | Inr b \<Rightarrow>
          if db_messages d (id_hex x e) \<noteq> None
          then (Inl (Database ''UNIQUE constraint failed: messages.id''), d)
          else (Inr (), d \<lparr> db_messages := (db_messages d)(id_hex x e \<mapsto> new_message x e b ts) \<rparr>)))"

definition update_message_wrapper ::
  "ext_ops \<Rightarrow> ukm_envelope \<Rightarrow> db \<Rightarrow> (storage_error + unit) \<times> db" where
  "update_message_wrapper x e d =
     (case i64_try_from_u64 (ukm_timestamp e) of
        None \<Rightarrow> (Inl (Conversion ''timestamp overflow''), d)
      | Some ts \<Rightarrow>
          (case db_messages d (id_hex x e) of
             None \<Rightarrow> (Inl (Conversion ''missing paid envelope''), d)
           | Some m \<Rightarrow>
               if ms_sender m = sender_hex x e \<and> ms_payment_hash m = hash_hex x e
               then (Inr (), d \<lparr> db_messages := (db_messages d)(id_hex x e \<mapsto>
                       m \<lparr> ms_timestamp := ts,
                           ms_signature := hex_encode x (sig_bytes (ukm_signature e)) \<rparr>) \<rparr>)
               else (Inl (Conversion ''missing paid envelope''), d)))"

section \<open>Replay keys\<close>

definition store_paid_nonce ::
  "ext_ops \<Rightarrow> int \<Rightarrow> nonce \<Rightarrow> bytes \<Rightarrow> node_id \<Rightarrow> message_id \<Rightarrow> db
   \<Rightarrow> (storage_error + paid_replay) \<times> db" where
  "store_paid_nonce x now n h sender mid d =
     (let nh = hex_encode x (nonce_bytes n); ph = hex_encode x h
      in if db_nonces d nh \<noteq> None then (Inr ReplayNonceReused, d)
         else if db_receipts d ph \<noteq> None then (Inr ReplayPaymentReused, d)
         else (Inr ReplayAccepted,
               d \<lparr> db_nonces := (db_nonces d)(nh \<mapsto>
                      \<lparr> nr_sender = node_id_to_hex x sender, nr_received_at = now \<rparr>),
                   db_receipts := (db_receipts d)(ph \<mapsto>
                      \<lparr> rc_message_id = message_id_to_hex x mid,
                        rc_sender = node_id_to_hex x sender, rc_accepted = 0,
                        rc_binding = None \<rparr>) \<rparr>))"

definition store_nonce ::
  "ext_ops \<Rightarrow> int \<Rightarrow> nonce \<Rightarrow> node_id \<Rightarrow> db \<Rightarrow> (storage_error + bool) \<times> db" where
  "store_nonce x now n sender d =
     (let nh = hex_encode x (nonce_bytes n)
      in if db_nonces d nh \<noteq> None then (Inr False, d)
         else (Inr True, d \<lparr> db_nonces := (db_nonces d)(nh \<mapsto>
                 \<lparr> nr_sender = node_id_to_hex x sender, nr_received_at = now \<rparr>) \<rparr>))"

definition store_payment_receipt ::
  "ext_ops \<Rightarrow> bytes \<Rightarrow> node_id \<Rightarrow> message_id \<Rightarrow> db \<Rightarrow> (storage_error + bool) \<times> db" where
  "store_payment_receipt x h sender mid d =
     (let ph = hex_encode x h
      in if db_receipts d ph \<noteq> None then (Inr False, d)
         else (Inr True, d \<lparr> db_receipts := (db_receipts d)(ph \<mapsto>
                 \<lparr> rc_message_id = message_id_to_hex x mid, rc_sender = node_id_to_hex x sender,
                   rc_accepted = 0, rc_binding = None \<rparr>) \<rparr>))"

definition has_nonce :: "ext_ops \<Rightarrow> nonce \<Rightarrow> db \<Rightarrow> bool" where
  "has_nonce x n d = (db_nonces d (hex_encode x (nonce_bytes n)) \<noteq> None)"

text \<open>
  The retention sweeps. The counts of affected rows they return are not modelled;
  times are milliseconds.
\<close>

definition cleanup_expired_nonces :: "int \<Rightarrow> u64 \<Rightarrow> db \<Rightarrow> db" where
  "cleanup_expired_nonces now max_age_secs d =
     d \<lparr> db_nonces := (\<lambda>k. case db_nonces d k of
           None \<Rightarrow> None
         | Some n \<Rightarrow> if nr_received_at n < now - int (unat max_age_secs) * 1000 then None
                    else Some n) \<rparr>"

definition delete_message :: "ext_ops \<Rightarrow> message_id \<Rightarrow> db \<Rightarrow> bool \<times> db" where
  "delete_message x mid d =
     (let id = message_id_to_hex x mid
      in (db_messages d id \<noteq> None,
          d \<lparr> db_pending := (db_pending d)(id := False),
              db_messages := (db_messages d)(id := None) \<rparr>))"

definition delete_messages_older_than :: "u64 \<Rightarrow> db \<Rightarrow> db" where
  "delete_messages_older_than before_ms d =
     d \<lparr> db_messages := (\<lambda>k. case db_messages d k of
           None \<Rightarrow> None
         | Some m \<Rightarrow> if ms_timestamp m < min (int (unat before_ms)) (2 ^ 63 - 1) \<and> \<not> db_pending d k
                    then None else Some m) \<rparr>"

section \<open>Withdrawal and holds\<close>

definition reject_accepted_envelope :: "ext_ops \<Rightarrow> ukm_envelope \<Rightarrow> db \<Rightarrow> db" where
  "reject_accepted_envelope x e d =
     (let id = id_hex x e; ph = hash_hex x e
      in d \<lparr> db_messages := (case db_messages d id of
               Some m \<Rightarrow> if ms_sender m = sender_hex x e then (db_messages d)(id := None)
                        else db_messages d
             | None \<Rightarrow> db_messages d),
             db_receipts := (case db_receipts d ph of
               Some r \<Rightarrow> if rc_message_id r = id
                        then (db_receipts d)(ph \<mapsto> r \<lparr> rc_accepted := - 1 \<rparr>) else db_receipts d
             | None \<Rightarrow> db_receipts d),
             db_hold := (db_hold d)(id := None) \<rparr>)"

definition call_admission_hold ::
  "ext_ops \<Rightarrow> ukm_envelope \<Rightarrow> u64 \<Rightarrow> db \<Rightarrow> (storage_error + bool) \<times> db" where
  "call_admission_hold x e now_ms d =
     (case i64_try_from_u64 now_ms of
        None \<Rightarrow> (Inl (Conversion ''call time overflow''), d)
      | Some now \<Rightarrow>
          let id = id_hex x e
          in if db_messages d id \<noteq> None \<or> db_hold d id \<noteq> None then (Inr False, d)
             else (Inr True, d \<lparr> db_hold := (db_hold d)(id \<mapsto>
                     \<lparr> hr_sender = sender_hex x e, hr_held_at = now \<rparr>) \<rparr>))"

definition call_admission_release :: "ext_ops \<Rightarrow> message_id \<Rightarrow> db \<Rightarrow> db" where
  "call_admission_release x mid d =
     d \<lparr> db_hold := (db_hold d)(message_id_to_hex x mid := None) \<rparr>"

definition call_admission_held :: "ext_ops \<Rightarrow> message_id \<Rightarrow> db \<Rightarrow> bool" where
  "call_admission_held x mid d = (db_hold d (message_id_to_hex x mid) \<noteq> None)"

definition hold_expired :: "int \<Rightarrow> db \<Rightarrow> string \<Rightarrow> string \<Rightarrow> bool" where
  "hold_expired before d mid sender =
     (case db_hold d mid of
        None \<Rightarrow> False
      | Some h \<Rightarrow> hr_sender h = sender \<and> hr_held_at h < before)"

definition call_admission_withdraw :: "u64 \<Rightarrow> db \<Rightarrow> db" where
  "call_admission_withdraw held_before_ms d =
     (let before = (case i64_try_from_u64 held_before_ms of Some b \<Rightarrow> b | None \<Rightarrow> 2 ^ 63 - 1)
      in d \<lparr> db_receipts := (\<lambda>k. case db_receipts d k of
               None \<Rightarrow> None
             | Some r \<Rightarrow> if hold_expired before d (rc_message_id r) (rc_sender r)
                        then Some (r \<lparr> rc_accepted := - 1 \<rparr>) else Some r),
             db_messages := (\<lambda>k. case db_messages d k of
               None \<Rightarrow> None
             | Some m \<Rightarrow> if hold_expired before d k (ms_sender m) then None else Some m),
             db_hold := (\<lambda>k. case db_hold d k of
               None \<Rightarrow> None
             | Some h \<Rightarrow> if hr_held_at h < before then None else Some h) \<rparr>)"

section \<open>Delivery price quotes\<close>

definition DELIVERY_PRICE_WINDOW_SECS :: u64 where "DELIVERY_PRICE_WINDOW_SECS = 3600"

fun join_comma :: "string list \<Rightarrow> string" where
  "join_comma [] = []"
| "join_comma [s] = s"
| "join_comma (s # ss) = s @ '','' @ join_comma ss"

fun is_infix :: "string \<Rightarrow> string \<Rightarrow> bool" where
  "is_infix p [] = (p = [])"
| "is_infix p (c # cs) = (strip_prefix p (c # cs) \<noteq> None \<or> is_infix p cs)"

definition quote_key :: "quote_row \<Rightarrow> string \<times> string \<times> int \<times> int \<times> string" where
  "quote_key q = (qr_sender q, qr_scope q, qr_amount q, qr_issued q, qr_excluded q)"

fun insert_quotes ::
  "ext_ops \<Rightarrow> node_id \<Rightarrow> string \<Rightarrow> int \<Rightarrow> int \<Rightarrow> (string \<times> u64) list \<Rightarrow> quote_row list
   \<Rightarrow> storage_error + quote_row list" where
  "insert_quotes x sender excl issued expires [] qs = Inr qs"
| "insert_quotes x sender excl issued expires ((scope, amount) # prices) qs =
     (case i64_try_from_u64 amount of
        None \<Rightarrow> Inl (Conversion ''quote amount overflow'')
      | Some amt \<Rightarrow>
          if \<not> amt > 0 then Inl (Database ''CHECK constraint failed: amount_msat > 0'')
          else
            let q = \<lparr> qr_sender = node_id_to_hex x sender, qr_scope = scope, qr_amount = amt,
                      qr_issued = issued, qr_expires = expires, qr_excluded = excl \<rparr>
            in insert_quotes x sender excl issued expires prices
                 (if quote_key q \<in> quote_key ` set qs then qs else qs @ [q]))"

definition record_delivery_prices ::
  "ext_ops \<Rightarrow> node_id \<Rightarrow> (string \<times> u64) list \<Rightarrow> u16 list \<Rightarrow> u64 \<Rightarrow> u64 \<Rightarrow> db
   \<Rightarrow> (storage_error + unit) \<times> db" where
  "record_delivery_prices x sender prices excluded_kinds issued_at expires_at d =
     (if expires_at \<le> issued_at \<or> expires_at - issued_at > DELIVERY_PRICE_WINDOW_SECS
      then (Inl (Conversion ''invalid delivery price window''), d)
      else case i64_try_from_u64 issued_at of
        None \<Rightarrow> (Inl (Conversion ''quote time overflow''), d)
      | Some issued \<Rightarrow>
     (case i64_try_from_u64 expires_at of
        None \<Rightarrow> (Inl (Conversion ''quote expiry overflow''), d)
      | Some expires \<Rightarrow>
          let excl = '','' @ join_comma (map show_word excluded_kinds) @ '','';
              kept = filter (\<lambda>q. \<not> qr_expires q
                       < i64_sat_sub issued (int (unat DELIVERY_PRICE_WINDOW_SECS))) (db_quotes d)
          in case insert_quotes x sender excl issued expires prices kept of
               Inl err \<Rightarrow> (Inl err, d)
             | Inr qs \<Rightarrow> (Inr (), d \<lparr> db_quotes := qs \<rparr>)))"

definition quote_applies :: "ext_ops \<Rightarrow> ukm_envelope \<Rightarrow> int \<Rightarrow> quote_row \<Rightarrow> bool" where
  "quote_applies x e paid q =
     (qr_sender q = sender_hex x e
      \<and> (qr_scope q = ''kind:'' @ show_word (ukm_kind e)
         \<or> qr_scope q = ''category:'' @ price_table_key (from_kind (ukm_kind e))
           \<and> \<not> is_infix ('','' @ show_word (ukm_kind e) @ '','') (qr_excluded q))
      \<and> qr_issued q \<le> paid \<and> qr_expires q \<ge> paid)"

definition min_list :: "int list \<Rightarrow> int option" where
  "min_list xs = (case xs of [] \<Rightarrow> None | y # ys \<Rightarrow> Some (fold min ys y))"

definition delivery_price_floor ::
  "ext_ops \<Rightarrow> ukm_envelope \<Rightarrow> u64 \<Rightarrow> u64 \<Rightarrow> db \<Rightarrow> storage_error + u64 option" where
  "delivery_price_floor x e paid_at now d =
     (if paid_at > now \<or> sat_sub now paid_at > DELIVERY_PRICE_WINDOW_SECS then Inr None
      else case i64_try_from_u64 paid_at of
        None \<Rightarrow> Inl (Conversion ''payment time overflow'')
      | Some paid \<Rightarrow>
          (case min_list (map qr_amount (filter (quote_applies x e paid) (db_quotes d))) of
             None \<Rightarrow> Inr None
           | Some n \<Rightarrow> if n < 0 then Inl (Conversion ''negative quoted price'')
                      else Inr (Some (of_int n))))"

section \<open>Outstanding web requests\<close>

definition record_outgoing_web_request ::
  "ext_ops \<Rightarrow> bytes \<Rightarrow> outstanding_web_request \<Rightarrow> db \<Rightarrow> (storage_error + unit) \<times> db" where
  "record_outgoing_web_request x h request d =
     (case i64_try_from_u64 (expires_at_ms request) of
        None \<Rightarrow> (Inl (Conversion ''web request expiry overflow''), d)
      | Some expires \<Rightarrow>
          (Inr (), d \<lparr> db_web := (db_web d)(hex_encode x h \<mapsto>
             \<lparr> wr_request_id = message_id_to_hex x (request_id request),
               wr_peer = node_id_to_hex x (peer request),
               wr_kind = int (unat (ow_expected_reply_kind request)), wr_expires = expires \<rparr>) \<rparr>))"

definition bad_row :: "string \<Rightarrow> storage_error" where
  "bad_row what = Conversion (''outstanding web request: bad '' @ what)"

definition outstanding_from_row :: "ext_ops \<Rightarrow> web_row \<Rightarrow> storage_error + outstanding_web_request" where
  "outstanding_from_row x r =
     (case message_id_from_hex x (wr_request_id r) of
        Inl _ \<Rightarrow> Inl (bad_row ''request id'')
      | Inr rid \<Rightarrow>
     (case node_id_from_hex x (wr_peer r) of
        Inl _ \<Rightarrow> Inl (bad_row ''peer'')
      | Inr p \<Rightarrow>
          if \<not> (0 \<le> wr_kind r \<and> wr_kind r < 2 ^ 16) then Inl (bad_row ''reply kind'')
          else if wr_expires r < 0 then Inl (bad_row ''expiry'')
          else Inr \<lparr> request_id = rid, peer = p,
                     ow_expected_reply_kind = of_int (wr_kind r),
                     expires_at_ms = of_int (wr_expires r) \<rparr>))"

definition take_outstanding_web_request ::
  "ext_ops \<Rightarrow> bytes \<Rightarrow> db \<Rightarrow> (storage_error + outstanding_web_request option) \<times> db" where
  "take_outstanding_web_request x h d =
     (let ph = hex_encode x h
      in case db_web d ph of
           None \<Rightarrow> (Inr None, d)
         | Some row \<Rightarrow>
             (case outstanding_from_row x row of
                Inl err \<Rightarrow> (Inl err, d \<lparr> db_web := (db_web d)(ph := None) \<rparr>)
              | Inr r \<Rightarrow> (Inr (Some r), d \<lparr> db_web := (db_web d)(ph := None) \<rparr>)))"

text \<open>
  The row a paid web request commits with its envelope; \<open>now_ms\<close> is the clock.
\<close>

definition outstanding_web_request_row ::
  "ext_ops \<Rightarrow> u64 \<Rightarrow> ukm_envelope \<Rightarrow> storage_error + (string \<times> web_row) option" where
  "outstanding_web_request_row x now_ms e =
     (case expected_reply_kind (ukm_kind e) of
        None \<Rightarrow> Inr None
      | Some expected \<Rightarrow>
          (case ukm_recipient e of
             Node p \<Rightarrow>
               (case i64_try_from_u64 (sat_add now_ms OUTSTANDING_TTL_MS) of
                  None \<Rightarrow> Inl (Conversion ''web request expiry overflow'')
                | Some expires \<Rightarrow>
                    Inr (Some (hash_hex x e,
                      \<lparr> wr_request_id = id_hex x e, wr_peer = node_id_to_hex x p,
                        wr_kind = int (unat expected), wr_expires = expires \<rparr>)))
           | _ \<Rightarrow> Inl (Conversion ''web request recipient must be a node'')))"

section \<open>Runs\<close>

text \<open>
  Sequences of storage operations, each with the time at which it runs.
\<close>

datatype store_op =
    OpAccept ukm_envelope | OpReject ukm_envelope | OpIsAccepted ukm_envelope
  | OpStorePaid nonce bytes node_id message_id | OpStoreNonce nonce node_id
  | OpStoreReceipt bytes node_id message_id | OpStoreMessage ukm_envelope
  | OpUpdateWrapper ukm_envelope | OpCleanupNonces u64 | OpDeleteMessage message_id
  | OpDeleteOlder u64 | OpHold ukm_envelope u64 | OpRelease message_id | OpWithdraw u64
  | OpRecordPrices node_id "(string \<times> u64) list" "u16 list" u64 u64
  | OpRecordWeb bytes outstanding_web_request | OpTakeWeb bytes

fun store_apply :: "ext_ops \<Rightarrow> int \<Rightarrow> store_op \<Rightarrow> db \<Rightarrow> db" where
  "store_apply x now (OpAccept e) d = snd (accept_paid_envelope x now e d)"
| "store_apply x now (OpReject e) d = reject_accepted_envelope x e d"
| "store_apply x now (OpIsAccepted e) d = snd (is_paid_envelope_accepted x e d)"
| "store_apply x now (OpStorePaid n h s m) d = snd (store_paid_nonce x now n h s m d)"
| "store_apply x now (OpStoreNonce n s) d = snd (store_nonce x now n s d)"
| "store_apply x now (OpStoreReceipt h s m) d = snd (store_payment_receipt x h s m d)"
| "store_apply x now (OpStoreMessage e) d = snd (store_message x e d)"
| "store_apply x now (OpUpdateWrapper e) d = snd (update_message_wrapper x e d)"
| "store_apply x now (OpCleanupNonces a) d = cleanup_expired_nonces now a d"
| "store_apply x now (OpDeleteMessage m) d = snd (delete_message x m d)"
| "store_apply x now (OpDeleteOlder b) d = delete_messages_older_than b d"
| "store_apply x now (OpHold e t) d = snd (call_admission_hold x e t d)"
| "store_apply x now (OpRelease m) d = call_admission_release x m d"
| "store_apply x now (OpWithdraw b) d = call_admission_withdraw b d"
| "store_apply x now (OpRecordPrices s ps ks i t) d = snd (record_delivery_prices x s ps ks i t d)"
| "store_apply x now (OpRecordWeb h r) d = snd (record_outgoing_web_request x h r d)"
| "store_apply x now (OpTakeWeb h) d = snd (take_outstanding_web_request x h d)"

text \<open>The payment hash an operation turns into an accepted message, if any.\<close>

fun accepted_hash :: "ext_ops \<Rightarrow> int \<Rightarrow> store_op \<Rightarrow> db \<Rightarrow> string option" where
  "accepted_hash x now (OpAccept e) d =
     (if fst (accept_paid_envelope x now e d) = Inr Accepted then Some (hash_hex x e) else None)"
| "accepted_hash x now _ d = None"

text \<open>The hashes accepted by a run, in order, and the final state.\<close>

fun store_run :: "ext_ops \<Rightarrow> (int \<times> store_op) list \<Rightarrow> db \<Rightarrow> string list \<times> db" where
  "store_run x [] d = ([], d)"
| "store_run x ((now, op) # ops) d =
     (let (hs, d') = store_run x ops (store_apply x now op d)
      in (case accepted_hash x now op d of Some h \<Rightarrow> h # hs | None \<Rightarrow> hs, d'))"

definition spent :: "db \<Rightarrow> string \<Rightarrow> bool" where
  "spent d ph = (case db_receipts d ph of None \<Rightarrow> False | Some r \<Rightarrow> rc_accepted r \<noteq> 0)"

section \<open>Samples\<close>

abbreviation sample_accepted :: db where
  "sample_accepted \<equiv> snd (accept_paid_envelope sample_ops 7 (sample_envelope 0 1000) db_empty)"

definition sample_quotes :: "quote_row list" where
  "sample_quotes =
     [\<lparr> qr_sender = node_id_to_hex sample_ops (sample_node 1), qr_scope = ''kind:0'', qr_amount = 5000,
        qr_issued = 100, qr_expires = 900, qr_excluded = '',,'' \<rparr>,
      \<lparr> qr_sender = node_id_to_hex sample_ops (sample_node 1), qr_scope = ''kind:0'', qr_amount = 3000,
        qr_issued = 200, qr_expires = 900, qr_excluded = '',,'' \<rparr>]"

section \<open>Facts\<close>

lemma bind_receipt_spent:
  "spent (bind_receipt ph b d) k \<longleftrightarrow> spent d k \<or> k = ph \<and> db_receipts d ph \<noteq> None"
  by (auto simp: bind_receipt_def spent_def split: option.splits)

lemma bind_receipt_sel [simp]:
  "db_messages (bind_receipt ph b d) = db_messages d" "db_nonces (bind_receipt ph b d) = db_nonces d"
  "db_hold (bind_receipt ph b d) = db_hold d" "db_web (bind_receipt ph b d) = db_web d"
  "db_quotes (bind_receipt ph b d) = db_quotes d"
  by (simp_all add: bind_receipt_def split: option.splits)

lemma bind_receipt_receipts:
  "db_receipts (bind_receipt ph b d) =
     (case db_receipts d ph of None \<Rightarrow> db_receipts d
      | Some r \<Rightarrow> (db_receipts d)(ph \<mapsto> r \<lparr> rc_accepted := 1, rc_binding := Some b \<rparr>))"
  by (simp add: bind_receipt_def split: option.splits)

lemma existing_receipt_Some:
  "existing_receipt x e b d r = Some (out, d') \<Longrightarrow>
   out \<noteq> Accepted \<and> (d' = d \<or> out = AlreadyAccepted \<and> message_matches x e b d
                       \<and> d' = bind_receipt (hash_hex x e) b d)"
  by (auto simp: existing_receipt_def split: if_splits)

lemma existing_receipt_None:
  "existing_receipt x e b d r = None \<longleftrightarrow>
   rc_message_id r = id_hex x e \<and> rc_sender r = sender_hex x e \<and> rc_accepted r = 0
   \<and> \<not> receipt_bound x e b 1 d \<and> \<not> message_matches x e b d \<and> db_messages d (id_hex x e) = None"
  by (auto simp: existing_receipt_def)

lemma insert_accepted_cases:
  "insert_accepted x now e b ts healing d = (out, d') \<Longrightarrow>
   out \<noteq> Inr Accepted \<and> out \<noteq> Inr AlreadyAccepted \<and> d' = d
   \<or> out = Inr Accepted \<and> db_messages d (id_hex x e) = None
     \<and> db_messages d' = (db_messages d)(id_hex x e \<mapsto> new_message x e b ts)
     \<and> (\<not> healing \<longrightarrow> db_nonces d (nonce_hex x e) = None)
     \<and> db_nonces d' (nonce_hex x e) \<noteq> None
     \<and> db_receipts d' = (db_receipts d)(hash_hex x e \<mapsto>
         (if healing then the (db_receipts d (hash_hex x e)) else new_receipt x e)
         \<lparr> rc_accepted := 1, rc_binding := Some b \<rparr>)
     \<or> out = Inr Accepted \<and> healing \<and> db_receipts d (hash_hex x e) = None"
  by (auto simp: insert_accepted_def Let_def bind_receipt_receipts split: if_splits option.splits)

text \<open>The whole of an accepting run of \<open>accept_paid_envelope\<close>.\<close>

lemma accept_Accepted:
  assumes "accept_paid_envelope x now e d = (Inr Accepted, d')"
  obtains b ts where "env_binding x e = Inr b" "timestamp_i64 e = Inr ts"
    "db_messages d (id_hex x e) = None"
    "db_messages d' = (db_messages d)(id_hex x e \<mapsto> new_message x e b ts)"
    "db_receipts d' = (db_receipts d)(hash_hex x e \<mapsto>
       \<lparr> rc_message_id = id_hex x e, rc_sender = sender_hex x e, rc_accepted = 1,
         rc_binding = Some b \<rparr>)"
    "db_receipts d (hash_hex x e) = None
     \<or> (\<exists>r. db_receipts d (hash_hex x e) = Some r \<and> rc_message_id r = id_hex x e
           \<and> rc_sender r = sender_hex x e \<and> rc_accepted r = 0)"
    "db_receipts d (hash_hex x e) = None \<Longrightarrow> db_nonces d (nonce_hex x e) = None"
    "db_nonces d' (nonce_hex x e) \<noteq> None"
proof -
  obtain b ts where b: "env_binding x e = Inr b" and ts: "timestamp_i64 e = Inr ts"
    using assms by (auto simp: accept_paid_envelope_def split: sum.splits)
  show ?thesis
  proof (cases "db_receipts d (hash_hex x e)")
    case None
    with assms b ts have "insert_accepted x now e b ts False d = (Inr Accepted, d')"
      by (simp add: accept_paid_envelope_def)
    from insert_accepted_cases [OF this] None b ts show ?thesis
      by (intro that [of b ts]) (simp_all add: new_receipt_def)
  next
    case (Some r)
    with assms b ts have n: "existing_receipt x e b d r = None"
      and i: "insert_accepted x now e b ts True d = (Inr Accepted, d')"
      by (auto simp: accept_paid_envelope_def dest: existing_receipt_Some split: option.splits)
    then have r: "rc_message_id r = id_hex x e" "rc_sender r = sender_hex x e" "rc_accepted r = 0"
      by (simp_all add: existing_receipt_None)
    then have "r \<lparr> rc_accepted := 1, rc_binding := Some b \<rparr> =
        \<lparr> rc_message_id = id_hex x e, rc_sender = sender_hex x e, rc_accepted = 1,
          rc_binding = Some b \<rparr>" by (cases r) simp
    with insert_accepted_cases [OF i] Some b ts r show ?thesis
      by (intro that [of b ts]) simp_all
  qed
qed

lemma accept_not_Accepted:
  assumes "fst (accept_paid_envelope x now e d) \<noteq> Inr Accepted"
  shows "snd (accept_paid_envelope x now e d) = d
    \<or> (\<exists>b. env_binding x e = Inr b \<and> message_matches x e b d
          \<and> accept_paid_envelope x now e d = (Inr AlreadyAccepted, bind_receipt (hash_hex x e) b d))"
proof (cases "timestamp_i64 e")
  case Inl
  then show ?thesis by (simp add: accept_paid_envelope_def)
next
  case ts: (Inr ts)
  show ?thesis
  proof (cases "env_binding x e")
    case Inl
    with ts show ?thesis by (simp add: accept_paid_envelope_def)
  next
    case b: (Inr b)
    have ins: "fst (insert_accepted x now e b ts h d) \<noteq> Inr Accepted
        \<Longrightarrow> snd (insert_accepted x now e b ts h d) = d" for h
      using insert_accepted_cases [of x now e b ts h d] by (metis prod.collapse)
    show ?thesis
    proof (cases "db_receipts d (hash_hex x e)")
      case None
      with ts b assms ins show ?thesis by (simp add: accept_paid_envelope_def)
    next
      case (Some r)
      with ts b assms ins show ?thesis
        by (cases "existing_receipt x e b d r")
          (auto simp: accept_paid_envelope_def dest: existing_receipt_Some)
    qed
  qed
qed

lemma accept_spends:
  assumes "fst (accept_paid_envelope x now e d) = Inr Accepted"
  shows "\<not> spent d (hash_hex x e)"
    and "spent (snd (accept_paid_envelope x now e d)) k \<longleftrightarrow> spent d k \<or> k = hash_hex x e"
proof -
  have a: "accept_paid_envelope x now e d = (Inr Accepted, snd (accept_paid_envelope x now e d))"
    using assms by (metis prod.collapse)
  from a show "\<not> spent d (hash_hex x e)"
    by (rule accept_Accepted) (auto simp: spent_def)
  from a show "spent (snd (accept_paid_envelope x now e d)) k \<longleftrightarrow> spent d k \<or> k = hash_hex x e"
    by (rule accept_Accepted) (auto simp: spent_def)
qed

lemma accept_spent_mono:
  assumes "spent d k"
  shows "spent (snd (accept_paid_envelope x now e d)) k"
proof (cases "fst (accept_paid_envelope x now e d) = Inr Accepted")
  case True
  with assms show ?thesis by (simp add: accept_spends)
next
  case False
  with accept_not_Accepted [OF False] assms show ?thesis by (auto simp: bind_receipt_spent)
qed

lemma receipts_untouched:
  "db_receipts (snd (store_nonce x now n s d)) = db_receipts d"
  "db_receipts (snd (store_message x e d)) = db_receipts d"
  "db_receipts (snd (update_message_wrapper x e d)) = db_receipts d"
  "db_receipts (cleanup_expired_nonces now a d) = db_receipts d"
  "db_receipts (snd (delete_message x m d)) = db_receipts d"
  "db_receipts (delete_messages_older_than b d) = db_receipts d"
  "db_receipts (snd (call_admission_hold x e t d)) = db_receipts d"
  "db_receipts (call_admission_release x m d) = db_receipts d"
  "db_receipts (snd (record_delivery_prices x s' ps ks i t d)) = db_receipts d"
  "db_receipts (snd (record_outgoing_web_request x h r d)) = db_receipts d"
  "db_receipts (snd (take_outstanding_web_request x h d)) = db_receipts d"
  by (simp_all add: store_nonce_def store_message_def update_message_wrapper_def
      cleanup_expired_nonces_def delete_message_def delete_messages_older_than_def
      call_admission_hold_def call_admission_release_def record_delivery_prices_def
      record_outgoing_web_request_def take_outstanding_web_request_def Let_def
      split: option.split sum.split)

lemma spent_cong: "db_receipts d' = db_receipts d \<Longrightarrow> spent d' k = spent d k"
  by (simp add: spent_def)

lemmas spent_untouched = receipts_untouched [THEN spent_cong]

lemma receipt_ops_spent:
  "spent d k \<Longrightarrow> spent (reject_accepted_envelope x e d) k"
  "spent d k \<Longrightarrow> spent (call_admission_withdraw b d) k"
  "spent d k \<Longrightarrow> spent (snd (store_paid_nonce x now n h s m d)) k"
  "spent d k \<Longrightarrow> spent (snd (store_payment_receipt x h s m d)) k"
  "spent d k \<Longrightarrow> spent (snd (is_paid_envelope_accepted x e d)) k"
proof -
  show "spent d k \<Longrightarrow> spent (reject_accepted_envelope x e d) k"
    by (auto simp: spent_def reject_accepted_envelope_def Let_def split: option.split option.split_asm)
  show "spent d k \<Longrightarrow> spent (call_admission_withdraw b d) k"
    by (simp add: spent_def call_admission_withdraw_def Let_def split: option.split_asm)
  show "spent d k \<Longrightarrow> spent (snd (store_paid_nonce x now n h s m d)) k"
    by (auto simp add: spent_def store_paid_nonce_def Let_def split: option.split_asm)
  show "spent d k \<Longrightarrow> spent (snd (store_payment_receipt x h s m d)) k"
    by (auto simp add: spent_def store_payment_receipt_def Let_def split: option.split_asm)
  show "spent d k \<Longrightarrow> spent (snd (is_paid_envelope_accepted x e d)) k"
    by (simp add: is_paid_envelope_accepted_def Let_def bind_receipt_spent split: sum.split)
qed

lemma store_apply_spent: "spent d k \<Longrightarrow> spent (store_apply x now op d) k"
  by (cases op) (simp_all add: accept_spent_mono receipt_ops_spent spent_untouched)

lemma store_run_not_spent: "h \<in> set (fst (store_run x ops d)) \<Longrightarrow> \<not> spent d h"
proof (induction x ops d rule: store_run.induct)
  case (2 x now op ops d)
  have "accepted_hash x now op d = Some h \<Longrightarrow> \<not> spent d h"
    by (cases op) (auto simp: accept_spends split: if_splits)
  moreover have "h \<in> set (fst (store_run x ops (store_apply x now op d))) \<Longrightarrow> \<not> spent d h"
    using 2 store_apply_spent by blast
  ultimately show ?case
    using "2.prems" by (auto simp: Let_def split_def split: option.splits)
qed simp

lemma store_run_distinct: "distinct (fst (store_run x ops d))"
proof (induction x ops d rule: store_run.induct)
  case (2 x now op ops d)
  have "accepted_hash x now op d = Some h \<Longrightarrow> spent (store_apply x now op d) h" for h
    by (cases op) (auto simp: accept_spends split: if_splits)
  with 2 store_run_not_spent show ?case
    by (auto simp: Let_def split_def split: option.splits)
qed simp

lemma accept_retry:
  assumes "accept_paid_envelope x now e d = (Inr Accepted, d')"
    and "timestamp_i64 (e \<lparr> ukm_timestamp := t, ukm_signature := sg \<rparr>) = Inr ts"
  shows "accept_paid_envelope x now' (e \<lparr> ukm_timestamp := t, ukm_signature := sg \<rparr>) d'
    = (Inr AlreadyAccepted, d')"
proof -
  let ?e = "e \<lparr> ukm_timestamp := t, ukm_signature := sg \<rparr>"
  have same: "id_hex x ?e = id_hex x e" "hash_hex x ?e = hash_hex x e"
      "sender_hex x ?e = sender_hex x e" "env_binding x ?e = env_binding x e"
    by (simp_all add: id_hex_def hash_hex_def sender_hex_def env_binding_def nonce_hex_def
        cong: option.case_cong sum.case_cong)
  from assms(1) obtain b where b: "env_binding x e = Inr b"
    and r: "db_receipts d' (hash_hex x e) = Some
       \<lparr> rc_message_id = id_hex x e, rc_sender = sender_hex x e, rc_accepted = 1,
         rc_binding = Some b \<rparr>" by (auto elim!: accept_Accepted)
  then show ?thesis
    using assms(2)
    by (simp add: accept_paid_envelope_def existing_receipt_def same receipt_bound_def)
qed

lemma accept_after_reject:
  assumes "accept_paid_envelope x now e d = (Inr Accepted, d')"
  shows "fst (accept_paid_envelope x now' e (reject_accepted_envelope x e d')) = Inr Withdrawn"
proof -
  from assms obtain b ts where b: "env_binding x e = Inr b" "timestamp_i64 e = Inr ts"
    and r: "db_receipts d' (hash_hex x e) = Some
       \<lparr> rc_message_id = id_hex x e, rc_sender = sender_hex x e, rc_accepted = 1,
         rc_binding = Some b \<rparr>" by (auto elim!: accept_Accepted)
  then have "db_receipts (reject_accepted_envelope x e d') (hash_hex x e) = Some
       \<lparr> rc_message_id = id_hex x e, rc_sender = sender_hex x e, rc_accepted = - 1,
         rc_binding = Some b \<rparr>"
    by (simp add: reject_accepted_envelope_def Let_def)
  with b show ?thesis by (simp add: accept_paid_envelope_def existing_receipt_def)
qed

text \<open>A recorded request is taken once, unchanged.\<close>

lemma web_record_take:
  assumes hex: "\<And>b. hex_decode x (hex_encode x b) = Inr b"
    and wf: "wf_message_id (request_id r)" "wf_node_id (peer r)"
    and rec: "record_outgoing_web_request x h r d = (Inr (), d')"
  shows "take_outstanding_web_request x h d' = (Inr (Some r), d \<lparr> db_web := (db_web d)(hex_encode x h := None) \<rparr>)"
proof -
  obtain ex where ex: "i64_try_from_u64 (expires_at_ms r) = Some ex"
    and d': "d' = d \<lparr> db_web := (db_web d)(hex_encode x h \<mapsto>
             \<lparr> wr_request_id = message_id_to_hex x (request_id r),
               wr_peer = node_id_to_hex x (peer r),
               wr_kind = int (unat (ow_expected_reply_kind r)), wr_expires = ex \<rparr>) \<rparr>"
    using rec by (auto simp: record_outgoing_web_request_def split: option.splits)
  have ex': "ex = int (unat (expires_at_ms r))"
    using ex by (auto simp: i64_try_from_u64_def split: if_splits)
  have k: "uint (ow_expected_reply_kind r) < 2 ^ 16"
    using unsigned_less [of "ow_expected_reply_kind r", where 'a = int] by simp
  show ?thesis
    using k by (simp add: take_outstanding_web_request_def outstanding_from_row_def d' ex' Let_def
        message_id_hex_round_trip [OF hex wf(1)] node_id_hex_round_trip [OF hex wf(2)])
qed

lemma take_consumes: "db_web (snd (take_outstanding_web_request x h d)) (hex_encode x h) = None"
  by (simp add: take_outstanding_web_request_def Let_def split: option.split sum.split)

lemma fold_min_le: "fold min ys y \<le> (y :: int)" "z \<in> set ys \<Longrightarrow> fold min ys y \<le> z"
proof (induction ys arbitrary: y)
  case (Cons a ys)
  { case 1 show ?case using Cons.IH(1) [of "min a y"] by simp }
  { case 2 then show ?case using Cons.IH [of "min a y"] by (auto intro: order_trans) }
qed auto

lemma fold_min_in: "fold min ys y \<in> set (y # ys)" for y :: int
  by (induction ys arbitrary: y) (auto simp: min_def split: if_splits)

lemma min_list_Some:
  assumes "min_list xs = Some m"
  shows "m \<in> set xs" and "z \<in> set xs \<Longrightarrow> m \<le> z"
proof -
  obtain y ys where xs: "xs = y # ys" and m: "m = fold min ys y"
    using assms by (auto simp: min_list_def split: list.splits)
  show "m \<in> set xs" unfolding xs m by (rule fold_min_in)
  show "z \<in> set xs \<Longrightarrow> m \<le> z" unfolding xs m using fold_min_le by auto
qed

lemma delivery_price_floor_Some:
  assumes "delivery_price_floor x e paid_at now d = Inr (Some p)"
  shows "paid_at \<le> now" "now - paid_at \<le> DELIVERY_PRICE_WINDOW_SECS"
    and "\<exists>q \<in> set (db_quotes d). quote_applies x e (int (unat paid_at)) q \<and> p = of_int (qr_amount q)
      \<and> (\<forall>q' \<in> set (db_quotes d). quote_applies x e (int (unat paid_at)) q' \<longrightarrow> qr_amount q \<le> qr_amount q')"
proof -
  from assms have "\<not> paid_at > now" "\<not> sat_sub now paid_at > DELIVERY_PRICE_WINDOW_SECS"
    by (auto simp: delivery_price_floor_def split: if_splits)
  then show "paid_at \<le> now" "now - paid_at \<le> DELIVERY_PRICE_WINDOW_SECS"
    by (auto simp: sat_sub_def not_less split: if_splits)
  obtain paid m where p: "i64_try_from_u64 paid_at = Some paid"
    and m: "min_list (map qr_amount (filter (quote_applies x e paid) (db_quotes d))) = Some m"
      "p = of_int m"
    using assms by (auto simp: delivery_price_floor_def split: if_splits option.splits)
  have "paid = int (unat paid_at)" using p by (auto simp: i64_try_from_u64_def split: if_splits)
  with min_list_Some [OF m(1)] m(2) show "\<exists>q \<in> set (db_quotes d).
      quote_applies x e (int (unat paid_at)) q \<and> p = of_int (qr_amount q)
      \<and> (\<forall>q' \<in> set (db_quotes d). quote_applies x e (int (unat paid_at)) q' \<longrightarrow> qr_amount q \<le> qr_amount q')"
    by fastforce
qed

lemma sample_accept: "fst (accept_paid_envelope sample_ops 7 (sample_envelope 0 1000) db_empty) = Inr Accepted"
  by (simp add: accept_paid_envelope_def timestamp_i64_def env_binding_def i64_try_from_u64_def
      insert_accepted_def Let_def db_empty_def)

lemma sample_accept_eq:
  "accept_paid_envelope sample_ops 7 (sample_envelope 0 1000) db_empty = (Inr Accepted, sample_accepted)"
  using sample_accept by (metis prod.collapse)

section \<open>Properties\<close>

text \<open>
  (C3) Whatever sequence of storage operations runs, at whatever times and from whatever
  state, pruning, deletion and withdrawal included, the acceptance transaction answers
  \<open>Accepted\<close> at most once for each payment hash.
\<close>

theorem payment_accepted_once: "distinct (fst (store_run x ops d))"
  by (rule store_run_distinct)

text \<open>
  (C14) Retrying an accepted envelope is idempotent: with a refreshed timestamp and
  signature it is answered \<open>AlreadyAccepted\<close> and nothing in the store changes.
\<close>

theorem accepted_retry_idempotent:
  assumes "accept_paid_envelope x now e d = (Inr Accepted, d')"
    and "timestamp_i64 (e \<lparr> ukm_timestamp := t, ukm_signature := sg \<rparr>) = Inr ts"
  shows "accept_paid_envelope x now' (e \<lparr> ukm_timestamp := t, ukm_signature := sg \<rparr>) d'
    = (Inr AlreadyAccepted, d')"
  by (rule accept_retry [OF assms])

theorem accepted_retry_idempotent_witness:
  "accept_paid_envelope sample_ops 99
     ((sample_envelope 0 1000) \<lparr> ukm_timestamp := 2000000, ukm_signature := Signature [] \<rparr>) sample_accepted
   = (Inr AlreadyAccepted, sample_accepted)"
proof -
  have "timestamp_i64 ((sample_envelope 0 1000) \<lparr> ukm_timestamp := 2000000, ukm_signature := Signature [] \<rparr>)
      = Inr 2000000"
    by (simp add: timestamp_i64_def i64_try_from_u64_def)
  from accepted_retry_idempotent [OF sample_accept_eq this] show ?thesis .
qed

text \<open>
  (C15) A withdrawn envelope stays withdrawn: after the application rejects an accepted
  envelope, offering it again is answered \<open>Withdrawn\<close>, so its payment buys nothing more.
\<close>

theorem withdrawn_not_accepted_again:
  assumes "accept_paid_envelope x now e d = (Inr Accepted, d')"
  shows "fst (accept_paid_envelope x now' e (reject_accepted_envelope x e d')) = Inr Withdrawn"
  by (rule accept_after_reject [OF assms])

theorem withdrawn_not_accepted_again_witness:
  "fst (accept_paid_envelope sample_ops 99 (sample_envelope 0 1000)
     (reject_accepted_envelope sample_ops (sample_envelope 0 1000) sample_accepted)) = Inr Withdrawn"
  by (rule withdrawn_not_accepted_again [OF sample_accept_eq])

text \<open>
  (C16) An outstanding web request reads back exactly as recorded, and only once: taking it
  returns the request and removes it, so that taking it again finds nothing.
\<close>

theorem web_request_taken_once:
  assumes "\<And>b. hex_decode x (hex_encode x b) = Inr b"
    and "wf_message_id (request_id r)" "wf_node_id (peer r)"
    and "record_outgoing_web_request x h r d = (Inr (), d')"
    and "take_outstanding_web_request x h d' = (first, d1)"
    and "take_outstanding_web_request x h d1 = (second, d2)"
  shows "first = Inr (Some r) \<and> second = Inr None"
proof -
  have "take_outstanding_web_request x h d'
      = (Inr (Some r), d \<lparr> db_web := (db_web d)(hex_encode x h := None) \<rparr>)"
    by (rule web_record_take [OF assms(1-4)])
  moreover have "db_web d1 (hex_encode x h) = None"
    using take_consumes [of x h d'] assms(5) by simp
  ultimately show ?thesis
    using assms(5,6) by (auto simp: take_outstanding_web_request_def Let_def)
qed

theorem web_request_taken_once_witness:
  "\<exists>d' d1 d2. take_outstanding_web_request sample_ops [1] d' =
       (Inr (Some \<lparr> request_id = MessageId (replicate 32 9), peer = sample_node 3,
                    ow_expected_reply_kind = 501, expires_at_ms = 50 \<rparr>), d1)
     \<and> take_outstanding_web_request sample_ops [1] d1 = (Inr None, d2)"
proof -
  let ?r = "\<lparr> request_id = MessageId (replicate 32 9), peer = sample_node 3,
              ow_expected_reply_kind = 501, expires_at_ms = 50 \<rparr> :: outstanding_web_request"
  obtain d' where d': "record_outgoing_web_request sample_ops [1] ?r db_empty = (Inr (), d')"
    by (simp add: record_outgoing_web_request_def i64_try_from_u64_def)
  obtain a d1 where d1: "take_outstanding_web_request sample_ops [1] d' = (a, d1)" by fastforce
  obtain b d2 where d2: "take_outstanding_web_request sample_ops [1] d1 = (b, d2)" by fastforce
  have "a = Inr (Some ?r) \<and> b = Inr None"
    by (rule web_request_taken_once [OF _ _ _ d' d1 d2]) (simp_all add: sample_ops_def sample_node_def comp_def)
  with d1 d2 show ?thesis by blast
qed

text \<open>
  (C17) A delivery price the store offers for a payment is the cheapest quote that applies
  to this sender and kind at the time of payment, and the payment is at most one hour old.
\<close>

theorem delivery_price_cheapest_quote:
  assumes "delivery_price_floor x e paid_at now d = Inr (Some p)"
  shows "paid_at \<le> now \<and> now - paid_at \<le> DELIVERY_PRICE_WINDOW_SECS
    \<and> (\<exists>q \<in> set (db_quotes d). quote_applies x e (int (unat paid_at)) q \<and> p = of_int (qr_amount q)
        \<and> (\<forall>q' \<in> set (db_quotes d). quote_applies x e (int (unat paid_at)) q' \<longrightarrow> qr_amount q \<le> qr_amount q'))"
  using delivery_price_floor_Some [OF assms] by blast

lemma sample_quote_floor:
  "delivery_price_floor sample_ops (sample_envelope 0 1000) 500 600 (db_empty \<lparr> db_quotes := sample_quotes \<rparr>)
     = Inr (Some 3000)"
proof -
  have "show_word (0 :: u16) = ''0''" by code_simp
  then show ?thesis
    by (simp add: delivery_price_floor_def sample_quotes_def quote_applies_def sender_hex_def
        i64_try_from_u64_def DELIVERY_PRICE_WINDOW_SECS_def sat_sub_def min_list_def)
qed

theorem delivery_price_cheapest_quote_witness:
  "\<exists>q \<in> set sample_quotes. (3000 :: u64) = of_int (qr_amount q)"
  using delivery_price_cheapest_quote [OF sample_quote_floor] by auto

end
