(* ===== verification/Static_Pricing.thy ===== *)
theory Static_Pricing
  imports Kinds
begin

text \<open>
  The pricing interface of \<open>konsensus-core/src/traits/pricing.rs\<close> and the static
  engine of \<open>konsensus-pricing/src/static_pricing.rs\<close>. An engine at one moment is a
  record of its answers; the locale \<open>pricing_contract\<close> is the promise
  \<open>category_price_overrides\<close> documents.
\<close>

section \<open>The pricing interface\<close>

datatype pricing_error = NotPriceable u16 | ChainUnavailable string | PricingOther string

record pricing_engine =
  get_price_msat :: "u16 \<Rightarrow> pricing_error + u64"
  get_category_price_msat :: "kind_category \<Rightarrow> pricing_error + u64"
  category_price_overrides :: "u16 list option"

text \<open>
  \<open>Some\<close> overrides attest that every other priceable kind is priced by its category.
\<close>

locale pricing_contract =
  fixes pricing :: pricing_engine
  assumes category_price:
    "category_price_overrides pricing = Some ks \<Longrightarrow> k \<notin> set ks \<Longrightarrow> from_kind k \<noteq> Unknown
     \<Longrightarrow> get_price_msat pricing k = get_category_price_msat pricing (from_kind k)"
    and unknown_not_priced: "from_kind k = Unknown \<Longrightarrow> \<exists>e. get_price_msat pricing k = Inl e"
begin

lemma priced_kind_known: "get_price_msat pricing k = Inr p \<Longrightarrow> from_kind k \<noteq> Unknown"
  using unknown_not_priced [of k] by auto

end

section \<open>The static engine\<close>

record static_pricing_config =
  chat_msat :: u64
  longform_msat :: u64
  calendar_msat :: u64
  file_ref_msat :: u64
  control_msat :: u64
  collaboration_msat :: u64
  realtime_signal_msat :: u64
  call_msat :: u64
  call_block_msat :: u64
  app_ext_msat :: u64
  web_content_msat :: u64
  relay_storage_msat :: u64

definition default_static_config :: static_pricing_config where
  "default_static_config =
     \<lparr> chat_msat = 10, longform_msat = 50, calendar_msat = 25, file_ref_msat = 100,
       control_msat = 1, collaboration_msat = 25, realtime_signal_msat = 50,
       call_msat = 10000, call_block_msat = 10000, app_ext_msat = 10,
       web_content_msat = 1000, relay_storage_msat = 100 \<rparr>"

fun price_for_category :: "static_pricing_config \<Rightarrow> kind_category \<Rightarrow> pricing_error + u64" where
  "price_for_category c Communication = Inr (chat_msat c)"
| "price_for_category c StructuredData = Inr (calendar_msat c)"
| "price_for_category c FilesMedia = Inr (file_ref_msat c)"
| "price_for_category c Collaboration = Inr (collaboration_msat c)"
| "price_for_category c RealTimeSignaling = Inr (realtime_signal_msat c)"
| "price_for_category c WebContent = Inr (web_content_msat c)"
| "price_for_category c Storage = Inr (relay_storage_msat c)"
| "price_for_category c Control = Inr (control_msat c)"
| "price_for_category c AppExtension = Inr (app_ext_msat c)"
| "price_for_category c Unknown = Inl (NotPriceable 0)"

definition static_overrides :: "static_pricing_config \<Rightarrow> u16 list option" where
  "static_overrides c =
     Some ((if longform_msat c \<noteq> chat_msat c then [KIND_LONGFORM] else [])
           @ (if call_msat c \<noteq> realtime_signal_msat c then [KIND_CALL_INVITE] else [])
           @ (if call_block_msat c \<noteq> realtime_signal_msat c then [KIND_CALL_BLOCK] else []))"

definition static_price_msat :: "static_pricing_config \<Rightarrow> u16 \<Rightarrow> pricing_error + u64" where
  "static_price_msat c kind =
     (let category = from_kind kind
      in if category = Unknown then Inl (NotPriceable kind)
         else if kind = KIND_LONGFORM then Inr (longform_msat c)
         else if kind = KIND_CALL_INVITE then Inr (call_msat c)
         else if kind = KIND_CALL_BLOCK then Inr (call_block_msat c)
         else price_for_category c category)"

definition static_engine :: "static_pricing_config \<Rightarrow> pricing_engine" where
  "static_engine c =
     \<lparr> get_price_msat = static_price_msat c,
       get_category_price_msat = price_for_category c,
       category_price_overrides = static_overrides c \<rparr>"

section \<open>Facts\<close>

lemma from_kind_special:
  "from_kind KIND_LONGFORM = Communication"
  "from_kind KIND_CALL_INVITE = RealTimeSignaling"
  "from_kind KIND_CALL_BLOCK = RealTimeSignaling"
  by (simp_all add: from_kind_range KIND_LONGFORM_def KIND_CALL_INVITE_def KIND_CALL_BLOCK_def)

lemma static_price_msat_eq:
  "static_price_msat c k =
     (if from_kind k = Unknown then Inl (NotPriceable k)
      else if static_overrides c \<noteq> None \<and> k \<in> set (the (static_overrides c))
      then Inr (if k = KIND_LONGFORM then longform_msat c
                else if k = KIND_CALL_INVITE then call_msat c else call_block_msat c)
      else price_for_category c (from_kind k))"
  by (auto simp: static_price_msat_def static_overrides_def Let_def from_kind_special
      KIND_LONGFORM_def KIND_CALL_INVITE_def KIND_CALL_BLOCK_def from_kind_range)

lemma static_price_total: "from_kind k \<noteq> Unknown \<Longrightarrow> \<exists>p. static_price_msat c k = Inr p"
  by (cases "from_kind k") (auto simp: static_price_msat_def Let_def)

interpretation static_contract: pricing_contract "static_engine c" for c
  by unfold_locales (auto simp: static_engine_def static_price_msat_eq)

end
