(* ===== verification/F64.thy ===== *)
theory F64
  imports Prelude
begin

text \<open>
  Rust's \<open>f64\<close>: IEEE 754 binary64 with round to nearest, ties to even. A finite
  value is the rational it denotes; every arithmetic operation computes the exact
  rational result and rounds it to 53 significant bits with the subnormal range
  and overflow to infinity. The sign of zero and NaN payloads are not kept: no
  modelled code divides by a value that can be zero or reads the sign of a zero.

  The lemmas give what the clients need of rounding: it is monotone, exact on
  multiples \<open>m * 2 ^ k\<close> with at most 53 significant bits, idempotent, and hence keeps
  the unit interval.
\<close>

section \<open>Rounding\<close>

fun ilog2 :: "nat \<Rightarrow> nat" where
  "ilog2 n = (if n < 2 then 0 else Suc (ilog2 (n div 2)))"

declare ilog2.simps [simp del]

definition rat_ilog2 :: "rat \<Rightarrow> int" where
  "rat_ilog2 x =
     (let (p, q) = quotient_of x;
          e = int (ilog2 (nat p)) - int (ilog2 (nat q))
      in if 2 powi e \<le> x then e else e - 1)"

text \<open>Round to the nearest integer, ties to even.\<close>

definition rhe :: "rat \<Rightarrow> int" where
  "rhe x =
     (let n = \<lfloor>x\<rfloor>; d = x - of_int n
      in if d < 1 / 2 then n else if d > 1 / 2 then n + 1
         else if even n then n else n + 1)"

text \<open>The exponent of the last kept bit of a positive rational.\<close>

definition ulp_exp :: "rat \<Rightarrow> int" where
  "ulp_exp x = max (rat_ilog2 x - 52) (- 1074)"

definition rnd_pos :: "rat \<Rightarrow> rat" where
  "rnd_pos x = of_int (rhe (x / 2 powi ulp_exp x)) * 2 powi ulp_exp x"

definition rnd :: "rat \<Rightarrow> rat" where
  "rnd x = (if x = 0 then 0 else if 0 < x then rnd_pos x else - rnd_pos (- x))"

section \<open>Values and operations\<close>

datatype f64 = F_NaN | F_PInf | F_NInf | F_Fin rat

definition f64_round :: "rat \<Rightarrow> f64" where
  "f64_round x =
     (let r = rnd x
      in if 2 ^ 1024 \<le> r then F_PInf else if r \<le> - (2 ^ 1024) then F_NInf else F_Fin r)"

text \<open>The largest finite value, \<open>f64::MAX\<close>.\<close>

definition f64_MAX :: f64 where
  "f64_MAX = F_Fin ((2 - 1 / 2 ^ 52) * 2 ^ 1023)"

fun f64_is_finite :: "f64 \<Rightarrow> bool" where
  "f64_is_finite (F_Fin _) = True"
| "f64_is_finite _ = False"

fun f64_neg :: "f64 \<Rightarrow> f64" where
  "f64_neg F_NaN = F_NaN"
| "f64_neg F_PInf = F_NInf"
| "f64_neg F_NInf = F_PInf"
| "f64_neg (F_Fin a) = F_Fin (- a)"

fun f64_add :: "f64 \<Rightarrow> f64 \<Rightarrow> f64" where
  "f64_add (F_Fin a) (F_Fin b) = f64_round (a + b)"
| "f64_add F_NaN _ = F_NaN"
| "f64_add _ F_NaN = F_NaN"
| "f64_add F_PInf F_NInf = F_NaN"
| "f64_add F_NInf F_PInf = F_NaN"
| "f64_add F_PInf _ = F_PInf"
| "f64_add _ F_PInf = F_PInf"
| "f64_add F_NInf _ = F_NInf"
| "f64_add _ F_NInf = F_NInf"

definition f64_sub :: "f64 \<Rightarrow> f64 \<Rightarrow> f64" where
  "f64_sub x y = f64_add x (f64_neg y)"

text \<open>An infinite factor: the sign is the product of the signs, zero times infinity is NaN.\<close>

definition inf_times :: "bool \<Rightarrow> rat \<Rightarrow> f64" where
  "inf_times pos a =
     (if a = 0 then F_NaN else if (0 < a) = pos then F_PInf else F_NInf)"

fun f64_mul :: "f64 \<Rightarrow> f64 \<Rightarrow> f64" where
  "f64_mul (F_Fin a) (F_Fin b) = f64_round (a * b)"
| "f64_mul F_NaN _ = F_NaN"
| "f64_mul _ F_NaN = F_NaN"
| "f64_mul F_PInf (F_Fin a) = inf_times True a"
| "f64_mul F_NInf (F_Fin a) = inf_times False a"
| "f64_mul (F_Fin a) F_PInf = inf_times True a"
| "f64_mul (F_Fin a) F_NInf = inf_times False a"
| "f64_mul F_PInf F_PInf = F_PInf"
| "f64_mul F_NInf F_NInf = F_PInf"
| "f64_mul F_PInf F_NInf = F_NInf"
| "f64_mul F_NInf F_PInf = F_NInf"

fun f64_div :: "f64 \<Rightarrow> f64 \<Rightarrow> f64" where
  "f64_div (F_Fin a) (F_Fin b) =
     (if b \<noteq> 0 then f64_round (a / b)
      else if a = 0 then F_NaN else if 0 < a then F_PInf else F_NInf)"
| "f64_div F_NaN _ = F_NaN"
| "f64_div _ F_NaN = F_NaN"
| "f64_div (F_Fin a) _ = F_Fin 0"
| "f64_div F_PInf (F_Fin b) = (if 0 \<le> b then F_PInf else F_NInf)"
| "f64_div F_NInf (F_Fin b) = (if 0 \<le> b then F_NInf else F_PInf)"
| "f64_div _ _ = F_NaN"

fun f64_lt :: "f64 \<Rightarrow> f64 \<Rightarrow> bool" where
  "f64_lt (F_Fin a) (F_Fin b) = (a < b)"
| "f64_lt F_NaN _ = False"
| "f64_lt _ F_NaN = False"
| "f64_lt F_PInf _ = False"
| "f64_lt _ F_NInf = False"
| "f64_lt _ _ = True"

fun f64_eq :: "f64 \<Rightarrow> f64 \<Rightarrow> bool" where
  "f64_eq F_NaN _ = False"
| "f64_eq _ F_NaN = False"
| "f64_eq x y = (x = y)"

definition f64_le :: "f64 \<Rightarrow> f64 \<Rightarrow> bool" where
  "f64_le x y = (f64_lt x y \<or> f64_eq x y)"

text \<open>\<open>f64::clamp\<close>: a NaN passes through.\<close>

definition f64_clamp :: "f64 \<Rightarrow> f64 \<Rightarrow> f64 \<Rightarrow> f64" where
  "f64_clamp x lo hi =
     (let y = (if f64_lt x lo then lo else x) in if f64_lt hi y then hi else y)"

text \<open>\<open>f64::max\<close> and \<open>f64::min\<close>: a NaN operand is ignored.\<close>

definition f64_max :: "f64 \<Rightarrow> f64 \<Rightarrow> f64" where
  "f64_max x y = (if x = F_NaN then y else if y = F_NaN then x else if f64_lt x y then y else x)"

definition f64_min :: "f64 \<Rightarrow> f64 \<Rightarrow> f64" where
  "f64_min x y = (if x = F_NaN then y else if y = F_NaN then x else if f64_lt y x then y else x)"

fun f64_ceil :: "f64 \<Rightarrow> f64" where
  "f64_ceil (F_Fin a) = F_Fin (of_int \<lceil>a\<rceil>)"
| "f64_ceil x = x"

text \<open>The casts \<open>w as f64\<close> and \<open>x as u64\<close> (truncating and saturating, NaN to 0).\<close>

definition word_rat :: "'a::len word \<Rightarrow> rat" where
  "word_rat w = of_nat (unat w)"

definition f64_of_word :: "'a::len word \<Rightarrow> f64" where
  "f64_of_word w = f64_round (word_rat w)"

fun f64_to_word :: "f64 \<Rightarrow> 'a::len word" where
  "f64_to_word F_NaN = 0"
| "f64_to_word F_NInf = 0"
| "f64_to_word F_PInf = - 1"
| "f64_to_word (F_Fin a) =
     (if a \<le> 0 then 0 else if 2 ^ LENGTH('a) \<le> \<lfloor>a\<rfloor> then - 1 else word_of_int \<lfloor>a\<rfloor>)"

text \<open>Representable values of the unit interval.\<close>

definition unit_f64 :: "f64 \<Rightarrow> bool" where
  "unit_f64 x = (\<exists>r. x = F_Fin r \<and> 0 \<le> r \<and> r \<le> 1 \<and> rnd r = r)"

section \<open>Facts about rounding\<close>

lemma ilog2_bounds: "0 < n \<Longrightarrow> 2 ^ ilog2 n \<le> n \<and> n < 2 ^ Suc (ilog2 n)"
proof (induction n rule: ilog2.induct)
  case (1 n)
  show ?case
  proof (cases "n < 2")
    case True
    with "1.prems" show ?thesis by (simp add: ilog2.simps)
  next
    case False
    with "1.IH" have "2 ^ ilog2 (n div 2) \<le> n div 2" "n div 2 < 2 ^ Suc (ilog2 (n div 2))"
      by auto
    moreover have "n = 2 * (n div 2) + n mod 2" "n mod 2 < 2" by auto
    ultimately show ?thesis using False by (simp add: ilog2.simps [of n]) linarith
  qed
qed

lemma powi_two_pos [simp]: "0 < (2::rat) powi e"
  by simp

lemma powi_two_add: "(2::rat) powi (a + b) = 2 powi a * 2 powi b"
  by (simp add: power_int_add)

lemma powi_two_mono: "a \<le> b \<Longrightarrow> (2::rat) powi a \<le> 2 powi b"
  by (rule power_int_increasing) auto

lemma powi_two_less_iff: "(2::rat) powi a < 2 powi b \<longleftrightarrow> a < b"
proof
  show "(2::rat) powi a < 2 powi b \<Longrightarrow> a < b"
    using powi_two_mono [of b a] by (meson leD leI)
  show "a < b \<Longrightarrow> (2::rat) powi a < 2 powi b"
    by (rule power_int_strict_increasing) auto
qed

lemma powi_two_int: "0 \<le> k \<Longrightarrow> \<exists>m::int. (2::rat) powi k = of_int m"
  by (rule exI [of _ "2 ^ nat k"]) (simp add: power_int_def)

lemma rat_ilog2_bounds:
  assumes "0 < x"
  shows "2 powi rat_ilog2 x \<le> x" and "x < 2 powi (rat_ilog2 x + 1)"
proof -
  obtain p q where pq: "quotient_of x = (p, q)" by (cases "quotient_of x")
  have q: "0 < q" using pq by (rule quotient_of_denom_pos)
  have x: "x = of_int p / of_int q" using pq by (rule quotient_of_div)
  with assms q have p: "0 < p" by (simp add: zero_less_divide_iff)
  let ?a = "ilog2 (nat p)" and ?b = "ilog2 (nat q)"
  let ?e = "int ?a - int ?b"
  have pn: "2 ^ ?a \<le> nat p \<and> nat p < 2 ^ Suc ?a" and qn: "2 ^ ?b \<le> nat q \<and> nat q < 2 ^ Suc ?b"
    using p q ilog2_bounds [of "nat p"] ilog2_bounds [of "nat q"] by simp_all
  have P: "(2::rat) ^ ?a \<le> of_int p" "of_int p < (2::rat) ^ Suc ?a"
    using pn p by (metis of_nat_le_iff of_nat_numeral of_nat_power of_nat_nat less_imp_le,
                   metis of_nat_less_iff of_nat_numeral of_nat_power of_nat_nat less_imp_le pn)
  have Q: "(2::rat) ^ ?b \<le> of_int q" "of_int q < (2::rat) ^ Suc ?b"
    using qn q by (metis of_nat_le_iff of_nat_numeral of_nat_power of_nat_nat less_imp_le,
                   metis of_nat_less_iff of_nat_numeral of_nat_power of_nat_nat less_imp_le qn)
  have ab: "(2::rat) powi ?e = 2 ^ ?a / 2 ^ ?b"
    by (simp add: power_int_diff)
  have up: "x < 2 powi (?e + 1)"
  proof -
    have "x < 2 ^ Suc ?a / 2 ^ ?b"
      unfolding x using P Q p q by (intro frac_less) auto
    also have "\<dots> = 2 powi (?e + 1)" by (simp add: powi_two_add ab)
    finally show ?thesis .
  qed
  have lo: "2 powi (?e - 1) \<le> x"
  proof -
    have "2 powi (?e - 1) = 2 ^ ?a / (2::rat) ^ Suc ?b"
      by (simp add: power_int_diff)
    also have "\<dots> \<le> x"
      unfolding x using P Q p q by (intro frac_le) auto
    finally show ?thesis .
  qed
  show "2 powi rat_ilog2 x \<le> x" "x < 2 powi (rat_ilog2 x + 1)"
    using up lo by (auto simp: rat_ilog2_def pq Let_def)
qed

lemma rhe_bounds: "\<lfloor>x\<rfloor> \<le> rhe x" "rhe x \<le> \<lfloor>x\<rfloor> + 1"
  by (auto simp: rhe_def Let_def)

lemma rhe_of_int [simp]: "rhe (of_int n) = n"
  by (simp add: rhe_def)

lemma rhe_mono: "x \<le> y \<Longrightarrow> rhe x \<le> rhe y"
proof -
  assume xy: "x \<le> y"
  show ?thesis
  proof (cases "\<lfloor>x\<rfloor> = \<lfloor>y\<rfloor>")
    case True
    with xy show ?thesis by (auto simp: rhe_def Let_def)
  next
    case False
    with floor_mono [OF xy] have "\<lfloor>x\<rfloor> + 1 \<le> \<lfloor>y\<rfloor>" by linarith
    with rhe_bounds(2) [of x] rhe_bounds(1) [of y] show ?thesis by linarith
  qed
qed

lemma rhe_ge: "of_int n \<le> x \<Longrightarrow> n \<le> rhe x"
  using rhe_mono [of "of_int n" x] by simp

lemma rhe_le: "x \<le> of_int n \<Longrightarrow> rhe x \<le> n"
  using rhe_mono [of x "of_int n"] by simp

text \<open>A power of two on the rounding grid bounds the rounded value.\<close>

lemma grid_le:
  assumes "u \<le> k" "x \<le> 2 powi k"
  shows "of_int (rhe (x / 2 powi u)) * 2 powi u \<le> (2::rat) powi k"
proof -
  obtain m :: int where m: "(2::rat) powi (k - u) = of_int m"
    using powi_two_int [of "k - u"] assms(1) by auto
  have k: "(2::rat) powi k = of_int m * 2 powi u"
    using powi_two_add [of "k - u" u] m by simp
  have "rhe (x / 2 powi u) \<le> m"
    using assms(2) by (intro rhe_le) (simp add: k divide_le_eq)
  then have "(of_int (rhe (x / 2 powi u)) :: rat) \<le> of_int m" by simp
  then show ?thesis by (simp add: k)
qed

lemma grid_ge:
  assumes "u \<le> k" "2 powi k \<le> x"
  shows "(2::rat) powi k \<le> of_int (rhe (x / 2 powi u)) * 2 powi u"
proof -
  obtain m :: int where m: "(2::rat) powi (k - u) = of_int m"
    using powi_two_int [of "k - u"] assms(1) by auto
  have k: "(2::rat) powi k = of_int m * 2 powi u"
    using powi_two_add [of "k - u" u] m by simp
  have "m \<le> rhe (x / 2 powi u)"
    using assms(2) by (intro rhe_ge) (simp add: k le_divide_eq)
  then have "(of_int m :: rat) \<le> of_int (rhe (x / 2 powi u))" by simp
  then show ?thesis by (simp add: k)
qed

lemma rat_ilog2_mono:
  assumes "0 < x" "x \<le> y"
  shows "rat_ilog2 x \<le> rat_ilog2 y"
proof -
  have "(2::rat) powi rat_ilog2 x \<le> x" using assms by (intro rat_ilog2_bounds)
  also have "x \<le> y" by (rule assms)
  also have "y < 2 powi (rat_ilog2 y + 1)" using assms by (intro rat_ilog2_bounds) simp
  finally show ?thesis by (simp add: powi_two_less_iff)
qed

lemma rnd_pos_nonneg: "0 \<le> x \<Longrightarrow> 0 \<le> rnd_pos x"
proof -
  assume "0 \<le> x"
  then have "0 \<le> rhe (x / 2 powi ulp_exp x)" by (intro rhe_ge) simp
  then show ?thesis by (simp add: rnd_pos_def)
qed

lemma rnd_pos_mono:
  assumes "0 < x" "x \<le> y"
  shows "rnd_pos x \<le> rnd_pos y"
proof (cases "ulp_exp x = ulp_exp y")
  case True
  have "rhe (x / 2 powi ulp_exp y) \<le> rhe (y / 2 powi ulp_exp y)"
    using assms by (intro rhe_mono divide_right_mono) auto
  with True show ?thesis by (simp add: rnd_pos_def)
next
  case False
  have y: "0 < y" using assms by simp
  from rat_ilog2_mono [OF assms] False
  have lt: "rat_ilog2 x < rat_ilog2 y" by (auto simp: ulp_exp_def)
  have "x \<le> 2 powi (rat_ilog2 x + 1)" using rat_ilog2_bounds(2) [OF assms(1)] by simp
  also have "\<dots> \<le> 2 powi max (rat_ilog2 x + 1) (ulp_exp x)" by (intro powi_two_mono) simp
  finally have "rnd_pos x \<le> 2 powi max (rat_ilog2 x + 1) (ulp_exp x)"
    unfolding rnd_pos_def by (intro grid_le) simp
  also have "\<dots> \<le> 2 powi rat_ilog2 y"
    using lt False by (intro powi_two_mono) (auto simp: ulp_exp_def max_def split: if_splits)
  also have "\<dots> \<le> rnd_pos y"
    unfolding rnd_pos_def using rat_ilog2_bounds(1) [OF y] False lt
    by (intro grid_ge) (auto simp: ulp_exp_def max_def split: if_splits)
  finally show ?thesis .
qed

lemma rnd_0 [simp]: "rnd 0 = 0"
  by (simp add: rnd_def)

lemma rnd_nonneg: "0 \<le> x \<Longrightarrow> 0 \<le> rnd x"
  by (simp add: rnd_def rnd_pos_nonneg)

lemma rnd_uminus: "rnd (- x) = - rnd x"
  by (simp add: rnd_def)

lemma rnd_mono: "x \<le> y \<Longrightarrow> rnd x \<le> rnd y"
proof -
  assume xy: "x \<le> y"
  consider "0 < x" | "y < 0" | "x \<le> 0" "0 \<le> y" by linarith
  then show ?thesis
  proof cases
    case 1
    with xy show ?thesis by (simp add: rnd_def rnd_pos_mono)
  next
    case 2
    with xy rnd_pos_mono [of "- y" "- x"] show ?thesis by (simp add: rnd_def)
  next
    case 3
    with rnd_nonneg [of y] rnd_nonneg [of "- x"] show ?thesis by (simp add: rnd_uminus)
  qed
qed

lemma rnd_pos_exact:
  assumes x: "x = of_int m * 2 powi k" "0 < x" and m: "m \<le> 2 ^ 53" and k: "- 1074 \<le> k"
  shows "rnd_pos x = x"
proof -
  have e: "2 powi rat_ilog2 x \<le> x" using x(2) by (rule rat_ilog2_bounds)
  have "x \<le> 2 ^ 53 * 2 powi k"
    unfolding x(1) using m by (intro mult_right_mono) (simp_all flip: of_int_le_iff)
  also have "\<dots> = 2 powi (53 + k)" by (simp add: powi_two_add)
  finally have xle: "x \<le> 2 powi (53 + k)" .
  have "\<exists>n::int. x / 2 powi ulp_exp x = of_int n"
  proof (cases "ulp_exp x \<le> k")
    case True
    then obtain j :: int where "(2::rat) powi (k - ulp_exp x) = of_int j"
      using powi_two_int [of "k - ulp_exp x"] by auto
    then have "x / 2 powi ulp_exp x = of_int (m * j)"
      unfolding x(1) by (simp add: power_int_diff flip: times_divide_eq_right)
    then show ?thesis by blast
  next
    case False
    with k have "53 + k \<le> rat_ilog2 x" by (auto simp: ulp_exp_def)
    with e xle have eq: "x = 2 powi rat_ilog2 x" and r: "rat_ilog2 x = 53 + k"
      using powi_two_mono [of "53 + k" "rat_ilog2 x"] powi_two_less_iff [of "53 + k" "rat_ilog2 x"]
      by linarith+
    with k have "ulp_exp x \<le> rat_ilog2 x" by (simp add: ulp_exp_def)
    then obtain j :: int where "(2::rat) powi (rat_ilog2 x - ulp_exp x) = of_int j"
      using powi_two_int [of "rat_ilog2 x - ulp_exp x"] by auto
    with eq show ?thesis by (metis power_int_diff zero_neq_numeral)
  qed
  then obtain n :: int where n: "x / 2 powi ulp_exp x = of_int n" ..
  then have "rnd_pos x = x / 2 powi ulp_exp x * 2 powi ulp_exp x" by (simp add: rnd_pos_def)
  then show ?thesis by simp
qed

lemma rnd_exact:
  assumes "x = of_int m * 2 powi k" "\<bar>m\<bar> \<le> 2 ^ 53" "- 1074 \<le> k"
  shows "rnd x = x"
proof -
  consider "x = 0" | "0 < x" | "x < 0" by linarith
  then show ?thesis
  proof cases
    case 1
    then show ?thesis by simp
  next
    case 2
    with rnd_pos_exact [OF assms(1) 2] assms show ?thesis by (simp add: rnd_def)
  next
    case 3
    with rnd_pos_exact [of "- x" "- m" k] assms show ?thesis by (simp add: rnd_def)
  qed
qed

lemma rnd_of_int: "\<bar>m\<bar> \<le> 2 ^ 53 \<Longrightarrow> rnd (of_int m) = of_int m"
  by (rule rnd_exact [where k = 0]) auto

lemma rnd_1 [simp]: "rnd 1 = 1"
  using rnd_of_int [of 1] by simp

lemma rnd_of_nat: "n \<le> 2 ^ 53 \<Longrightarrow> rnd (of_nat n) = of_nat n"
  using rnd_of_int [of "int n"] by simp

lemma rnd_half_int: "\<bar>m\<bar> \<le> 2 ^ 53 \<Longrightarrow> rnd (of_int m / 2) = of_int m / 2"
  by (rule rnd_exact [where k = "- 1" and m = m]) (simp_all add: power_int_minus)

lemma word_rat_nonneg [simp]: "0 \<le> word_rat w"
  unfolding word_rat_def by (rule of_nat_0_le_iff)

lemma word_rat_less: "word_rat (w :: 'a::len word) < 2 ^ LENGTH('a)"
proof -
  have "(of_nat (unat w) :: rat) < of_nat (2 ^ LENGTH('a))"
    unfolding of_nat_less_iff by (rule unat_lt_pow)
  then show ?thesis unfolding word_rat_def by simp
qed

lemma word_rat_int: "word_rat w = of_int (int (unat w))"
  unfolding word_rat_def by (rule of_int_of_nat_eq [symmetric])

lemma rnd_word_rat: "unat w \<le> 2 ^ 53 \<Longrightarrow> rnd (word_rat w) = word_rat w"
  unfolding word_rat_def by (rule rnd_of_nat)

lemma rnd_word_rat_half: "unat w \<le> 2 ^ 53 \<Longrightarrow> rnd (word_rat w / 2) = word_rat w / 2"
  unfolding word_rat_int
  by (rule rnd_half_int) (metis abs_of_nat of_nat_le_iff of_nat_numeral of_nat_power)

lemma rnd_idem [simp]: "rnd (rnd x) = rnd x"
proof -
  have pos: "rnd (rnd_pos y) = rnd_pos y" if y: "0 < y" for y
  proof (rule rnd_exact)
    show "rnd_pos y = of_int (rhe (y / 2 powi ulp_exp y)) * 2 powi ulp_exp y"
      by (simp add: rnd_pos_def)
    have "y \<le> 2 powi (rat_ilog2 y + 1)" using rat_ilog2_bounds(2) [OF y] by simp
    also have "\<dots> \<le> 2 powi (53 + ulp_exp y)" by (intro powi_two_mono) (simp add: ulp_exp_def)
    finally have "y / 2 powi ulp_exp y \<le> of_int (2 ^ 53)" by (simp add: powi_two_add divide_le_eq)
    then have "rhe (y / 2 powi ulp_exp y) \<le> 2 ^ 53" by (rule rhe_le)
    moreover have "0 \<le> rhe (y / 2 powi ulp_exp y)" using y by (intro rhe_ge) simp
    ultimately show "\<bar>rhe (y / 2 powi ulp_exp y)\<bar> \<le> 2 ^ 53" by simp
    show "- 1074 \<le> ulp_exp y" by (simp add: ulp_exp_def)
  qed
  show ?thesis
  proof (cases "0 < x")
    case True
    then show ?thesis using pos [of x] by (simp add: rnd_def [of x])
  next
    case False
    then show ?thesis using pos [of "- x"] by (auto simp: rnd_def [of x] rnd_uminus)
  qed
qed

section \<open>The unit interval\<close>

lemma f64_round_small: "\<bar>rnd x\<bar> < 2 ^ 1024 \<Longrightarrow> f64_round x = F_Fin (rnd x)"
  by (auto simp: f64_round_def Let_def)

lemma rnd_unit: "0 \<le> x \<Longrightarrow> x \<le> 1 \<Longrightarrow> 0 \<le> rnd x \<and> rnd x \<le> 1"
  using rnd_mono [of x 1] rnd_nonneg [of x] by simp

lemma one_less_pow1024: "(1::rat) < 2 ^ 1024"
  by (rule one_less_power) auto

lemma f64_round_unit:
  assumes "0 \<le> x" "x \<le> 1"
  shows "f64_round x = F_Fin (rnd x)" and "unit_f64 (f64_round x)"
proof -
  from rnd_unit [OF assms] one_less_pow1024 have "\<bar>rnd x\<bar> < 2 ^ 1024" by linarith
  then show "f64_round x = F_Fin (rnd x)" by (rule f64_round_small)
  with rnd_unit [OF assms] show "unit_f64 (f64_round x)" by (simp add: unit_f64_def)
qed

lemma unit_f64_finite: "unit_f64 x \<Longrightarrow> f64_is_finite x"
  by (auto simp: unit_f64_def)

lemma unit_f64_mul: "unit_f64 x \<Longrightarrow> unit_f64 y \<Longrightarrow> unit_f64 (f64_mul x y)"
  by (auto simp: unit_f64_def [of x] unit_f64_def [of y] intro!: f64_round_unit(2) mult_le_one)

lemma unit_f64_clamp:
  "f64_is_finite x \<Longrightarrow> (\<And>r. x = F_Fin r \<Longrightarrow> rnd r = r) \<Longrightarrow> unit_f64 (f64_clamp x (F_Fin 0) (F_Fin 1))"
  by (cases x) (auto simp: f64_clamp_def unit_f64_def)

end
