(* ===== verification/Discount.thy ===== *)
theory Discount
  imports F64
begin

text \<open>
  Price arithmetic shared by the payment gate and the peer price cache: the
  non-discountable admission floor of \<open>konsensus-core/src/gate.rs\<close> and the rounding
  expression both components use to discount a price in \<open>f64\<close>.
\<close>

section \<open>Definitions\<close>

definition price_with_floor_msat :: "u64 \<Rightarrow> u64 \<Rightarrow> u64" where
  "price_with_floor_msat discounted min_cost = max (max discounted min_cost) 1000"

text \<open>The expression \<open>((base as f64) * (1.0 - d)).ceil() as u64\<close>.\<close>

definition discount_ceil :: "u64 \<Rightarrow> f64 \<Rightarrow> u64" where
  "discount_ceil base d =
     f64_to_word (f64_ceil (f64_mul (f64_of_word base) (f64_sub (F_Fin 1) d)))"

section \<open>Facts\<close>

lemma unat_f64_to_word:
  "unat (f64_to_word (F_Fin a) :: 'a::len word) = nat (max 0 (min \<lfloor>a\<rfloor> (2 ^ LENGTH('a) - 1)))"
proof (cases "a \<le> 0")
  case True
  then have "\<lfloor>a\<rfloor> \<le> 0" by linarith
  then have "min \<lfloor>a\<rfloor> (2 ^ LENGTH('a) - 1) \<le> 0" by (rule min.coboundedI1)
  with True show ?thesis by (simp add: max_def)
next
  case False
  then have "0 \<le> \<lfloor>a\<rfloor>" by simp
  show ?thesis
  proof (cases "2 ^ LENGTH('a) \<le> \<lfloor>a\<rfloor>")
    case True
    with False show ?thesis
      by (simp add: unat_minus_one_max nat_diff_distrib nat_power_eq max_def)
  next
    case lt: False
    have "unat (word_of_int \<lfloor>a\<rfloor> :: 'a word) = nat \<lfloor>a\<rfloor>"
      using lt \<open>0 \<le> \<lfloor>a\<rfloor>\<close>
      by (simp add: unsigned_of_int take_bit_int_eq_self)
    with lt False \<open>0 \<le> \<lfloor>a\<rfloor>\<close> show ?thesis by (simp add: min_def)
  qed
qed

lemma f64_to_word_mono:
  "a \<le> b \<Longrightarrow> (f64_to_word (F_Fin a) :: 'a::len word) \<le> f64_to_word (F_Fin b)"
  unfolding word_le_nat_alt unat_f64_to_word
  by (rule nat_mono) (auto simp: max_def min_def dest: floor_mono)

lemma pow64_lt_pow1024: "(2::rat) ^ 64 < 2 ^ 1024"
  by (rule power_strict_increasing) auto

lemma rnd_pow64: "rnd (2 ^ 64) = 2 ^ 64"
  by (rule rnd_exact [where m = 1 and k = 64]) auto

lemma rnd_word_bounds: "0 \<le> rnd (word_rat (w :: u64))" "rnd (word_rat (w :: u64)) \<le> 2 ^ 64"
proof -
  show "0 \<le> rnd (word_rat w)" by (rule rnd_nonneg) simp
  have "word_rat w \<le> 2 ^ 64" using word_rat_less [of w] by simp
  then show "rnd (word_rat w) \<le> 2 ^ 64"
    using rnd_mono rnd_pow64 by metis
qed

lemma f64_of_u64: "f64_of_word (w :: u64) = F_Fin (rnd (word_rat w))"
  using rnd_word_bounds [of w] pow64_lt_pow1024
  by (simp add: f64_of_word_def f64_round_small)

lemma ceil_half: "\<lceil>(of_nat n :: rat) / 2\<rceil> = int ((n + 1) div 2)"
proof (cases "even n")
  case True
  then obtain k where "n = 2 * k" ..
  then show ?thesis by simp
next
  case False
  then obtain k where "n = 2 * k + 1" ..
  then show ?thesis by (simp add: ceiling_eq_iff)
qed

lemma ceil_word_rat: "\<lceil>word_rat w\<rceil> = int (unat w)"
  unfolding word_rat_int by (rule ceiling_of_int)

lemma rnd_half [simp]: "rnd (1 / 2) = 1 / 2"
  using rnd_half_int [of 1] by simp

lemma one_minus_half_range:
  assumes "0 \<le> q" "q \<le> 1 / 2"
  shows "f64_sub (F_Fin 1) (F_Fin q) = F_Fin (rnd (1 - q))"
    and "1 / 2 \<le> rnd (1 - q)" and "rnd (1 - q) \<le> 1"
  using assms f64_round_unit(1) [of "1 - q"] rnd_mono [of "1 / 2" "1 - q"] rnd_mono [of "1 - q" 1]
  by (simp_all add: f64_sub_def)

text \<open>The discounted amount as a rational before the ceiling.\<close>

lemma discount_ceil_eq:
  assumes "0 \<le> q" "q \<le> 1 / 2"
  shows "discount_ceil base (F_Fin q) =
    f64_to_word (F_Fin (of_int \<lceil>rnd (rnd (word_rat base) * rnd (1 - q))\<rceil>))"
proof -
  let ?B = "rnd (word_rat base)" and ?r = "rnd (1 - q)"
  have r: "1 / 2 \<le> ?r" "?r \<le> 1" using one_minus_half_range [OF assms] by simp_all
  have B: "0 \<le> ?B" "?B \<le> 2 ^ 64" by (rule rnd_word_bounds)+
  have "?B * ?r \<le> ?B" using r B by (intro mult_left_le) auto
  with B have "?B * ?r \<le> 2 ^ 64" by linarith
  then have up: "rnd (?B * ?r) \<le> 2 ^ 64" using rnd_mono rnd_pow64 by metis
  have "0 \<le> ?B * ?r" using r B by (intro mult_nonneg_nonneg) linarith+
  then have "0 \<le> rnd (?B * ?r)" by (rule rnd_nonneg)
  with up pow64_lt_pow1024 have "\<bar>rnd (?B * ?r)\<bar> < 2 ^ 1024" by linarith
  then have "f64_mul (F_Fin ?B) (F_Fin ?r) = F_Fin (rnd (?B * ?r))"
    by (simp add: f64_round_small)
  then show ?thesis
    using one_minus_half_range(1) [OF assms] by (simp add: discount_ceil_def f64_of_u64)
qed

lemma discount_ceil_mono:
  assumes "0 \<le> q" "q \<le> q'" "q' \<le> 1 / 2"
  shows "discount_ceil base (F_Fin q') \<le> discount_ceil base (F_Fin q)"
proof -
  have "rnd (1 - q') \<le> rnd (1 - q)" using assms by (intro rnd_mono) simp
  then have "rnd (word_rat base) * rnd (1 - q') \<le> rnd (word_rat base) * rnd (1 - q)"
    by (intro mult_left_mono rnd_word_bounds)
  then have "\<lceil>rnd (rnd (word_rat base) * rnd (1 - q'))\<rceil>
      \<le> \<lceil>rnd (rnd (word_rat base) * rnd (1 - q))\<rceil>"
    by (intro ceiling_mono rnd_mono)
  then show ?thesis
    using assms by (simp add: discount_ceil_eq f64_to_word_mono del: f64_to_word.simps)
qed

lemma discount_ceil_half:
  assumes "unat base \<le> 2 ^ 53"
  shows "unat (discount_ceil base (F_Fin (1 / 2))) = (unat base + 1) div 2"
proof -
  have h: "rnd (word_rat base / 2) = word_rat base / 2"
    using assms by (rule rnd_word_rat_half)
  have c: "\<lceil>word_rat base / 2\<rceil> = int ((unat base + 1) div 2)"
    unfolding word_rat_def by (rule ceil_half)
  have "(unat base + 1) div 2 \<le> 2 ^ 64 - 1" using assms by simp
  then show ?thesis
    using assms by (simp add: discount_ceil_eq rnd_word_rat h c unat_f64_to_word
        del: f64_to_word.simps)
qed

lemma f64_to_word_word_rat: "f64_to_word (F_Fin (word_rat w)) = w"
proof -
  have "int (unat w) \<le> 2 ^ LENGTH('a) - 1" for w :: "'a::len word"
    using unat_lt_pow [of w] by (metis le_diff_eq zless_imp_add1_zle of_nat_less_iff
        of_nat_numeral of_nat_power)
  moreover have "\<lfloor>word_rat w\<rfloor> = int (unat w)"
    unfolding word_rat_int by (rule floor_of_int)
  ultimately have "unat (f64_to_word (F_Fin (word_rat w)) :: 'a word) = nat (int (unat w))"
    unfolding unat_f64_to_word by (metis max_def min_def of_nat_0_le_iff)
  then show ?thesis by (simp only: nat_int word_unat_eq_iff)
qed

lemma discount_ceil_zero:
  assumes "unat base \<le> 2 ^ 53"
  shows "discount_ceil base (F_Fin 0) = base"
proof -
  have c: "of_int \<lceil>word_rat base\<rceil> = word_rat base" by (simp only: word_rat_int ceiling_of_int)
  have "discount_ceil base (F_Fin 0) = f64_to_word (F_Fin (of_int \<lceil>word_rat base\<rceil>))"
    using assms by (simp add: discount_ceil_eq rnd_word_rat del: f64_to_word.simps)
  then show ?thesis unfolding c f64_to_word_word_rat .
qed

lemma discount_ceil_bounds:
  assumes "unat base \<le> 2 ^ 53" "0 \<le> q" "q \<le> 1 / 2"
  shows "(unat base + 1) div 2 \<le> unat (discount_ceil base (F_Fin q))"
    and "discount_ceil base (F_Fin q) \<le> base"
  using discount_ceil_mono [of q "1 / 2" base] discount_ceil_mono [of 0 q base] assms
  by (simp_all add: discount_ceil_half discount_ceil_zero word_le_nat_alt)

lemma price_with_floor_ge:
  "discounted \<le> price_with_floor_msat discounted c"
  "c \<le> price_with_floor_msat discounted c" "1000 \<le> price_with_floor_msat discounted c"
  by (auto simp: price_with_floor_msat_def max_def)

lemma price_with_floor_mono:
  "d \<le> d' \<Longrightarrow> price_with_floor_msat d c \<le> price_with_floor_msat d' c"
  by (auto simp: price_with_floor_msat_def max_def)

text \<open>The clamp both clients apply to a finite discount.\<close>

lemma f64_clamp_half:
  assumes "f64_is_finite d"
  obtains q where "f64_clamp d (F_Fin 0) (F_Fin (1 / 2)) = F_Fin q" "0 \<le> q" "q \<le> 1 / 2"
proof (cases d)
  case (F_Fin a)
  then have "f64_clamp d (F_Fin 0) (F_Fin (1 / 2)) = F_Fin (min (max a 0) (1 / 2))"
    by (auto simp: f64_clamp_def)
  then show ?thesis by (rule that) auto
qed (use assms in auto)

end
