(* ===== verification/Lightning.thy ===== *)
theory Lightning
  imports Rust_Text
begin

text \<open>
  The Lightning vocabulary of \<open>konsensus-core/src/traits/lightning.rs\<close>: payment
  records, errors and their texts, the routing-fee ceiling and the check of starter
  channel terms. The backend behind the trait is a record of its answers
  (\<open>lightning_provider\<close>): LNbits, LND, CLN and LDK are outside this repository's
  sources or network services.
\<close>

section \<open>Payments and errors\<close>

datatype payment_status = Pending | InFlight | Settled | Failed | Expired
datatype payment_direction = Incoming | Outgoing

record payment_details =
  pd_payment_hash :: string
  pd_preimage :: "string option"
  pd_amount_msat :: u64
  pd_status :: payment_status
  pd_direction :: payment_direction
  pd_timestamp :: u64
  pd_memo :: "string option"
  pd_fee_msat :: "u64 option"

datatype lightning_error =
    NotReady
  | ChainSourceUnavailable string string nat u64 string
  | InvalidStartupConfig string
  | StatelessQuoteUnsupported
  | PaymentNotDispatched string
  | InvoiceCreation string
  | PaymentFailed string
  | PaymentNotFound string
  | InvalidBolt11 string
  | Connection string
  | Auth string
  | Backend string
  | BroadcastUnconfirmed string

fun lightning_error_text :: "lightning_error \<Rightarrow> string" where
  "lightning_error_text NotReady =
     ''not_ready: Lightning is offline or synchronizing; retry when money_ready is true''"
| "lightning_error_text (ChainSourceUnavailable network service attempts elapsed_ms cause) =
     ''BOOT_CHAIN_SOURCE_UNAVAILABLE: BitSov could not obtain usable fees from a Bitcoin chain service. Your local identity is saved. Check your connection and try again. (network=''
     @ network @ '', service='' @ service @ '', attempts='' @ show_nat attempts
     @ '', elapsed_ms='' @ show_word elapsed_ms @ '', cause='' @ cause @ '')''"
| "lightning_error_text (InvalidStartupConfig e) =
     ''BOOT_INVALID_CONFIG: Invalid Lightning configuration: '' @ e
     @ ''. Check konsensus.toml and try again.''"
| "lightning_error_text StatelessQuoteUnsupported = ''stateless_quote_unsupported''"
| "lightning_error_text (PaymentNotDispatched e) = ''payment not dispatched: '' @ e"
| "lightning_error_text (InvoiceCreation e) = ''invoice creation failed: '' @ e"
| "lightning_error_text (PaymentFailed e) = ''payment failed: '' @ e"
| "lightning_error_text (PaymentNotFound e) = ''payment not found: '' @ e"
| "lightning_error_text (InvalidBolt11 e) = ''invalid bolt11: '' @ e"
| "lightning_error_text (Connection e) = ''connection error: '' @ e"
| "lightning_error_text (Auth e) = ''auth error: '' @ e"
| "lightning_error_text (Backend e) = ''lightning backend error: '' @ e"
| "lightning_error_text (BroadcastUnconfirmed txid) =
     ''on-chain broadcast unconfirmed within timeout: txid='' @ txid"

text \<open>The two queries the payment gate makes of a Lightning backend.\<close>

record lightning_provider =
  is_funding_payment :: "string \<Rightarrow> lightning_error + bool"
  get_payment_status :: "string \<Rightarrow> lightning_error + payment_details"

section \<open>Routing fees\<close>

record routing_fee_policy =
  minimum_msat :: u64
  proportional_millionths :: u64
  maximum_msat :: u64

definition default_routing_fee_policy :: routing_fee_policy where
  "default_routing_fee_policy =
     \<lparr> minimum_msat = 5000, proportional_millionths = 10000, maximum_msat = 10000 \<rparr>"

definition ceiling_msat :: "routing_fee_policy \<Rightarrow> u64 \<Rightarrow> u64 option \<Rightarrow> u64" where
  "ceiling_msat p amount caller =
     (if amount = 0 then 0
      else
        let proportional =
              (ucast (min ((ucast amount :: u128) * ucast (proportional_millionths p) div 1000000)
                        (ucast (- 1 :: u64))) :: u64)
        in min (min (max proportional (minimum_msat p)) (maximum_msat p))
               (case caller of Some c \<Rightarrow> c | None \<Rightarrow> - 1))"

section \<open>Starter channels\<close>

record channel_info =
  ch_is_outbound :: "bool option"
  ch_is_announced :: "bool option"
  ch_is_channel_ready :: "bool option"
  ch_local_reserve_msat :: "u64 option"
  ch_initial_push_msat :: "u64 option"
  ch_channel_id :: string
  ch_user_channel_id :: "string option"
  ch_funding_txo :: "string option"
  ch_peer_pubkey :: string
  ch_capacity_msat :: u64
  ch_local_balance_msat :: u64
  ch_outbound_capacity_msat :: "u64 option"
  ch_remote_balance_msat :: u64
  ch_active :: bool
  ch_short_channel_id :: "string option"

definition eq_ignore_ascii_case :: "string \<Rightarrow> string \<Rightarrow> bool" where
  "eq_ignore_ascii_case a b = (map ascii_lower a = map ascii_lower b)"

definition verifies_starter ::
  "channel_info \<Rightarrow> string \<Rightarrow> u64 \<Rightarrow> u64 \<Rightarrow> string option \<Rightarrow> string option \<Rightarrow> bool" where
  "verifies_starter ch hub capacity_sats push_sats channel_id funding_txid =
     (capacity_sats > 0
      \<and> capacity_sats \<le> 200000
      \<and> push_sats > 0
      \<and> push_sats \<le> capacity_sats div 2
      \<and> eq_ignore_ascii_case (ch_peer_pubkey ch) hub
      \<and> ch_is_outbound ch = Some False
      \<and> ch_is_announced ch = Some False
      \<and> ch_is_channel_ready ch = Some True
      \<and> ch_active ch
      \<and> ch_capacity_msat ch = capacity_sats * 1000
      \<and> (case ch_initial_push_msat ch of None \<Rightarrow> False | Some push \<Rightarrow> push \<ge> push_sats * 1000)
      \<and> (case channel_id of None \<Rightarrow> True | Some i \<Rightarrow> i = ch_channel_id ch)
      \<and> (case funding_txid of
           None \<Rightarrow> True
         | Some txid \<Rightarrow>
             (case Option.bind (ch_funding_txo ch) (split_once (CHR '':'')) of
                None \<Rightarrow> False
              | Some (i, _) \<Rightarrow> i = txid)))"

definition unique_channel_match ::
  "channel_info list \<Rightarrow> string \<Rightarrow> u64 \<Rightarrow> channel_info option" where
  "unique_channel_match channels p capacity_sats =
     (case checked_mul capacity_sats 1000 of
        None \<Rightarrow> None
      | Some capacity \<Rightarrow>
          (case filter (\<lambda>c. eq_ignore_ascii_case (ch_peer_pubkey c) p
                           \<and> ch_capacity_msat c = capacity) channels of
             [c] \<Rightarrow> Some c
           | _ \<Rightarrow> None))"

section \<open>Facts\<close>

lemma unique_channel_match_Some:
  assumes "unique_channel_match channels p capacity_sats = Some c"
  shows "c \<in> set channels" and "unat (ch_capacity_msat c) = unat capacity_sats * 1000"
    and "length (filter (\<lambda>d. eq_ignore_ascii_case (ch_peer_pubkey d) p
           \<and> ch_capacity_msat d = ch_capacity_msat c) channels) = 1"
proof -
  obtain cap where cap: "checked_mul capacity_sats 1000 = Some cap"
    and f: "filter (\<lambda>c. eq_ignore_ascii_case (ch_peer_pubkey c) p
              \<and> ch_capacity_msat c = cap) channels = [c]"
    using assms by (auto simp: unique_channel_match_def split: option.splits list.splits)
  have "c \<in> set (filter (\<lambda>c. eq_ignore_ascii_case (ch_peer_pubkey c) p
              \<and> ch_capacity_msat c = cap) channels)" unfolding f by simp
  then have c: "c \<in> set channels" "ch_capacity_msat c = cap" by simp_all
  with cap f show "c \<in> set channels" "unat (ch_capacity_msat c) = unat capacity_sats * 1000"
    "length (filter (\<lambda>d. eq_ignore_ascii_case (ch_peer_pubkey d) p
           \<and> ch_capacity_msat d = ch_capacity_msat c) channels) = 1"
    by (auto dest: checked_mul_unat)
qed

lemma ceiling_nat:
  "unat (ceiling_msat p amount caller) =
     (if amount = 0 then 0
      else let own = min (max (min (unat amount * unat (proportional_millionths p) div 1000000)
                                   (2 ^ 64 - 1))
                              (unat (minimum_msat p)))
                         (unat (maximum_msat p))
           in case caller of Some c \<Rightarrow> min own (unat c) | None \<Rightarrow> own)"
proof -
  let ?p = "(ucast amount :: u128) * ucast (proportional_millionths p)"
  have up: "unat (ucast w :: u128) = unat w" for w :: u64
  proof -
    have "unat w < 2 ^ 128" using unat_lt_pow [of w] by simp
    then show ?thesis by (simp add: unsigned_ucast_eq take_bit_nat_eq_self)
  qed
  have "unat amount * unat (proportional_millionths p) < 2 ^ 64 * 2 ^ 64"
    using unat_lt_pow [of amount] unat_lt_pow [of "proportional_millionths p"]
    by (intro mult_strict_mono) simp_all
  then have prod: "unat ?p = unat amount * unat (proportional_millionths p)"
    by (simp add: unat_mul_small up)
  have down: "unat w < 2 ^ 64 \<Longrightarrow> unat (ucast w :: u64) = unat w" for w :: u128
    by (simp add: unsigned_ucast_eq take_bit_nat_eq_self)
  have m: "unat (ucast (- 1 :: u64) :: u128) = 2 ^ 64 - 1"
    by (simp only: up unat_minus_one_max) simp
  let ?m = "min (?p div 1000000) (ucast (- 1 :: u64))"
  have um: "unat ?m = min (unat ?p div 1000000) (2 ^ 64 - 1)"
    by (simp only: unat_min m unat_div) simp
  then have "unat ?m < 2 ^ 64" by simp
  then have "unat (ucast ?m :: u64) = min (unat ?p div 1000000) (2 ^ 64 - 1)"
    by (simp only: down um)
  then show ?thesis
    unfolding ceiling_msat_def Let_def prod
    by (cases caller) (simp_all add: unat_min unat_max)
qed

section \<open>Properties\<close>

text \<open>
  (C21) The routing-fee ceiling is the exact proportional fee, raised to the minimum, cut
  to the maximum and to the caller's limit, over unbounded numbers: the 128-bit
  intermediate never overflows and a zero amount allows no fee.
\<close>

theorem routing_fee_ceiling_exact:
  "unat (ceiling_msat p amount caller) =
     (if amount = 0 then 0
      else let own = min (max (min (unat amount * unat (proportional_millionths p) div 1000000)
                                   (2 ^ 64 - 1))
                              (unat (minimum_msat p)))
                         (unat (maximum_msat p))
           in case caller of Some c \<Rightarrow> min own (unat c) | None \<Rightarrow> own)"
  by (rule ceiling_nat)

end
