(* ===== verification/Gate.thy ===== *)
theory Gate
  imports Sqlite_Store Static_Pricing Discount Lightning Samples
begin

text \<open>
  The payment gate of \<open>konsensus-core/src/gate.rs\<close>. Storage, pricing and Lightning are
  the interfaces the code takes as trait objects: a record of state-passing operations
  over an arbitrary store state, a record of prices, and a record of backend answers.
  A check that fails is \<open>Inl\<close> its rejection; every step is a definition with the
  early returns of the source. The locale \<open>paid_store\<close> is what the gate relies on from
  a store, interpreted on the SQLite model behind \<open>StorageNonceAdapter\<close>.
\<close>

section \<open>Service invoices\<close>

definition SERVICE_INVOICE_PREFIX :: string where "SERVICE_INVOICE_PREFIX = ''konsensus:service:''"

definition service_invoice_purpose :: "u16 \<Rightarrow> string" where
  "service_invoice_purpose kind = SERVICE_INVOICE_PREFIX @ show_word kind"

definition parse_service_invoice_purpose :: "string \<Rightarrow> u16 option" where
  "parse_service_invoice_purpose purpose =
     (case strip_prefix SERVICE_INVOICE_PREFIX purpose of
        None \<Rightarrow> None
      | Some kind \<Rightarrow>
          if kind \<noteq> [] \<and> list_all (\<lambda>c. digit_val c \<noteq> None) kind \<and> length kind \<le> 5
          then parse_word kind else None)"

section \<open>Rejections and texts\<close>

datatype gate_rejection =
    InvalidEnvelope string
  | NotWhitelisted node_id
  | GateInvalidSignature string
  | MessageTooOld u64 u64
  | MessageFromFuture u64 u64
  | ReplayDetected
  | NonceCheckFailed string
  | InsufficientPayment u64 u64
  | PricingFailed string
  | PaymentNotSettled string
  | PaymentSettlementMismatch string
  | PaymentProofReused string
  | LightningUnavailable string
  | KindNotPriceable u16
  | RecipientMismatch node_id node_id
  | WebReplyUnbound

fun core_error_text :: "core_error \<Rightarrow> string" where
  "core_error_text (InvalidPublicKey s) = ''invalid public key: '' @ s"
| "core_error_text (InvalidSignature s) = ''invalid signature: '' @ s"
| "core_error_text (InvalidMessageId s) = ''invalid message id: '' @ s"
| "core_error_text (InvalidNonce s) = ''invalid nonce: '' @ s"
| "core_error_text (EnvelopeValidation s) = ''envelope validation failed: '' @ s"
| "core_error_text (InvalidPaymentProof s) = ''payment proof invalid: '' @ s"
| "core_error_text (Serialization s) = ''serialization error: '' @ s"
| "core_error_text (InvalidRoomId s) = ''invalid room id: '' @ s"
| "core_error_text (HexDecode s) = ''hex decode error: '' @ s"

fun pricing_error_text :: "pricing_error \<Rightarrow> string" where
  "pricing_error_text (NotPriceable k) = ''kind '' @ show_word k @ '' is not priceable''"
| "pricing_error_text (ChainUnavailable s) = ''chain data unavailable: '' @ s"
| "pricing_error_text (PricingOther s) = ''pricing error: '' @ s"

fun storage_error_text :: "storage_error \<Rightarrow> string" where
  "storage_error_text (Database s) = ''database error: '' @ s"
| "storage_error_text (NotFound s) = ''not found: '' @ s"
| "storage_error_text (SerializationError s) = ''serialization error: '' @ s"
| "storage_error_text (Conversion s) = ''type conversion: '' @ s"

fun status_debug :: "payment_status \<Rightarrow> string" where
  "status_debug Pending = ''Pending''"
| "status_debug InFlight = ''InFlight''"
| "status_debug Settled = ''Settled''"
| "status_debug Failed = ''Failed''"
| "status_debug Expired = ''Expired''"

section \<open>Interfaces and configuration\<close>

record 's nonce_store =
  ns_delivery_price_floor :: "ukm_envelope \<Rightarrow> u64 \<Rightarrow> u64 \<Rightarrow> 's \<Rightarrow> string + u64 option"
  ns_is_paid_envelope_accepted :: "ukm_envelope \<Rightarrow> 's \<Rightarrow> (string + bool) \<times> 's"
  ns_check_and_store_paid ::
    "nonce \<Rightarrow> bytes \<Rightarrow> node_id \<Rightarrow> message_id \<Rightarrow> 's \<Rightarrow> (string + paid_replay) \<times> 's"
  ns_take_outstanding_web_request ::
    "bytes \<Rightarrow> 's \<Rightarrow> (string + outstanding_web_request option) \<times> 's"

record gate_config =
  max_message_age_ms :: u64
  max_future_ms :: u64
  verify_lightning_settlement :: bool
  min_admission_cost_msat :: u64

definition default_gate_config :: gate_config where
  "default_gate_config =
     \<lparr> max_message_age_ms = 5 * 60 * 1000, max_future_ms = 5 * 60 * 1000,
       verify_lightning_settlement = False, min_admission_cost_msat = 0 \<rparr>"

section \<open>Stateless checks\<close>

definition verify_signature :: "ext_ops \<Rightarrow> ukm_envelope \<Rightarrow> gate_rejection + unit" where
  "verify_signature x e =
     (case to_verifying_key x (ukm_sender e) of
        Inl err \<Rightarrow> Inl (GateInvalidSignature (''bad sender key: '' @ core_error_text err))
      | Inr key \<Rightarrow>
          (case verify_strict x key (signable_bytes e) (sig_bytes (ukm_signature e)) of
             Inl err \<Rightarrow> Inl (GateInvalidSignature err)
           | Inr _ \<Rightarrow> Inr ()))"

text \<open>The signed recipient is a node other than this one.\<close>

fun recipient_mismatch :: "recipient \<Rightarrow> node_id option \<Rightarrow> gate_rejection option" where
  "recipient_mismatch (Node claimed) (Some us) =
     (if claimed \<noteq> us then Some (RecipientMismatch claimed us) else None)"
| "recipient_mismatch _ _ = None"

text \<open>Steps 1, 2, 2.5 and 3 and the recipient binding.\<close>

definition check_envelope ::
  "ext_ops \<Rightarrow> gate_config \<Rightarrow> node_id set option \<Rightarrow> node_id option \<Rightarrow> u64 \<Rightarrow> ukm_envelope
   \<Rightarrow> gate_rejection + unit" where
  "check_envelope x cfg whitelist ours now_ms e =
     (case validate x e of
        Inl err \<Rightarrow> Inl (InvalidEnvelope (core_error_text err))
      | Inr _ \<Rightarrow>
          if (case whitelist of Some allowed \<Rightarrow> ukm_sender e \<notin> allowed | None \<Rightarrow> False)
          then Inl (NotWhitelisted (ukm_sender e))
          else
            let age_ms = sat_sub now_ms (ukm_timestamp e);
                ahead_ms = sat_sub (ukm_timestamp e) now_ms
            in if age_ms > max_message_age_ms cfg
               then Inl (MessageTooOld age_ms (max_message_age_ms cfg))
               else if ahead_ms > max_future_ms cfg
               then Inl (MessageFromFuture ahead_ms (max_future_ms cfg))
               else
                 (case verify_signature x e of
                    Inl r \<Rightarrow> Inl r
                  | Inr _ \<Rightarrow>
                      (case recipient_mismatch (ukm_recipient e) ours of
                         Some r \<Rightarrow> Inl r
                       | None \<Rightarrow> Inr ())))"

definition decode_hex_32 :: "ext_ops \<Rightarrow> string \<Rightarrow> string \<Rightarrow> gate_rejection + bytes" where
  "decode_hex_32 x field v =
     (case hex_decode x v of
        Inl err \<Rightarrow> Inl (PaymentSettlementMismatch (field @ '': invalid hex: '' @ err))
      | Inr b \<Rightarrow>
          if length b = 32 then Inr b
          else Inl (PaymentSettlementMismatch (field @ '': wrong length'')))"

section \<open>Price\<close>

definition gate_price_with_floor :: "gate_config \<Rightarrow> u64 \<Rightarrow> u64" where
  "gate_price_with_floor cfg discounted = price_with_floor_msat discounted (min_admission_cost_msat cfg)"

definition gate_discounted :: "u64 \<Rightarrow> f64 \<Rightarrow> u64" where
  "gate_discounted base_msat trust_discount =
     (let clamped_discount =
            (if f64_is_finite trust_discount
             then f64_clamp trust_discount (F_Fin 0) (F_Fin (1 / 2)) else F_Fin 0)
      in if f64_lt (F_Fin 0) clamped_discount then discount_ceil base_msat clamped_discount
         else base_msat)"

definition verify_price ::
  "gate_config \<Rightarrow> pricing_engine \<Rightarrow> f64 \<Rightarrow> ukm_envelope \<Rightarrow> gate_rejection + u64" where
  "verify_price cfg pricing trust_discount e =
     (case get_price_msat pricing (ukm_kind e) of
        Inl (NotPriceable kind) \<Rightarrow> Inl (KindNotPriceable kind)
      | Inl err \<Rightarrow> Inl (PricingFailed (pricing_error_text err))
      | Inr base_msat \<Rightarrow>
          let required_msat = gate_price_with_floor cfg (gate_discounted base_msat trust_discount);
              paid_msat = amount_msat (ukm_payment_proof e)
          in if paid_msat < required_msat then Inl (InsufficientPayment required_msat paid_msat)
             else Inr required_msat)"

section \<open>Settlement\<close>

definition verify_settlement ::
  "ext_ops \<Rightarrow> lightning_provider \<Rightarrow> u64 \<Rightarrow> node_id option \<Rightarrow> ukm_envelope
   \<Rightarrow> gate_rejection + payment_details" where
  "verify_settlement x backend required_msat ours e =
     (let ph = hex_encode x (payment_hash (ukm_payment_proof e)) in
      case is_funding_payment backend ph of
        Inl err \<Rightarrow> Inl (LightningUnavailable (lightning_error_text err))
      | Inr True \<Rightarrow>
          Inl (PaymentSettlementMismatch ''funding payments cannot admit communication'')
      | Inr False \<Rightarrow>
     (case get_payment_status backend ph of
        Inl err \<Rightarrow> Inl (LightningUnavailable (lightning_error_text err))
      | Inr details \<Rightarrow>
          if pd_status details \<noteq> Settled
          then Inl (PaymentNotSettled (''payment status: '' @ status_debug (pd_status details)))
          else
     (case decode_hex_32 x ''payment_hash'' (pd_payment_hash details) of
        Inl r \<Rightarrow> Inl r
      | Inr returned_hash \<Rightarrow>
          if returned_hash \<noteq> payment_hash (ukm_payment_proof e)
          then Inl (PaymentSettlementMismatch ''backend returned a different payment hash'')
          else if pd_direction details \<noteq> Incoming
          then Inl (PaymentSettlementMismatch ''payment direction is Outgoing, expected incoming'')
          else
     (case recipient_mismatch (ukm_recipient e) ours of
        Some r \<Rightarrow> Inl r
      | None \<Rightarrow>
          if pd_amount_msat details < amount_msat (ukm_payment_proof e)
          then Inl (PaymentSettlementMismatch
                 (''settled amount '' @ show_word (pd_amount_msat details)
                  @ '' msat is below envelope claim ''
                  @ show_word (amount_msat (ukm_payment_proof e)) @ '' msat''))
          else if pd_amount_msat details < required_msat
          then Inl (InsufficientPayment required_msat (pd_amount_msat details))
          else
     (case pd_preimage details of
        None \<Rightarrow> Inl (PaymentSettlementMismatch ''settled payment has no preimage'')
      | Some preimage_hex \<Rightarrow>
     (case decode_hex_32 x ''preimage'' preimage_hex of
        Inl r \<Rightarrow> Inl r
      | Inr returned_preimage \<Rightarrow>
          if returned_preimage \<noteq> preimage (ukm_payment_proof e)
          then Inl (PaymentSettlementMismatch ''backend preimage does not match envelope proof'')
          else Inr details))))))"

section \<open>Web service replies\<close>

definition try_accept_web_service_reply ::
  "ext_ops \<Rightarrow> gate_config \<Rightarrow> 's nonce_store \<Rightarrow> lightning_provider option \<Rightarrow> u64 \<Rightarrow> ukm_envelope \<Rightarrow> 's
   \<Rightarrow> (gate_rejection + bool) \<times> 's" where
  "try_accept_web_service_reply x cfg store lightning now_ms e s =
     (case ns_take_outstanding_web_request store (payment_hash (ukm_payment_proof e)) s of
        (Inl err, s') \<Rightarrow> (Inl (NonceCheckFailed err), s')
      | (Inr None, s') \<Rightarrow> (Inr False, s')
      | (Inr (Some outstanding), s') \<Rightarrow>
          if \<not> reply_matches_outstanding e outstanding now_ms then (Inl WebReplyUnbound, s')
          else if \<not> verify_lightning_settlement cfg then (Inr True, s')
          else
     (case lightning of
        None \<Rightarrow>
          (Inl (LightningUnavailable
             ''web reply binding requires Lightning when settlement verification is on''), s')
      | Some backend \<Rightarrow>
     (case get_payment_status backend (hex_encode x (payment_hash (ukm_payment_proof e))) of
        Inl err \<Rightarrow> (Inl (LightningUnavailable (lightning_error_text err)), s')
      | Inr details \<Rightarrow>
          if pd_status details \<noteq> Settled \<or> pd_direction details \<noteq> Outgoing
          then (Inl WebReplyUnbound, s')
          else
     (case pd_preimage details of
        None \<Rightarrow> (Inl (PaymentSettlementMismatch ''outgoing payment has no preimage''), s')
      | Some preimage_hex \<Rightarrow>
     (case decode_hex_32 x ''preimage'' preimage_hex of
        Inl r \<Rightarrow> (Inl r, s')
      | Inr returned_preimage \<Rightarrow>
          if returned_preimage \<noteq> preimage (ukm_payment_proof e)
          then (Inl (PaymentSettlementMismatch
                 ''web reply preimage does not match our outgoing payment''), s')
          else (Inr True, s'))))))"

section \<open>The verification pipeline\<close>

text \<open>
  Step 5. The result carries the required price and whether settlement was already
  checked on the path of an earlier delivery quote.
\<close>

definition quoted_price ::
  "ext_ops \<Rightarrow> gate_config \<Rightarrow> 's nonce_store option \<Rightarrow> lightning_provider option \<Rightarrow> node_id option
   \<Rightarrow> u64 \<Rightarrow> ukm_envelope \<Rightarrow> 's \<Rightarrow> gate_rejection \<Rightarrow> gate_rejection + u64" where
  "quoted_price x cfg receipts lightning ours now_ms e s rejection =
     (if amount_msat (ukm_payment_proof e) = 0 then Inl rejection
      else
        (case (receipts, lightning, verify_lightning_settlement cfg) of
           (Some store, Some backend, True) \<Rightarrow>
             (case verify_settlement x backend 1 ours e of
                Inl r \<Rightarrow> Inl r
              | Inr settled \<Rightarrow>
                  (case ns_delivery_price_floor store e (pd_timestamp settled) (now_ms div 1000) s of
                     Inl err \<Rightarrow> Inl (NonceCheckFailed err)
                   | Inr None \<Rightarrow> Inl rejection
                   | Inr (Some price) \<Rightarrow>
                       let required = gate_price_with_floor cfg price
                       in if amount_msat (ukm_payment_proof e) < required
                             \<or> pd_amount_msat settled < required
                          then Inl rejection else Inr required))
         | _ \<Rightarrow> Inl rejection))"

definition resolve_price ::
  "ext_ops \<Rightarrow> gate_config \<Rightarrow> pricing_engine \<Rightarrow> 's nonce_store option \<Rightarrow> lightning_provider option
   \<Rightarrow> f64 \<Rightarrow> node_id option \<Rightarrow> u64 \<Rightarrow> ukm_envelope \<Rightarrow> 's \<Rightarrow> gate_rejection + (u64 \<times> bool)" where
  "resolve_price x cfg pricing receipts lightning discount ours now_ms e s =
     (case verify_price cfg pricing discount e of
        Inr required \<Rightarrow> Inr (required, False)
      | Inl (InsufficientPayment r p) \<Rightarrow>
          (case quoted_price x cfg receipts lightning ours now_ms e s (InsufficientPayment r p) of
             Inl rejection \<Rightarrow> Inl rejection
           | Inr required \<Rightarrow> Inr (required, True))
      | Inl rejection \<Rightarrow> Inl rejection)"

text \<open>Steps 5 and 6.\<close>

definition check_payment ::
  "ext_ops \<Rightarrow> gate_config \<Rightarrow> pricing_engine \<Rightarrow> 's nonce_store option \<Rightarrow> lightning_provider option
   \<Rightarrow> f64 \<Rightarrow> node_id option \<Rightarrow> u64 \<Rightarrow> ukm_envelope \<Rightarrow> 's \<Rightarrow> gate_rejection + bool" where
  "check_payment x cfg pricing receipts lightning discount ours now_ms e s =
     (case resolve_price x cfg pricing receipts lightning discount ours now_ms e s of
        Inl r \<Rightarrow> Inl r
      | Inr (required_msat, settlement_checked) \<Rightarrow>
          if verify_lightning_settlement cfg \<and> \<not> settlement_checked
          then (case lightning of
                  Some backend \<Rightarrow>
                    (case verify_settlement x backend required_msat ours e of
                       Inl r \<Rightarrow> Inl r
                     | Inr _ \<Rightarrow> Inr False)
                | None \<Rightarrow>
                    Inl (LightningUnavailable
                      ''settlement verification enabled but no Lightning provider''))
          else Inr False)"

text \<open>Step 4.5 followed by steps 5 and 6.\<close>

definition reply_or_payment ::
  "ext_ops \<Rightarrow> gate_config \<Rightarrow> pricing_engine \<Rightarrow> 's nonce_store option \<Rightarrow> lightning_provider option
   \<Rightarrow> f64 \<Rightarrow> node_id option \<Rightarrow> u64 \<Rightarrow> ukm_envelope \<Rightarrow> 's \<Rightarrow> (gate_rejection + bool) \<times> 's" where
  "reply_or_payment x cfg pricing receipts lightning discount ours now_ms e s =
     (case (if is_web_service_reply e then receipts else None) of
        None \<Rightarrow> (check_payment x cfg pricing receipts lightning discount ours now_ms e s, s)
      | Some store \<Rightarrow>
          (case try_accept_web_service_reply x cfg store lightning now_ms e s of
             (Inl r, s') \<Rightarrow> (Inl r, s')
           | (Inr True, s') \<Rightarrow> (Inr False, s')
           | (Inr False, s') \<Rightarrow>
               (check_payment x cfg pricing receipts lightning discount ours now_ms e s', s')))"

definition validate_paid_envelope_inner ::
  "ext_ops \<Rightarrow> gate_config \<Rightarrow> pricing_engine \<Rightarrow> node_id set option \<Rightarrow> lightning_provider option \<Rightarrow> f64
   \<Rightarrow> node_id option \<Rightarrow> 's nonce_store option \<Rightarrow> u64 \<Rightarrow> ukm_envelope \<Rightarrow> 's
   \<Rightarrow> (gate_rejection + bool) \<times> 's" where
  "validate_paid_envelope_inner x cfg pricing whitelist lightning discount ours receipts now_ms e s =
     (case check_envelope x cfg whitelist ours now_ms e of
        Inl r \<Rightarrow> (Inl r, s)
      | Inr _ \<Rightarrow>
          (case receipts of
             None \<Rightarrow> reply_or_payment x cfg pricing receipts lightning discount ours now_ms e s
           | Some store \<Rightarrow>
               (case ns_is_paid_envelope_accepted store e s of
                  (Inl err, s') \<Rightarrow> (Inl (NonceCheckFailed err), s')
                | (Inr True, s') \<Rightarrow> (Inr True, s')
                | (Inr False, s') \<Rightarrow>
                    reply_or_payment x cfg pricing receipts lightning discount ours now_ms e s')))"

definition validate_paid_envelope ::
  "ext_ops \<Rightarrow> gate_config \<Rightarrow> pricing_engine \<Rightarrow> node_id set option \<Rightarrow> lightning_provider option \<Rightarrow> f64
   \<Rightarrow> node_id option \<Rightarrow> u64 \<Rightarrow> ukm_envelope \<Rightarrow> gate_rejection + unit" where
  "validate_paid_envelope x cfg pricing whitelist lightning discount ours now_ms e =
     (case validate_paid_envelope_inner x cfg pricing whitelist lightning discount ours
             (None :: unit nonce_store option) now_ms e () of
        (Inl r, _) \<Rightarrow> Inl r
      | (Inr _, _) \<Rightarrow> Inr ())"

definition validate_received_paid_envelope ::
  "ext_ops \<Rightarrow> gate_config \<Rightarrow> pricing_engine \<Rightarrow> node_id set option \<Rightarrow> lightning_provider option \<Rightarrow> f64
   \<Rightarrow> node_id option \<Rightarrow> 's nonce_store \<Rightarrow> u64 \<Rightarrow> ukm_envelope \<Rightarrow> 's \<Rightarrow> (gate_rejection + bool) \<times> 's" where
  "validate_received_paid_envelope x cfg pricing whitelist lightning discount ours store now_ms e s =
     validate_paid_envelope_inner x cfg pricing whitelist lightning discount ours (Some store)
       now_ms e s"

definition verify ::
  "ext_ops \<Rightarrow> gate_config \<Rightarrow> pricing_engine \<Rightarrow> node_id set option \<Rightarrow> lightning_provider option \<Rightarrow> f64
   \<Rightarrow> node_id option \<Rightarrow> 's nonce_store \<Rightarrow> u64 \<Rightarrow> ukm_envelope \<Rightarrow> 's \<Rightarrow> (gate_rejection + unit) \<times> 's" where
  "verify x cfg pricing whitelist lightning discount ours store now_ms e s =
     (case validate_paid_envelope_inner x cfg pricing whitelist lightning discount ours (Some store)
             now_ms e s of
        (Inl r, s') \<Rightarrow> (Inl r, s')
      | (Inr _, s') \<Rightarrow>
          (case ns_check_and_store_paid store (ukm_nonce e) (payment_hash (ukm_payment_proof e))
                  (ukm_sender e) (ukm_id e) s' of
             (Inl err, s'') \<Rightarrow> (Inl (NonceCheckFailed err), s'')
           | (Inr ReplayAccepted, s'') \<Rightarrow> (Inr (), s'')
           | (Inr ReplayNonceReused, s'') \<Rightarrow> (Inl ReplayDetected, s'')
           | (Inr ReplayPaymentReused, s'') \<Rightarrow>
               (Inl (PaymentProofReused
                  (hex_encode x (payment_hash (ukm_payment_proof e)))), s'')))"

section \<open>The store behind the gate\<close>

definition error_text :: "storage_error + 'a \<Rightarrow> string + 'a" where
  "error_text r = (case r of Inl err \<Rightarrow> Inl (storage_error_text err) | Inr a \<Rightarrow> Inr a)"

text \<open>\<open>StorageNonceAdapter\<close> over the SQLite store; \<open>now\<close> is the clock of the insertions.\<close>

definition sqlite_nonce_store :: "ext_ops \<Rightarrow> int \<Rightarrow> db nonce_store" where
  "sqlite_nonce_store x now =
     \<lparr> ns_delivery_price_floor =
         (\<lambda>e paid_at t d. error_text (delivery_price_floor x e paid_at t d)),
       ns_is_paid_envelope_accepted =
         (\<lambda>e d. apfst error_text (is_paid_envelope_accepted x e d)),
       ns_check_and_store_paid =
         (\<lambda>n h sender mid d. apfst error_text (store_paid_nonce x now n h sender mid d)),
       ns_take_outstanding_web_request =
         (\<lambda>h d. apfst error_text (take_outstanding_web_request x h d)) \<rparr>"

definition hash_used :: "ext_ops \<Rightarrow> db \<Rightarrow> bytes set" where
  "hash_used x d = {h. db_receipts d (hex_encode x h) \<noteq> None}"

definition nonce_used :: "ext_ops \<Rightarrow> db \<Rightarrow> nonce set" where
  "nonce_used x d = {n. db_nonces d (hex_encode x (nonce_bytes n)) \<noteq> None}"

definition reply_expected :: "ext_ops \<Rightarrow> db \<Rightarrow> bytes set" where
  "reply_expected x d = {h. db_web d (hex_encode x h) \<noteq> None}"

section \<open>What admission means\<close>

text \<open>The conditions of the stateless checks, over unbounded numbers.\<close>

definition authentic ::
  "ext_ops \<Rightarrow> gate_config \<Rightarrow> node_id set option \<Rightarrow> node_id option \<Rightarrow> u64 \<Rightarrow> ukm_envelope \<Rightarrow> bool" where
  "authentic x cfg whitelist ours now_ms e \<longleftrightarrow>
     ukm_id e = message_id_compute x (ukm_ciphertext e) (ukm_nonce e)
     \<and> ukm_ciphertext e \<noteq> [] \<and> length (ukm_references e) \<le> MAX_MESSAGE_REFERENCES
     \<and> payment_hash (ukm_payment_proof e) = sha256 x (preimage (ukm_payment_proof e))
     \<and> (\<forall>allowed. whitelist = Some allowed \<longrightarrow> ukm_sender e \<in> allowed)
     \<and> unat now_ms \<le> unat (ukm_timestamp e) + unat (max_message_age_ms cfg)
     \<and> unat (ukm_timestamp e) \<le> unat now_ms + unat (max_future_ms cfg)
     \<and> (\<exists>key. vk_from_bytes x (nid_bytes (ukm_sender e)) = Inr key
           \<and> verify_strict x key (signable_bytes e) (sig_bytes (ukm_signature e)) = Inr ())
     \<and> (\<forall>claimed us. ukm_recipient e = Node claimed \<and> ours = Some us \<longrightarrow> claimed = us)"

text \<open>The backend reports an incoming settled payment that carries this envelope's proof.\<close>

definition settled_incoming ::
  "ext_ops \<Rightarrow> lightning_provider \<Rightarrow> u64 \<Rightarrow> ukm_envelope \<Rightarrow> payment_details \<Rightarrow> bool" where
  "settled_incoming x backend required e details \<longleftrightarrow>
     (let ph = hex_encode x (payment_hash (ukm_payment_proof e))
      in is_funding_payment backend ph = Inr False \<and> get_payment_status backend ph = Inr details)
     \<and> pd_status details = Settled \<and> pd_direction details = Incoming
     \<and> hex_decode x (pd_payment_hash details) = Inr (payment_hash (ukm_payment_proof e))
     \<and> length (payment_hash (ukm_payment_proof e)) = 32
     \<and> amount_msat (ukm_payment_proof e) \<le> pd_amount_msat details
     \<and> required \<le> pd_amount_msat details
     \<and> (\<exists>hex. pd_preimage details = Some hex
           \<and> hex_decode x hex = Inr (preimage (ukm_payment_proof e)))
     \<and> length (preimage (ukm_payment_proof e)) = 32"

text \<open>A price that covers the envelope: today's, or an offer valid when it was paid.\<close>

definition price_due ::
  "gate_config \<Rightarrow> pricing_engine \<Rightarrow> 's nonce_store option \<Rightarrow> f64 \<Rightarrow> u64 \<Rightarrow> ukm_envelope \<Rightarrow> 's \<Rightarrow> u64
   \<Rightarrow> bool" where
  "price_due cfg pricing receipts discount now_ms e s required \<longleftrightarrow>
     (\<exists>base. get_price_msat pricing (ukm_kind e) = Inr base
        \<and> required = gate_price_with_floor cfg (gate_discounted base discount))
     \<or> (\<exists>store paid_at price. receipts = Some store
          \<and> ns_delivery_price_floor store e paid_at (now_ms div 1000) s = Inr (Some price)
          \<and> required = gate_price_with_floor cfg price)"

definition paid_for ::
  "ext_ops \<Rightarrow> gate_config \<Rightarrow> pricing_engine \<Rightarrow> 's nonce_store option \<Rightarrow> lightning_provider option
   \<Rightarrow> f64 \<Rightarrow> u64 \<Rightarrow> ukm_envelope \<Rightarrow> 's \<Rightarrow> bool" where
  "paid_for x cfg pricing receipts lightning discount now_ms e s \<longleftrightarrow>
     (\<exists>required. price_due cfg pricing receipts discount now_ms e s required
        \<and> 1000 \<le> required \<and> min_admission_cost_msat cfg \<le> required
        \<and> required \<le> amount_msat (ukm_payment_proof e)
        \<and> (verify_lightning_settlement cfg \<longrightarrow>
             (\<exists>backend details. lightning = Some backend
                \<and> settled_incoming x backend required e details)))"

text \<open>A reply to a web request this node paid for.\<close>

definition reply_bound ::
  "ext_ops \<Rightarrow> gate_config \<Rightarrow> 's nonce_store \<Rightarrow> lightning_provider option \<Rightarrow> u64 \<Rightarrow> ukm_envelope \<Rightarrow> 's
   \<Rightarrow> bool" where
  "reply_bound x cfg store lightning now_ms e s \<longleftrightarrow>
     is_web_service_reply e
     \<and> (\<exists>outstanding s'. ns_take_outstanding_web_request store (payment_hash (ukm_payment_proof e)) s
            = (Inr (Some outstanding), s')
          \<and> reply_matches_outstanding e outstanding now_ms)
     \<and> (verify_lightning_settlement cfg \<longrightarrow>
          (\<exists>backend details hex. lightning = Some backend
             \<and> get_payment_status backend (hex_encode x (payment_hash (ukm_payment_proof e)))
                 = Inr details
             \<and> pd_status details = Settled \<and> pd_direction details = Outgoing
             \<and> pd_preimage details = Some hex
             \<and> hex_decode x hex = Inr (preimage (ukm_payment_proof e))))"

text \<open>
  The gate under concurrency. A request first validates, which may read and bind
  receipts and consume a web request, and commits its replay keys in a later step; other
  requests, and the store's other operations \<open>other\<close>, may run in between. Each step
  reads the clock of the store for itself. The history
  lists the committed payment hashes, most recent first.
\<close>

record 's gate_sys =
  gs_store :: 's
  gs_validated :: "ukm_envelope list"
  gs_admitted :: "bytes list"

inductive gate_step ::
  "ext_ops \<Rightarrow> (int \<Rightarrow> 's nonce_store) \<Rightarrow> ('s \<Rightarrow> 's \<Rightarrow> bool) \<Rightarrow> 's gate_sys \<Rightarrow> 's gate_sys \<Rightarrow> bool"
  for x :: ext_ops and store :: "int \<Rightarrow> 's nonce_store" and other :: "'s \<Rightarrow> 's \<Rightarrow> bool" where
  gate_validate:
    "validate_paid_envelope_inner x cfg pricing whitelist lightning discount ours (Some (store t)) now_ms
       e (gs_store g) = (Inr dup, s') \<Longrightarrow>
     gate_step x store other g (g \<lparr> gs_store := s', gs_validated := e # gs_validated g \<rparr>)"
| gate_refuse:
    "validate_paid_envelope_inner x cfg pricing whitelist lightning discount ours (Some (store t)) now_ms
       e (gs_store g) = (Inl r, s') \<Longrightarrow>
     gate_step x store other g (g \<lparr> gs_store := s' \<rparr>)"
| gate_commit:
    "e \<in> set (gs_validated g) \<Longrightarrow>
     ns_check_and_store_paid (store t) (ukm_nonce e) (payment_hash (ukm_payment_proof e)) (ukm_sender e)
       (ukm_id e) (gs_store g) = (out, s') \<Longrightarrow>
     gate_step x store other g
       (g \<lparr> gs_store := s', gs_validated := remove1 e (gs_validated g),
            gs_admitted := (if out = Inr ReplayAccepted
                            then payment_hash (ukm_payment_proof e) # gs_admitted g
                            else gs_admitted g) \<rparr>)"
| gate_other: "other (gs_store g) s' \<Longrightarrow> gate_step x store other g (g \<lparr> gs_store := s' \<rparr>)"

inductive_cases gate_stepE: "gate_step x store other g g'"

section \<open>Samples\<close>

abbreviation sample_verify :: "(gate_rejection + unit) \<times> db" where
  "sample_verify \<equiv>
     verify sample_ops default_gate_config (static_engine default_static_config) None None (F_Fin 0)
       (Some (sample_node 2)) (sqlite_nonce_store sample_ops 7) 1000500 (sample_envelope 0 1000) db_empty"

section \<open>Facts\<close>

lemma service_purpose_roundtrip: "parse_service_invoice_purpose (service_invoice_purpose kind) = Some kind"
proof -
  have "length (show_word kind) \<le> 5"
    using length_show_nat_le [of "unat kind" 4] unat_lt_pow [of kind] by (simp add: show_word_def)
  moreover have "list_all (\<lambda>c. digit_val c \<noteq> None) (show_word kind)"
    using digit_val_set_show_nat by (auto simp: list_all_iff show_word_def)
  ultimately show ?thesis
    using parse_word_show_word [of kind]
    by (auto simp: parse_service_invoice_purpose_def service_invoice_purpose_def strip_prefix_append
        parse_word_def split: if_splits)
qed

lemma recipient_mismatch_None:
  "recipient_mismatch r ours = None \<longleftrightarrow> (\<forall>claimed us. r = Node claimed \<and> ours = Some us \<longrightarrow> claimed = us)"
  by (cases "(r, ours)" rule: recipient_mismatch.cases) auto

lemma sat_sub_le_iff: "sat_sub a b \<le> c \<longleftrightarrow> unat a \<le> unat b + unat c" for a b c :: "'a::len word"
  by (simp add: word_le_nat_alt word_nat) linarith

lemma verify_signature_Inr:
  "verify_signature x e = Inr () \<longleftrightarrow>
     (\<exists>key. vk_from_bytes x (nid_bytes (ukm_sender e)) = Inr key
        \<and> verify_strict x key (signable_bytes e) (sig_bytes (ukm_signature e)) = Inr ())"
  by (auto simp: verify_signature_def to_verifying_key_def split: sum.splits)

lemma check_envelope_Inr:
  "check_envelope x cfg whitelist ours now_ms e = Inr () \<longleftrightarrow> authentic x cfg whitelist ours now_ms e"
proof -
  have "check_envelope x cfg whitelist ours now_ms e = Inr () \<longleftrightarrow>
      validate x e = Inr () \<and> (\<forall>allowed. whitelist = Some allowed \<longrightarrow> ukm_sender e \<in> allowed)
      \<and> sat_sub now_ms (ukm_timestamp e) \<le> max_message_age_ms cfg
      \<and> sat_sub (ukm_timestamp e) now_ms \<le> max_future_ms cfg
      \<and> verify_signature x e = Inr () \<and> recipient_mismatch (ukm_recipient e) ours = None"
    by (auto simp: check_envelope_def Let_def not_less split: sum.splits option.splits)
  then show ?thesis
    by (auto simp: authentic_def validate_Inr sat_sub_le_iff verify_signature_Inr
        recipient_mismatch_None)
qed

lemma gate_price_with_floor_ge:
  "price \<le> gate_price_with_floor cfg price" "1000 \<le> gate_price_with_floor cfg price"
  "min_admission_cost_msat cfg \<le> gate_price_with_floor cfg price"
  by (simp_all add: gate_price_with_floor_def price_with_floor_ge)

lemma verify_price_Inr:
  "verify_price cfg pricing discount e = Inr required \<longleftrightarrow>
     (\<exists>base. get_price_msat pricing (ukm_kind e) = Inr base
        \<and> required = gate_price_with_floor cfg (gate_discounted base discount))
     \<and> required \<le> amount_msat (ukm_payment_proof e)"
  by (auto simp: verify_price_def Let_def not_less split: sum.splits pricing_error.splits if_splits)

lemma decode_hex_32_Inr:
  "decode_hex_32 x field v = Inr b \<longleftrightarrow> hex_decode x v = Inr b \<and> length b = 32"
  by (auto simp: decode_hex_32_def split: sum.splits)

lemma verify_settlement_Inr:
  assumes "verify_settlement x backend required ours e = Inr details"
  shows "settled_incoming x backend required e details"
    and "recipient_mismatch (ukm_recipient e) ours = None"
  using assms
  by (auto simp: verify_settlement_def settled_incoming_def Let_def decode_hex_32_Inr not_less
      split: sum.splits option.splits bool.splits if_splits)

lemma verify_settlement_complete:
  assumes "settled_incoming x backend required e details"
    and "recipient_mismatch (ukm_recipient e) ours = None"
  shows "verify_settlement x backend required ours e = Inr details"
  using assms
  by (auto simp: verify_settlement_def settled_incoming_def Let_def decode_hex_32_def not_less)

lemma resolve_price_Inr:
  assumes "resolve_price x cfg pricing receipts lightning discount ours now_ms e s = Inr (required, checked)"
  shows "price_due cfg pricing receipts discount now_ms e s required"
    and "required \<le> amount_msat (ukm_payment_proof e)"
    and "checked \<Longrightarrow> \<exists>backend details. lightning = Some backend
           \<and> settled_incoming x backend required e details"
proof -
  show "price_due cfg pricing receipts discount now_ms e s required"
    using assms
    by (auto simp: resolve_price_def quoted_price_def price_due_def verify_price_Inr Let_def
        split: sum.splits gate_rejection.splits option.splits bool.splits if_splits)
  show "required \<le> amount_msat (ukm_payment_proof e)"
    using assms
    by (auto simp: resolve_price_def quoted_price_def verify_price_Inr Let_def
        split: sum.splits gate_rejection.splits option.splits bool.splits if_splits)
  assume checked
  with assms show "\<exists>backend details. lightning = Some backend
      \<and> settled_incoming x backend required e details"
    by (fastforce simp: resolve_price_def quoted_price_def Let_def settled_incoming_def
        dest: verify_settlement_Inr(1)
        split: sum.splits gate_rejection.splits option.splits bool.splits if_splits)
qed

lemma check_payment_Inr:
  assumes "check_payment x cfg pricing receipts lightning discount ours now_ms e s = Inr dup"
  shows "\<not> dup" and "paid_for x cfg pricing receipts lightning discount now_ms e s"
proof -
  show "\<not> dup"
    using assms by (auto simp: check_payment_def split: sum.splits if_splits option.splits prod.splits)
  obtain required checked where rp:
      "resolve_price x cfg pricing receipts lightning discount ours now_ms e s = Inr (required, checked)"
    using assms by (auto simp: check_payment_def split: sum.splits)
  note facts = resolve_price_Inr [OF rp]
  have "\<exists>backend details. lightning = Some backend \<and> settled_incoming x backend required e details"
    if "verify_lightning_settlement cfg"
  proof (cases checked)
    case True
    then show ?thesis by (rule facts(3))
  next
    case False
    with that rp assms show ?thesis
      by (auto simp: check_payment_def split: sum.splits option.splits dest: verify_settlement_Inr)
  qed
  moreover have "1000 \<le> required" "min_admission_cost_msat cfg \<le> required"
    using facts(1) by (auto simp: price_due_def gate_price_with_floor_ge)
  ultimately show "paid_for x cfg pricing receipts lightning discount now_ms e s"
    using facts unfolding paid_for_def by blast
qed

lemma try_accept_True:
  assumes "try_accept_web_service_reply x cfg store lightning now_ms e s = (Inr True, s')"
    and "is_web_service_reply e"
  shows "reply_bound x cfg store lightning now_ms e s"
  using assms
  by (auto simp: try_accept_web_service_reply_def reply_bound_def decode_hex_32_Inr
      split: prod.splits sum.splits option.splits if_splits)

lemma try_accept_state:
  "snd (try_accept_web_service_reply x cfg store lightning now_ms e s)
     = snd (ns_take_outstanding_web_request store (payment_hash (ukm_payment_proof e)) s)"
  by (auto simp: try_accept_web_service_reply_def split: prod.splits sum.splits option.splits)

lemma try_accept_False:
  assumes "try_accept_web_service_reply x cfg store lightning now_ms e s = (Inr False, s')"
  shows "ns_take_outstanding_web_request store (payment_hash (ukm_payment_proof e)) s = (Inr None, s')"
  using assms
  by (auto simp: try_accept_web_service_reply_def
      split: prod.splits sum.splits option.splits if_splits)

section \<open>The store contract\<close>

locale paid_store =
  fixes store :: "int \<Rightarrow> 's nonce_store" and other :: "'s \<Rightarrow> 's \<Rightarrow> bool"
    and hashes :: "'s \<Rightarrow> bytes set" and nonces :: "'s \<Rightarrow> nonce set" and expected :: "'s \<Rightarrow> bytes set"
  assumes accepted_used:
      "ns_is_paid_envelope_accepted (store t) e s = (Inr True, s') \<Longrightarrow>
       payment_hash (ukm_payment_proof e) \<in> hashes s"
    and accepted_keeps:
      "ns_is_paid_envelope_accepted (store t) e s = (r, s') \<Longrightarrow>
       hashes s' = hashes s \<and> nonces s' = nonces s \<and> expected s' = expected s"
    and accepted_no: "ns_is_paid_envelope_accepted (store t) e s = (Inr False, s') \<Longrightarrow> s' = s"
    and take_none: "ns_take_outstanding_web_request (store t) h s = (Inr None, s') \<Longrightarrow> s' = s"
    and take_keeps:
      "ns_take_outstanding_web_request (store t) h s = (w, s') \<Longrightarrow>
       hashes s' = hashes s \<and> nonces s' = nonces s \<and> expected s' \<subseteq> expected s \<and> h \<notin> expected s'"
    and take_expected:
      "ns_take_outstanding_web_request (store t) h s = (Inr (Some out), s') \<Longrightarrow> h \<in> expected s"
    and commit_new:
      "ns_check_and_store_paid (store t) n h sender mid s = (Inr ReplayAccepted, s') \<Longrightarrow>
       h \<notin> hashes s \<and> n \<notin> nonces s \<and> insert h (hashes s) \<subseteq> hashes s'
       \<and> insert n (nonces s) \<subseteq> nonces s' \<and> expected s' = expected s"
    and commit_keeps:
      "ns_check_and_store_paid (store t) n h sender mid s = (c, s') \<Longrightarrow> c \<noteq> Inr ReplayAccepted \<Longrightarrow> s' = s"
    and commit_fresh:
      "h \<notin> hashes s \<Longrightarrow> n \<notin> nonces s \<Longrightarrow>
       fst (ns_check_and_store_paid (store t) n h sender mid s) = Inr ReplayAccepted"
    and other_keeps: "other s s' \<Longrightarrow> hashes s \<subseteq> hashes s'"
begin

lemma reply_or_payment_keeps:
  assumes "reply_or_payment x cfg pricing (Some (store t)) lightning discount ours now_ms e s = (r, s')"
  shows "hashes s' = hashes s \<and> nonces s' = nonces s"
proof (cases "is_web_service_reply e")
  case True
  have "s' = snd (try_accept_web_service_reply x cfg (store t) lightning now_ms e s)"
    using assms True by (auto simp: reply_or_payment_def split: prod.splits sum.splits bool.splits)
  then show ?thesis
    using take_keeps [of t "payment_hash (ukm_payment_proof e)" s] by (metis try_accept_state prod.collapse)
next
  case False
  with assms show ?thesis by (simp add: reply_or_payment_def)
qed

lemma inner_keeps:
  assumes "validate_paid_envelope_inner x cfg pricing whitelist lightning discount ours (Some (store t))
             now_ms e s = (r, s')"
  shows "hashes s' = hashes s \<and> nonces s' = nonces s"
proof -
  obtain a s1 where a: "ns_is_paid_envelope_accepted (store t) e s = (a, s1)"
    by (cases "ns_is_paid_envelope_accepted (store t) e s")
  have "s' = s \<or> s' = s1
      \<or> reply_or_payment x cfg pricing (Some (store t)) lightning discount ours now_ms e s1 = (r, s')"
    using assms a by (auto simp: validate_paid_envelope_inner_def split: sum.splits bool.splits)
  then show ?thesis
    using accepted_keeps [OF a] reply_or_payment_keeps by metis
qed

lemma inner_duplicate:
  assumes "validate_paid_envelope_inner x cfg pricing whitelist lightning discount ours (Some (store t))
             now_ms e s = (Inr True, s')"
  shows "payment_hash (ukm_payment_proof e) \<in> hashes s"
proof -
  obtain a s1 where a: "ns_is_paid_envelope_accepted (store t) e s = (a, s1)"
    by (cases "ns_is_paid_envelope_accepted (store t) e s")
  have "a = Inr True"
    using assms a
    by (auto simp: validate_paid_envelope_inner_def reply_or_payment_def
        dest: check_payment_Inr(1) split: sum.splits bool.splits option.splits if_splits prod.splits)
  with a show ?thesis using accepted_used by blast
qed

lemma reply_or_payment_Inr:
  assumes "reply_or_payment x cfg pricing (Some (store t)) lightning discount ours now_ms e s = (Inr dup, s')"
  shows "paid_for x cfg pricing (Some (store t)) lightning discount now_ms e s
    \<or> reply_bound x cfg (store t) lightning now_ms e s"
proof (cases "is_web_service_reply e")
  case False
  with assms show ?thesis using check_payment_Inr(2) by (auto simp: reply_or_payment_def)
next
  case True
  obtain w s1 where t: "try_accept_web_service_reply x cfg (store t) lightning now_ms e s = (w, s1)"
    by (cases "try_accept_web_service_reply x cfg (store t) lightning now_ms e s")
  show ?thesis
  proof (cases "w = Inr True")
    case True
    with t have "try_accept_web_service_reply x cfg (store t) lightning now_ms e s = (Inr True, s1)" by simp
    from try_accept_True [OF this] show ?thesis using \<open>is_web_service_reply e\<close> by simp
  next
    case False
    then have "w = Inr False" and c: "check_payment x cfg pricing (Some (store t)) lightning discount ours
        now_ms e s1 = Inr dup"
      using assms t True by (auto simp: reply_or_payment_def split: sum.splits bool.splits)
    then have "s1 = s" using t try_accept_False take_none by metis
    with check_payment_Inr(2) [OF c] show ?thesis by simp
  qed
qed

lemma inner_Inr:
  assumes "validate_paid_envelope_inner x cfg pricing whitelist lightning discount ours (Some (store t))
             now_ms e s = (Inr dup, s')"
  shows "authentic x cfg whitelist ours now_ms e"
    and "dup \<or> paid_for x cfg pricing (Some (store t)) lightning discount now_ms e s
           \<or> reply_bound x cfg (store t) lightning now_ms e s"
proof -
  have "check_envelope x cfg whitelist ours now_ms e = Inr ()"
    using assms by (auto simp: validate_paid_envelope_inner_def split: sum.splits)
  then show "authentic x cfg whitelist ours now_ms e" by (simp add: check_envelope_Inr)
  obtain a s1 where a: "ns_is_paid_envelope_accepted (store t) e s = (a, s1)"
    by (cases "ns_is_paid_envelope_accepted (store t) e s")
  have "dup \<or> a = Inr False
      \<and> reply_or_payment x cfg pricing (Some (store t)) lightning discount ours now_ms e s1 = (Inr dup, s')"
    using assms a by (auto simp: validate_paid_envelope_inner_def split: sum.splits bool.splits)
  then show "dup \<or> paid_for x cfg pricing (Some (store t)) lightning discount now_ms e s
      \<or> reply_bound x cfg (store t) lightning now_ms e s"
    using a accepted_no [of t e s s1] reply_or_payment_Inr by blast
qed

lemma verify_Inr:
  assumes "verify x cfg pricing whitelist lightning discount ours (store t) now_ms e s = (Inr (), s')"
  shows "authentic x cfg whitelist ours now_ms e"
    and "paid_for x cfg pricing (Some (store t)) lightning discount now_ms e s
           \<or> reply_bound x cfg (store t) lightning now_ms e s"
    and "payment_hash (ukm_payment_proof e) \<in> hashes s' - hashes s"
    and "ukm_nonce e \<in> nonces s' - nonces s"
proof -
  obtain dup s1 where i: "validate_paid_envelope_inner x cfg pricing whitelist lightning discount ours
        (Some (store t)) now_ms e s = (Inr dup, s1)"
      and c: "ns_check_and_store_paid (store t) (ukm_nonce e) (payment_hash (ukm_payment_proof e))
        (ukm_sender e) (ukm_id e) s1 = (Inr ReplayAccepted, s')"
    using assms by (auto simp: verify_def split: prod.splits sum.splits paid_replay.splits)
  show keys: "payment_hash (ukm_payment_proof e) \<in> hashes s' - hashes s"
      "ukm_nonce e \<in> nonces s' - nonces s"
    using commit_new [OF c] inner_keeps [OF i] by auto
  then have "\<not> dup" using i inner_duplicate by (cases dup) auto
  with inner_Inr [OF i] show "authentic x cfg whitelist ours now_ms e"
    "paid_for x cfg pricing (Some (store t)) lightning discount now_ms e s
      \<or> reply_bound x cfg (store t) lightning now_ms e s"
    by simp_all
qed

lemma verify_Inl:
  assumes "verify x cfg pricing whitelist lightning discount ours (store t) now_ms e s = (Inl r, s')"
  shows "hashes s' = hashes s \<and> nonces s' = nonces s"
proof -
  obtain i s1 where i: "validate_paid_envelope_inner x cfg pricing whitelist lightning discount ours
        (Some (store t)) now_ms e s = (i, s1)"
    by (cases "validate_paid_envelope_inner x cfg pricing whitelist lightning discount ours
        (Some (store t)) now_ms e s")
  have "s' = s1 \<or> (\<exists>out. out \<noteq> Inr ReplayAccepted
      \<and> ns_check_and_store_paid (store t) (ukm_nonce e) (payment_hash (ukm_payment_proof e))
          (ukm_sender e) (ukm_id e) s1 = (out, s'))"
    using assms i by (auto simp: verify_def split: prod.splits sum.splits paid_replay.splits)
  then have "s' = s1" using commit_keeps by blast
  with i show ?thesis using inner_keeps by blast
qed

text \<open>Liveness: a fresh, authentic envelope that pays today's price is admitted.\<close>

lemma verify_admits:
  assumes "authentic x cfg whitelist ours now_ms e" and "\<not> is_web_service_reply e"
    and "ns_is_paid_envelope_accepted (store t) e s = (Inr False, s)"
    and "get_price_msat pricing (ukm_kind e) = Inr base"
    and "gate_price_with_floor cfg (gate_discounted base discount) \<le> amount_msat (ukm_payment_proof e)"
    and "verify_lightning_settlement cfg \<Longrightarrow> \<exists>backend details. lightning = Some backend
           \<and> settled_incoming x backend (gate_price_with_floor cfg (gate_discounted base discount)) e
               details"
    and "payment_hash (ukm_payment_proof e) \<notin> hashes s" and "ukm_nonce e \<notin> nonces s"
  shows "fst (verify x cfg pricing whitelist lightning discount ours (store t) now_ms e s) = Inr ()"
proof -
  let ?req = "gate_price_with_floor cfg (gate_discounted base discount)"
  have p: "verify_price cfg pricing discount e = Inr ?req"
    using assms by (simp add: verify_price_Inr)
  have "recipient_mismatch (ukm_recipient e) ours = None"
    using assms(1) by (simp add: authentic_def recipient_mismatch_None)
  then have "check_payment x cfg pricing (Some (store t)) lightning discount ours now_ms e s = Inr False"
    using assms(6) p verify_settlement_complete
    by (fastforce simp: check_payment_def resolve_price_def)
  then have "validate_paid_envelope_inner x cfg pricing whitelist lightning discount ours (Some (store t))
      now_ms e s = (Inr False, s)"
    using assms by (simp add: validate_paid_envelope_inner_def reply_or_payment_def
        check_envelope_Inr [symmetric])
  moreover have "fst (ns_check_and_store_paid (store t) (ukm_nonce e) (payment_hash (ukm_payment_proof e))
      (ukm_sender e) (ukm_id e) s) = Inr ReplayAccepted"
    using assms by (intro commit_fresh)
  ultimately show ?thesis by (auto simp: verify_def split: prod.splits)
qed

text \<open>Under any interleaving a payment hash is committed at most once.\<close>

lemma gate_step_inv:
  assumes "gate_step x store other g g'" "distinct (gs_admitted g)"
    "set (gs_admitted g) \<subseteq> hashes (gs_store g)"
  shows "distinct (gs_admitted g') \<and> set (gs_admitted g') \<subseteq> hashes (gs_store g')"
  using assms(1)
proof cases
  case (gate_validate cfg pricing whitelist lightning discount ours t now_ms e dup s')
  with assms(2,3) inner_keeps [OF gate_validate(2)] show ?thesis by simp
next
  case (gate_refuse cfg pricing whitelist lightning discount ours t now_ms e r s')
  with assms(2,3) inner_keeps [OF gate_refuse(2)] show ?thesis by simp
next
  case (gate_commit e t out s')
  show ?thesis
  proof (cases "out = Inr ReplayAccepted")
    case True
    with gate_commit(3) have "ns_check_and_store_paid (store t) (ukm_nonce e)
        (payment_hash (ukm_payment_proof e)) (ukm_sender e) (ukm_id e) (gs_store g)
        = (Inr ReplayAccepted, s')" by simp
    from commit_new [OF this] gate_commit(1) True assms(2,3) show ?thesis by auto
  next
    case False
    with commit_keeps [OF gate_commit(3)] gate_commit(1) assms(2,3) show ?thesis by simp
  qed
next
  case (gate_other s')
  with assms(2,3) other_keeps [OF gate_other(2)] show ?thesis by auto
qed

lemma gate_run_inv:
  assumes "(gate_step x store other)\<^sup>*\<^sup>* g g'" "distinct (gs_admitted g)"
    "set (gs_admitted g) \<subseteq> hashes (gs_store g)"
  shows "distinct (gs_admitted g') \<and> set (gs_admitted g') \<subseteq> hashes (gs_store g')"
  using assms by (induction rule: rtranclp_induct) (auto dest: gate_step_inv)

end

section \<open>SQLite keeps the contract\<close>

lemma error_text_simps [simp]:
  "error_text (Inl err) = Inl (storage_error_text err)" "error_text (Inr a) = Inr a"
  by (simp_all add: error_text_def)

lemma error_text_Inr [simp]: "error_text r = Inr a \<longleftrightarrow> r = Inr a"
  by (simp add: error_text_def split: sum.splits)

lemma is_accepted_state:
  "is_paid_envelope_accepted x e d = (r, d') \<Longrightarrow>
     (r = Inr True \<longrightarrow> db_receipts d (hash_hex x e) \<noteq> None) \<and> (r = Inr False \<longrightarrow> d' = d)
     \<and> dom (db_receipts d') = dom (db_receipts d) \<and> db_nonces d' = db_nonces d \<and> db_web d' = db_web d"
  by (auto simp: is_paid_envelope_accepted_def receipt_bound_def message_matches_def
      bind_receipt_receipts Let_def split: sum.splits if_splits option.splits)

lemma hash_used_dom: "hash_used x d = hex_encode x -` dom (db_receipts d)"
  by (auto simp: hash_used_def)

lemma accept_dom: "dom (db_receipts d) \<subseteq> dom (db_receipts (snd (accept_paid_envelope x now e d)))"
  by (auto simp: accept_paid_envelope_def insert_accepted_def existing_receipt_def
      bind_receipt_receipts Let_def split: sum.splits option.splits if_splits)

lemma store_apply_dom: "dom (db_receipts d) \<subseteq> dom (db_receipts (store_apply x now op d))"
proof (cases op)
  case (OpAccept e)
  then show ?thesis using accept_dom by simp
next
  case (OpIsAccepted e)
  then show ?thesis using is_accepted_state [of x e d] by (cases "is_paid_envelope_accepted x e d") simp
qed (auto simp: receipts_untouched reject_accepted_envelope_def store_paid_nonce_def
      store_payment_receipt_def call_admission_withdraw_def Let_def split: option.splits if_splits)

lemma take_state:
  "take_outstanding_web_request x h d = (t, d') \<Longrightarrow>
     db_receipts d' = db_receipts d \<and> db_nonces d' = db_nonces d
     \<and> db_web d' = (db_web d)(hex_encode x h := None)
     \<and> (t = Inr None \<longrightarrow> d' = d) \<and> (\<forall>out. t = Inr (Some out) \<longrightarrow> db_web d (hex_encode x h) \<noteq> None)"
  by (auto simp: take_outstanding_web_request_def Let_def fun_upd_idem split: option.splits sum.splits)

interpretation sqlite_gate: paid_store "sqlite_nonce_store x"
    "\<lambda>d d'. \<exists>t op. d' = store_apply x t op d" "hash_used x" "nonce_used x" "reply_expected x" for x
proof (unfold_locales, goal_cases)
  case (1 t e s s')
  then show ?case
    by (auto simp: sqlite_nonce_store_def hash_used_def apfst_def map_prod_def hash_hex_def
        dest!: is_accepted_state split: prod.splits)
next
  case (2 t e s r s')
  then obtain r0 where "is_paid_envelope_accepted x e s = (r0, s')"
    by (cases "is_paid_envelope_accepted x e s") (simp add: sqlite_nonce_store_def)
  from is_accepted_state [OF this] show ?case
    by (simp add: hash_used_dom nonce_used_def reply_expected_def)
next
  case (3 t e s s')
  then show ?case
    by (auto simp: sqlite_nonce_store_def apfst_def map_prod_def dest!: is_accepted_state
        split: prod.splits)
next
  case (4 t h s s')
  then show ?case
    by (auto simp: sqlite_nonce_store_def apfst_def map_prod_def dest!: take_state split: prod.splits)
next
  case (5 t h s w s')
  then obtain t0 where "take_outstanding_web_request x h s = (t0, s')"
    by (cases "take_outstanding_web_request x h s") (simp add: sqlite_nonce_store_def)
  note st = take_state [OF this]
  then have web: "db_web s' = (db_web s)(hex_encode x h := None)" by blast
  from st show ?case
    by (auto simp: web hash_used_def nonce_used_def reply_expected_def split: if_splits)
next
  case (6 t h s out s')
  then show ?case
    by (auto simp: sqlite_nonce_store_def reply_expected_def apfst_def map_prod_def
        dest!: take_state split: prod.splits)
next
  case (7 t n h sender mid s s')
  then show ?case
    by (auto simp: sqlite_nonce_store_def store_paid_nonce_def hash_used_def nonce_used_def
        reply_expected_def Let_def apfst_def map_prod_def split: if_splits)
next
  case (8 t n h sender mid s c s')
  then show ?case
    by (auto simp: sqlite_nonce_store_def store_paid_nonce_def Let_def apfst_def map_prod_def
        split: if_splits)
next
  case (9 h s n t sender mid)
  then show ?case
    by (auto simp: sqlite_nonce_store_def store_paid_nonce_def hash_used_def nonce_used_def Let_def)
next
  case (10 s s')
  then obtain t op where "s' = store_apply x t op s" by blast
  then show ?case by (simp add: hash_used_dom vimage_mono store_apply_dom)
qed

lemma sqlite_not_accepted:
  "h = payment_hash (ukm_payment_proof e) \<Longrightarrow> h \<notin> hash_used x d \<Longrightarrow> env_binding x e = Inr b \<Longrightarrow>
   ns_is_paid_envelope_accepted (sqlite_nonce_store x t) e d = (Inr False, d)"
  by (auto simp: sqlite_nonce_store_def is_paid_envelope_accepted_def receipt_bound_def
      message_matches_def hash_used_def hash_hex_def Let_def)

lemma sample_authentic:
  "authentic sample_ops default_gate_config None (Some (sample_node 2)) 1000500 (sample_envelope k a)"
  using sample_validate [of k a] unfolding validate_Inr
  by (auto simp: authentic_def default_gate_config_def sample_signed) (simp add: sample_ops_def)

lemma sample_price:
  "get_price_msat (static_engine default_static_config) 0 = Inr 10"
  "gate_price_with_floor default_gate_config (gate_discounted 10 (F_Fin 0)) = 1000"
  by (simp_all add: static_engine_def static_price_msat_def from_kind_range KIND_LONGFORM_def
      KIND_CALL_INVITE_def KIND_CALL_BLOCK_def default_static_config_def gate_price_with_floor_def
      gate_discounted_def price_with_floor_msat_def default_gate_config_def f64_clamp_def max_def)

lemma default_gate_config_sel [simp]: "\<not> verify_lightning_settlement default_gate_config"
  by (simp add: default_gate_config_def)

lemma sample_unused [simp]: "hash_used x db_empty = {}" "nonce_used x db_empty = {}"
  by (simp_all add: hash_used_def nonce_used_def db_empty_def)

lemma sample_binding: "\<exists>b. env_binding sample_ops (sample_envelope 0 1000) = Inr b"
  by (simp add: env_binding_def i64_try_from_u64_def sample_ops_def)

lemma sample_admitted: "fst sample_verify = Inr ()"
proof -
  obtain b where "env_binding sample_ops (sample_envelope 0 1000) = Inr b"
    using sample_binding by blast
  then show ?thesis
    by (intro sqlite_gate.verify_admits [where base = 10] sample_authentic sqlite_not_accepted)
      (simp_all add: sample_price is_web_service_reply_def)
qed

lemma gate_discounted_bounds:
  assumes "unat base \<le> 2 ^ 53"
  shows "(unat base + 1) div 2 \<le> unat (gate_discounted base discount)"
    and "gate_discounted base discount \<le> base"
proof -
  have half: "(unat base + 1) div 2 \<le> unat base \<or> unat base = 0" by linarith
  consider (none) "gate_discounted base discount = base"
    | (some) q where "gate_discounted base discount = discount_ceil base (F_Fin q)" "0 \<le> q" "q \<le> 1 / 2"
  proof (cases "f64_is_finite discount")
    case True
    then obtain q where "f64_clamp discount (F_Fin 0) (F_Fin (1 / 2)) = F_Fin q" "0 \<le> q" "q \<le> 1 / 2"
      by (rule f64_clamp_half)
    with True that show ?thesis by (cases "0 < q") (simp_all add: gate_discounted_def)
  next
    case False
    with that(1) show ?thesis by (simp add: gate_discounted_def)
  qed
  note cases = this
  from cases show "(unat base + 1) div 2 \<le> unat (gate_discounted base discount)"
    using half discount_ceil_bounds(1) [OF assms] by cases auto
  from cases show "gate_discounted base discount \<le> base"
    using discount_ceil_bounds(2) [OF assms] by cases auto
qed

section \<open>Properties\<close>

text \<open>
  (C1) An envelope the gate admits over the SQLite store is authentic: its id, preimage,
  timestamp, signature, sender and recipient checks hold. It either pays a price that is
  due and at least the protocol and operator floors, settled as an incoming payment when
  settlement is checked, or answers a web request this node paid for. Its payment hash
  and nonce were unused before and are used afterwards.
\<close>

theorem gate_admits_only_paid:
  assumes "verify x cfg pricing whitelist lightning discount ours (sqlite_nonce_store x now) now_ms e d
             = (Inr (), d')"
  shows "authentic x cfg whitelist ours now_ms e
    \<and> (paid_for x cfg pricing (Some (sqlite_nonce_store x now)) lightning discount now_ms e d
       \<or> reply_bound x cfg (sqlite_nonce_store x now) lightning now_ms e d)
    \<and> payment_hash (ukm_payment_proof e) \<in> hash_used x d' - hash_used x d
    \<and> ukm_nonce e \<in> nonce_used x d' - nonce_used x d"
  using sqlite_gate.verify_Inr [OF assms] by blast

theorem gate_admits_only_paid_witness:
  "replicate 32 7 \<in> hash_used sample_ops (snd sample_verify)
   \<and> Nonce (replicate 24 5) \<in> nonce_used sample_ops (snd sample_verify)"
proof -
  have "sample_verify = (Inr (), snd sample_verify)"
    using sample_admitted by (metis prod.collapse)
  from gate_admits_only_paid [OF this] show ?thesis by simp
qed

text \<open>
  (C6) A fresh authentic envelope that pays the current price is admitted: unless the store
  already holds it, it is not a web reply, its kind is priced, the amount covers the
  discounted and floored price, and the backend confirms settlement when that is required.
\<close>

theorem gate_admits_fresh:
  assumes "authentic x cfg whitelist ours now_ms e" and "\<not> is_web_service_reply e"
    and "env_binding x e = Inr b"
    and "get_price_msat pricing (ukm_kind e) = Inr base"
    and "gate_price_with_floor cfg (gate_discounted base discount) \<le> amount_msat (ukm_payment_proof e)"
    and "verify_lightning_settlement cfg \<Longrightarrow> \<exists>backend details. lightning = Some backend
           \<and> settled_incoming x backend (gate_price_with_floor cfg (gate_discounted base discount)) e
               details"
    and "payment_hash (ukm_payment_proof e) \<notin> hash_used x d" and "ukm_nonce e \<notin> nonce_used x d"
  shows "fst (verify x cfg pricing whitelist lightning discount ours (sqlite_nonce_store x now) now_ms e d)
    = Inr ()"
  using assms by (intro sqlite_gate.verify_admits sqlite_not_accepted) auto

theorem gate_admits_fresh_witness: "fst sample_verify = Inr ()"
proof -
  obtain b where b: "env_binding sample_ops (sample_envelope 0 1000) = Inr b"
    using sample_binding by blast
  show ?thesis
    by (rule gate_admits_fresh [where base = 10, OF sample_authentic _ b])
      (simp_all add: sample_price is_web_service_reply_def)
qed

text \<open>
  (C7) A rejected envelope uses up no replay key: whatever the reason for the rejection,
  exactly the same payment hashes and nonces are used afterwards as before.
\<close>

theorem gate_rejection_keeps_keys:
  assumes "verify x cfg pricing whitelist lightning discount ours (sqlite_nonce_store x now) now_ms e d
             = (Inl r, d')"
  shows "hash_used x d' = hash_used x d \<and> nonce_used x d' = nonce_used x d"
  by (rule sqlite_gate.verify_Inl [OF assms])

theorem gate_rejection_keeps_keys_witness:
  "\<exists>r d'. verify sample_ops default_gate_config (static_engine default_static_config) (Some {}) None
      (F_Fin 0) None (sqlite_nonce_store sample_ops 7) 1000500 (sample_envelope 0 1000) db_empty = (Inl r, d')
    \<and> hash_used sample_ops d' = {} \<and> nonce_used sample_ops d' = {}"
proof -
  have "verify sample_ops default_gate_config (static_engine default_static_config) (Some {}) None
      (F_Fin 0) None (sqlite_nonce_store sample_ops 7) 1000500 (sample_envelope 0 1000) db_empty
      = (Inl (NotWhitelisted (sample_node 1)), db_empty)"
    by (simp add: verify_def validate_paid_envelope_inner_def check_envelope_def sample_validate)
  from this gate_rejection_keeps_keys [OF this] show ?thesis by simp
qed

text \<open>
  (C2) A payment is single-use under every interleaving: requests validate and commit in
  separate steps, with each other and with every other storage operation in between, nonce
  pruning and message deletion included, and no payment hash is committed twice.
\<close>

theorem gate_single_use:
  assumes "(gate_step x (sqlite_nonce_store x) (\<lambda>d d'. \<exists>t op. d' = store_apply x t op d))\<^sup>*\<^sup>*
             \<lparr> gs_store = d, gs_validated = [], gs_admitted = [] \<rparr> g"
  shows "distinct (gs_admitted g) \<and> set (gs_admitted g) \<subseteq> hash_used x (gs_store g)"
  by (rule sqlite_gate.gate_run_inv [OF assms]) simp_all

theorem gate_single_use_witness:
  "\<exists>g. (gate_step sample_ops (sqlite_nonce_store sample_ops)
          (\<lambda>d d'. \<exists>t op. d' = store_apply sample_ops t op d))\<^sup>*\<^sup>*
        \<lparr> gs_store = db_empty, gs_validated = [], gs_admitted = [] \<rparr> g
      \<and> gs_admitted g = [replicate 32 7] \<and> replicate 32 7 \<in> hash_used sample_ops (gs_store g)"
proof -
  let ?step = "gate_step sample_ops (sqlite_nonce_store sample_ops)
      (\<lambda>d d'. \<exists>t op. d' = store_apply sample_ops t op d)"
  let ?e = "sample_envelope 0 1000"
  let ?g = "\<lparr> gs_store = db_empty, gs_validated = [], gs_admitted = [] \<rparr>"
  obtain dup d1 where v: "validate_paid_envelope_inner sample_ops default_gate_config
        (static_engine default_static_config) None None (F_Fin 0) (Some (sample_node 2))
        (Some (sqlite_nonce_store sample_ops 7)) 1000500 ?e db_empty = (Inr dup, d1)"
    and c: "ns_check_and_store_paid (sqlite_nonce_store sample_ops 7) (ukm_nonce ?e)
        (payment_hash (ukm_payment_proof ?e)) (ukm_sender ?e) (ukm_id ?e) d1
        = (Inr ReplayAccepted, snd sample_verify)"
    using sample_admitted by (auto simp: verify_def split: prod.splits sum.splits paid_replay.splits)
  from v have "?step ?g (?g \<lparr> gs_store := d1, gs_validated := [?e] \<rparr>)"
    using gate_validate [where g = ?g and store = "sqlite_nonce_store sample_ops" and t = 7] by force
  moreover from c have "?step (?g \<lparr> gs_store := d1, gs_validated := [?e] \<rparr>)
      (?g \<lparr> gs_store := snd sample_verify, gs_admitted := [replicate 32 7] \<rparr>)"
    using gate_commit [where g = "?g \<lparr> gs_store := d1, gs_validated := [?e] \<rparr>" and e = ?e
        and store = "sqlite_nonce_store sample_ops" and t = 7] by force
  ultimately have r: "?step\<^sup>*\<^sup>* ?g (?g \<lparr> gs_store := snd sample_verify, gs_admitted := [replicate 32 7] \<rparr>)"
    by (meson r_into_rtranclp rtranclp_trans)
  from r gate_single_use [OF r] show ?thesis by fastforce
qed

text \<open>
  (C8) For every trust discount, NaN and infinities included, the price the gate requires
  of an envelope whose base price is at most \<open>2^53\<close> msat lies between the floor of half the
  base price, rounded up, and the floor of the base price itself.
\<close>

theorem gate_required_price_bounds:
  assumes "get_price_msat pricing (ukm_kind e) = Inr base" "unat base \<le> 2 ^ 53"
    and "verify_price cfg pricing discount e = Inr required"
  shows "required \<le> price_with_floor_msat base (min_admission_cost_msat cfg)
    \<and> (unat base + 1) div 2 \<le> unat required \<and> 1000 \<le> required
    \<and> min_admission_cost_msat cfg \<le> required \<and> required \<le> amount_msat (ukm_payment_proof e)"
proof -
  have r: "required = gate_price_with_floor cfg (gate_discounted base discount)"
    and paid: "required \<le> amount_msat (ukm_payment_proof e)"
    using assms(1,3) by (auto simp: verify_price_Inr)
  have "unat (gate_discounted base discount) \<le> unat required"
    unfolding r using gate_price_with_floor_ge(1) by (simp add: word_le_nat_alt)
  then have "(unat base + 1) div 2 \<le> unat required"
    using gate_discounted_bounds(1) [OF assms(2), of discount] by linarith
  moreover have "required \<le> price_with_floor_msat base (min_admission_cost_msat cfg)"
    unfolding r gate_price_with_floor_def
    by (rule price_with_floor_mono [OF gate_discounted_bounds(2) [OF assms(2)]])
  ultimately show ?thesis using paid r gate_price_with_floor_ge by auto
qed

theorem gate_required_price_bounds_witness:
  "verify_price default_gate_config (static_engine default_static_config) (F_Fin 0)
     (sample_envelope 0 1000) = Inr 1000 \<and> (10 + 1) div 2 \<le> unat (1000 :: u64)"
proof -
  have v: "verify_price default_gate_config (static_engine default_static_config) (F_Fin 0)
     (sample_envelope 0 1000) = Inr 1000"
    by (simp add: verify_price_Inr sample_price)
  have "get_price_msat (static_engine default_static_config) (ukm_kind (sample_envelope 0 1000)) = Inr 10"
    by (simp add: sample_price)
  from v gate_required_price_bounds [OF this _ v] show ?thesis by simp
qed

text \<open>
  (C9) Settlement verification returns a backend record exactly when the record is settled,
  incoming, not a funding payment, carries the envelope's payment hash and preimage, is at
  least the claimed and the required amount, and the envelope is not addressed elsewhere.
\<close>

theorem verify_settlement_exact:
  "verify_settlement x backend required ours e = Inr details \<longleftrightarrow>
     settled_incoming x backend required e details
     \<and> recipient_mismatch (ukm_recipient e) ours = None"
  using verify_settlement_Inr verify_settlement_complete by blast

text \<open>The purpose text of a service invoice names its kind: parsing the text a sender
  writes for a kind gives that kind back, for every 16-bit kind.
\<close>

theorem service_invoice_purpose_roundtrip:
  "parse_service_invoice_purpose (service_invoice_purpose kind) = Some kind"
  by (rule service_purpose_roundtrip)

end
