(* ===== verification/Chain_Pricing.thy ===== *)
theory Chain_Pricing
  imports Static_Pricing Discount "HOL-Library.AList"
begin

text \<open>
  The chain-aware engine of \<open>konsensus-pricing/src/chain_aware.rs\<close>: fee targets,
  EMA smoothing of fee rates, the cached chain state and its refresh, and the fee
  multiplier with its cap. A hash map is an association list in iteration order.
  The chain provider's answers to one refresh, with the instants at which they were
  read, are the record \<open>chain_reads\<close>; an \<open>Instant\<close> is a natural number.
\<close>

section \<open>Configuration and state\<close>

type_synonym instant = nat

definition DEFAULT_MAX_PRICE_MULTIPLIER :: f64 where "DEFAULT_MAX_PRICE_MULTIPLIER = F_Fin 5"
definition DEFAULT_FEE_RATE_EMA_ALPHA :: f64 where "DEFAULT_FEE_RATE_EMA_ALPHA = f64_round (3 / 10)"
definition HALVING_INTERVAL :: u64 where "HALVING_INTERVAL = 210000"

record chain_pricing_config =
  cp_base :: static_pricing_config
  cp_fee_target_blocks :: u32
  cp_cache_ttl :: nat
  cp_max_price_multiplier :: f64
  cp_fee_rate_ema_alpha :: f64
  cp_category_fee_targets :: "(string \<times> u32) list"

definition default_chain_config :: chain_pricing_config where
  "default_chain_config =
     \<lparr> cp_base = default_static_config, cp_fee_target_blocks = 6,
       cp_cache_ttl = 60 * 1000000000,
       cp_max_price_multiplier = DEFAULT_MAX_PRICE_MULTIPLIER,
       cp_fee_rate_ema_alpha = DEFAULT_FEE_RATE_EMA_ALPHA, cp_category_fee_targets = [] \<rparr>"

record target_fee_state =
  raw_sat_per_vbyte :: f64
  ema_sat_per_vbyte :: f64
  fetched_at :: instant

record cached_chain_state =
  cs_targets :: "(u32 \<times> target_fee_state) list"
  cs_block_height :: u64
  cs_block_height_fetched_at :: instant
  cs_refreshed_at :: instant

record fee_rate_snapshot =
  snap_targets :: "(u32 \<times> f64) list"
  snap_block_height :: u64
  snap_timestamp_secs :: u64

record chain_reads =
  cr_synced :: bool
  cr_synced_with_height :: "u64 \<Rightarrow> bool"
  cr_height :: "string + u64"
  cr_height_read_at :: instant
  cr_fee :: "u32 \<Rightarrow> string + f64"
  cr_fee_read_at :: "u32 \<Rightarrow> instant"
  cr_now :: instant

section \<open>Operations\<close>

definition target_for_category :: "chain_pricing_config \<Rightarrow> kind_category \<Rightarrow> u32" where
  "target_for_category cfg category =
     (case map_of (cp_category_fee_targets cfg) (price_table_key category) of
        Some t \<Rightarrow> t
      | None \<Rightarrow> cp_fee_target_blocks cfg)"

definition unique_targets :: "chain_pricing_config \<Rightarrow> u32 list" where
  "unique_targets cfg =
     fold (\<lambda>t ts. if t \<in> set ts then ts else ts @ [t])
       (map snd (cp_category_fee_targets cfg)) [cp_fee_target_blocks cfg]"

definition normalized_ema_alpha :: "f64 \<Rightarrow> f64" where
  "normalized_ema_alpha alpha =
     (if f64_is_finite alpha then f64_clamp alpha (F_Fin 0) (F_Fin 1)
      else DEFAULT_FEE_RATE_EMA_ALPHA)"

definition normalized_fee_rate :: "f64 \<Rightarrow> f64 option" where
  "normalized_fee_rate rate =
     (if f64_is_finite rate \<and> f64_le (F_Fin 0) rate then Some rate else None)"

definition normalized_max_multiplier :: "f64 \<Rightarrow> f64" where
  "normalized_max_multiplier m =
     (if f64_eq m (F_Fin 0) then F_Fin 0
      else if f64_is_finite m \<and> f64_lt (F_Fin 0) m then m
      else DEFAULT_MAX_PRICE_MULTIPLIER)"

text \<open>\<open>now.checked_sub(d).unwrap_or(now)\<close>.\<close>

definition expired_instant :: "instant \<Rightarrow> nat \<Rightarrow> instant" where
  "expired_instant now d = (if d \<le> now then now - d else now)"

definition seed_ema ::
  "chain_pricing_config \<Rightarrow> u64 \<Rightarrow> instant \<Rightarrow> fee_rate_snapshot
   \<Rightarrow> cached_chain_state option \<Rightarrow> cached_chain_state option" where
  "seed_ema cfg now_secs now snap st =
     (let age_secs = sat_sub now_secs (snap_timestamp_secs snap) in
      if age_secs > 3600 then st
      else if snap_targets snap = [] then st
      else
        let expired = expired_instant now (cp_cache_ttl cfg);
            targets = fold
              (\<lambda>(t, ema) m. case normalized_fee_rate ema of
                 Some e \<Rightarrow> AList.update t
                   \<lparr> raw_sat_per_vbyte = e, ema_sat_per_vbyte = e, fetched_at = expired \<rparr> m
               | None \<Rightarrow> m)
              (snap_targets snap) []
        in if targets = [] then st
           else Some \<lparr> cs_targets = targets, cs_block_height = snap_block_height snap,
                      cs_block_height_fetched_at = expired, cs_refreshed_at = expired \<rparr>)"

definition snapshot :: "u64 \<Rightarrow> cached_chain_state option \<Rightarrow> fee_rate_snapshot option" where
  "snapshot now_secs st =
     (case st of
        None \<Rightarrow> None
      | Some cached \<Rightarrow>
          Some \<lparr> snap_targets = map (\<lambda>(k, v). (k, ema_sat_per_vbyte v)) (cs_targets cached),
                 snap_block_height = cs_block_height cached, snap_timestamp_secs = now_secs \<rparr>)"

text \<open>
  The new state of one target: the previous one carried forward when the fetch failed
  or returned an unusable rate, otherwise the smoothed rate.
\<close>

definition carry_forward :: "target_fee_state option \<Rightarrow> target_fee_state option" where
  "carry_forward prev =
     (case prev of
        None \<Rightarrow> None
      | Some p \<Rightarrow> if normalized_fee_rate (ema_sat_per_vbyte p) \<noteq> None then Some p else None)"

definition smooth :: "f64 \<Rightarrow> f64 \<Rightarrow> target_fee_state option \<Rightarrow> f64" where
  "smooth alpha raw_rate prev =
     (case prev of
        None \<Rightarrow> raw_rate
      | Some p \<Rightarrow>
          (case normalized_fee_rate (ema_sat_per_vbyte p) of
             Some prev_ema \<Rightarrow>
               f64_add (f64_mul alpha raw_rate) (f64_mul (f64_sub (F_Fin 1) alpha) prev_ema)
           | None \<Rightarrow> raw_rate))"

definition target_update ::
  "f64 \<Rightarrow> instant \<Rightarrow> string + f64 \<Rightarrow> target_fee_state option \<Rightarrow> target_fee_state option" where
  "target_update alpha read_at result prev =
     (case result of
        Inl _ \<Rightarrow> carry_forward prev
      | Inr rate \<Rightarrow>
          (case normalized_fee_rate rate of
             None \<Rightarrow> carry_forward prev
           | Some raw_rate \<Rightarrow>
               Some \<lparr> raw_sat_per_vbyte = raw_rate,
                      ema_sat_per_vbyte = smooth alpha raw_rate prev, fetched_at = read_at \<rparr>))"

fun process_targets ::
  "f64 \<Rightarrow> chain_reads \<Rightarrow> cached_chain_state option \<Rightarrow> u32 list
   \<Rightarrow> (u32 \<times> target_fee_state) list \<times> bool \<Rightarrow> (u32 \<times> target_fee_state) list \<times> bool" where
  "process_targets alpha rd prev [] acc = acc"
| "process_targets alpha rd prev (t # ts) (new_targets, any_succeeded) =
     (case target_update alpha (cr_fee_read_at rd t) (cr_fee rd t)
             (Option.bind prev (\<lambda>c. map_of (cs_targets c) t)) of
        None \<Rightarrow> process_targets alpha rd prev ts (new_targets, any_succeeded)
      | Some s \<Rightarrow> process_targets alpha rd prev ts (AList.update t s new_targets, True))"

definition refresh_chain_state ::
  "chain_pricing_config \<Rightarrow> chain_reads \<Rightarrow> (u64 \<times> instant) option
   \<Rightarrow> cached_chain_state option \<Rightarrow> u64 option \<times> cached_chain_state option" where
  "refresh_chain_state cfg rd observed st =
     (let synced = (case observed of
                      Some (h, _) \<Rightarrow> cr_synced_with_height rd h
                    | None \<Rightarrow> cr_synced rd)
      in if \<not> synced then (None, st)
         else
           let alpha = normalized_ema_alpha (cp_fee_rate_ema_alpha cfg);
               (height_result, height_read_at) =
                 (case observed of
                    Some (h, observed_at) \<Rightarrow> (Inr h, observed_at)
                  | None \<Rightarrow> (cr_height rd, cr_height_read_at rd));
               (height, height_fetched_at) =
                 (case height_result of
                    Inr h \<Rightarrow> (h, height_read_at)
                  | Inl _ \<Rightarrow> (0, expired_instant (cr_now rd) (cp_cache_ttl cfg)));
               (new_targets, any_succeeded) =
                 process_targets alpha rd st (unique_targets cfg) ([], False)
           in if \<not> any_succeeded then (None, st)
              else (Some height,
                    Some \<lparr> cs_targets = new_targets, cs_block_height = height,
                           cs_block_height_fetched_at = height_fetched_at,
                           cs_refreshed_at = cr_now rd \<rparr>))"

definition get_chain_state_for_category ::
  "chain_pricing_config \<Rightarrow> instant \<Rightarrow> chain_reads \<Rightarrow> kind_category \<Rightarrow> (u64 \<times> instant) option
   \<Rightarrow> cached_chain_state option \<Rightarrow> (f64 \<times> u64) option \<times> cached_chain_state option" where
  "get_chain_state_for_category cfg now rd category observed st =
     (let target = target_for_category cfg category;
          hit = (case st of
                   None \<Rightarrow> None
                 | Some cached \<Rightarrow>
                     if now - cs_refreshed_at cached < cp_cache_ttl cfg
                     then map_option (\<lambda>s. (ema_sat_per_vbyte s, cs_block_height cached))
                            (map_of (cs_targets cached) target)
                     else None)
      in case hit of
           Some r \<Rightarrow> (Some r, st)
         | None \<Rightarrow>
             (case refresh_chain_state cfg rd observed st of
                (None, st') \<Rightarrow> (None, st')
              | (Some height, st') \<Rightarrow>
                  (case st' of
                     None \<Rightarrow> (None, st')
                   | Some cached \<Rightarrow>
                       (map_option (\<lambda>s. (ema_sat_per_vbyte s, height))
                          (map_of (cs_targets cached) target), st'))))"

definition halving_sensitivity :: "u64 \<Rightarrow> f64" where
  "halving_sensitivity block_height =
     (let halvings = block_height div HALVING_INTERVAL;
          sensitivity = f64_add (F_Fin 1) (f64_mul (f64_of_word halvings) (f64_round (1 / 5)))
      in f64_min sensitivity (F_Fin 4))"

text \<open>The stages of \<open>apply_multiplier\<close>: defensive clamps, adjustment and cap.\<close>

definition clamped_fee :: "f64 \<Rightarrow> f64" where
  "clamped_fee fee_rate =
     (if fee_rate = F_PInf then f64_MAX
      else case normalized_fee_rate fee_rate of Some r \<Rightarrow> r | None \<Rightarrow> F_Fin 0)"

definition clamped_sens :: "f64 \<Rightarrow> f64" where
  "clamped_sens sensitivity =
     (if sensitivity = F_PInf then F_Fin 4
      else if f64_is_finite sensitivity then f64_max sensitivity (F_Fin 1)
      else F_Fin 1)"

definition effective_rate_milli :: "f64 \<Rightarrow> f64 \<Rightarrow> u128" where
  "effective_rate_milli fee_rate sensitivity =
     (let effective_rate =
            f64_mul (f64_mul (clamped_fee fee_rate) (clamped_sens sensitivity)) (F_Fin 1000)
      in if f64_is_finite effective_rate then f64_to_word effective_rate else - 1)"

definition fee_adjustment :: "u64 \<Rightarrow> u128 \<Rightarrow> u64" where
  "fee_adjustment base_price rate_milli =
     (let numerator = sat_mul (ucast base_price) rate_milli
      in if numerator = 0 then 0
         else let d = numerator div 100000; rem = numerator mod 100000;
                  ceiled = (if rem > 0 then d + 1 else d)
              in if ceiled > ucast (- 1 :: u64) then - 1 else ucast ceiled)"

definition price_cap :: "u64 \<Rightarrow> f64 \<Rightarrow> u64" where
  "price_cap base_price max_mult =
     (let cap_f64 = f64_mul (f64_of_word base_price) max_mult
      in if f64_le (f64_of_word (- 1 :: u64)) cap_f64 then - 1
         else if f64_le cap_f64 (F_Fin 0) then 0
         else f64_to_word cap_f64)"

definition apply_multiplier :: "u64 \<Rightarrow> f64 \<Rightarrow> f64 \<Rightarrow> f64 \<Rightarrow> u64" where
  "apply_multiplier base_price fee_rate sensitivity max_multiplier =
     (let adjustment = fee_adjustment base_price (effective_rate_milli fee_rate sensitivity);
          result = sat_add base_price adjustment;
          max_mult = normalized_max_multiplier max_multiplier
      in if f64_lt (F_Fin 0) max_mult
         then let effective_cap = max (price_cap base_price max_mult) base_price
              in min result effective_cap
         else result)"

definition chain_price_for_kind ::
  "chain_pricing_config \<Rightarrow> instant \<Rightarrow> chain_reads \<Rightarrow> u16 \<Rightarrow> (u64 \<times> instant) option
   \<Rightarrow> cached_chain_state option \<Rightarrow> (pricing_error + u64) \<times> cached_chain_state option" where
  "chain_price_for_kind cfg now rd kind observed st =
     (case static_price_msat (cp_base cfg) kind of
        Inl e \<Rightarrow> (Inl e, st)
      | Inr base_price \<Rightarrow>
          (case get_chain_state_for_category cfg now rd (from_kind kind) observed st of
             (Some (fee_rate, height), st') \<Rightarrow>
               (Inr (apply_multiplier base_price fee_rate (halving_sensitivity height)
                       (cp_max_price_multiplier cfg)), st')
           | (None, st') \<Rightarrow> (Inr base_price, st')))"

definition chain_category_price ::
  "chain_pricing_config \<Rightarrow> instant \<Rightarrow> chain_reads \<Rightarrow> kind_category
   \<Rightarrow> cached_chain_state option \<Rightarrow> (pricing_error + u64) \<times> cached_chain_state option" where
  "chain_category_price cfg now rd category st =
     (case price_for_category (cp_base cfg) category of
        Inl e \<Rightarrow> (Inl e, st)
      | Inr base_price \<Rightarrow>
          (case get_chain_state_for_category cfg now rd category None st of
             (Some (fee_rate, height), st') \<Rightarrow>
               (Inr (apply_multiplier base_price fee_rate (halving_sensitivity height)
                       (cp_max_price_multiplier cfg)), st')
           | (None, st') \<Rightarrow> (Inr base_price, st')))"

definition chain_engine ::
  "chain_pricing_config \<Rightarrow> instant \<Rightarrow> chain_reads \<Rightarrow> cached_chain_state option \<Rightarrow> pricing_engine" where
  "chain_engine cfg now rd st =
     \<lparr> get_price_msat = (\<lambda>k. fst (chain_price_for_kind cfg now rd k None st)),
       get_category_price_msat = (\<lambda>c. fst (chain_category_price cfg now rd c st)),
       category_price_overrides = static_overrides (cp_base cfg) \<rparr>"

text \<open>A usable rate: not NaN, not negative.\<close>

fun rate_ok :: "f64 \<Rightarrow> bool" where
  "rate_ok F_PInf = True"
| "rate_ok (F_Fin r) = (0 \<le> r)"
| "rate_ok _ = False"

definition chain_state_ok :: "cached_chain_state option \<Rightarrow> bool" where
  "chain_state_ok st =
     (\<forall>c. st = Some c \<longrightarrow>
        (\<forall>t s. map_of (cs_targets c) t = Some s \<longrightarrow> rate_ok (ema_sat_per_vbyte s)))"

section \<open>Samples\<close>

text \<open>A provider that reports 20 sat/vB for every target at height 840000.\<close>

definition sample_reads :: chain_reads where
  "sample_reads =
     \<lparr> cr_synced = True, cr_synced_with_height = (\<lambda>_. True), cr_height = Inr 840000,
       cr_height_read_at = 5, cr_fee = (\<lambda>_. Inr (F_Fin 20)), cr_fee_read_at = (\<lambda>_. 5), cr_now = 5 \<rparr>"

section \<open>The multiplier never undercuts the base price and respects its cap\<close>

lemma apply_multiplier_ge: "base \<le> apply_multiplier base fee sens mm"
  by (simp add: apply_multiplier_def Let_def sat_add_ge)

lemma apply_multiplier_le:
  assumes "f64_lt (F_Fin 0) (normalized_max_multiplier mm)"
  shows "apply_multiplier base fee sens mm \<le> max base (price_cap base (normalized_max_multiplier mm))"
  using assms by (simp add: apply_multiplier_def Let_def max.commute)

lemma ceil_div_100000:
  "(n + 99999) div 100000 = n div 100000 + (if 0 < n mod 100000 then 1 else 0)" for n :: nat
proof -
  have "n = 100000 * (n div 100000) + n mod 100000" "n mod 100000 < 100000" by simp_all
  then show ?thesis by (auto; linarith)
qed

lemma unat_ceil_div:
  "unat (if n mod 100000 > 0 then n div 100000 + 1 else n div 100000 :: u128)
    = (unat n + 99999) div 100000"
proof -
  have d: "unat (n div 100000) = unat n div 100000" "unat (n mod 100000) = unat n mod 100000"
    by (simp_all add: unat_div unat_mod)
  have "unat n div 100000 < 2 ^ 128 - 1" using unat_lt_pow [of n] by simp
  then have "unat (n div 100000 + 1) = unat n div 100000 + 1"
    by (simp add: d unat_add_small)
  with d show ?thesis by (simp add: ceil_div_100000 word_less_nat_alt)
qed

lemma unat_ucast_up: "unat (ucast (w :: u64) :: u128) = unat w"
proof -
  have "unat w < 2 ^ 128" using unat_lt_pow [of w] by simp
  then show ?thesis by (simp add: unsigned_ucast_eq take_bit_nat_eq_self)
qed

lemma unat_ucast_down: "unat w < 2 ^ 64 \<Longrightarrow> unat (ucast (w :: u128) :: u64) = unat w"
  by (simp add: unsigned_ucast_eq take_bit_nat_eq_self)

lemma fee_adjustment_eq:
  "unat (fee_adjustment base r) =
     min (2 ^ 64 - 1) ((min (unat base * unat r) (2 ^ 128 - 1) + 99999) div 100000)"
proof -
  let ?n = "sat_mul (ucast base) r :: u128"
  have n: "unat ?n = min (unat base * unat r) (2 ^ 128 - 1)"
    by (simp add: unat_sat_mul unat_ucast_up)
  let ?c = "if ?n mod 100000 > 0 then ?n div 100000 + 1 else ?n div 100000"
  have c: "unat ?c = (unat ?n + 99999) div 100000" by (rule unat_ceil_div)
  have m: "unat (ucast (- 1 :: u64) :: u128) = 2 ^ 64 - 1"
    by (simp add: unat_ucast_up unat_minus_one_max)
  show ?thesis
  proof (cases "?n = 0")
    case True
    then have "fee_adjustment base r = 0" "unat ?n = 0"
      by (simp_all add: fee_adjustment_def)
    then show ?thesis unfolding n [symmetric] by simp
  next
    case False
    then have "fee_adjustment base r = (if ?c > ucast (- 1 :: u64) then - 1 else ucast ?c)"
      by (simp only: fee_adjustment_def Let_def if_False)
    then show ?thesis
      unfolding n [symmetric] c [symmetric]
      using m by (auto simp: word_less_nat_alt unat_minus_one_max unat_ucast_down)
  qed
qed

lemma rnd_max_u64: "2 ^ 63 \<le> rnd (word_rat (- 1 :: u64))"
proof -
  have "rnd (2 ^ 63) = 2 ^ 63" by (rule rnd_exact [where m = 1 and k = 63]) auto
  moreover have "2 ^ 63 \<le> word_rat (- 1 :: u64)"
    unfolding word_rat_int by (simp add: unat_minus_one_max)
  ultimately show ?thesis by (metis rnd_mono)
qed

lemma price_cap_int:
  assumes "unat base * m \<le> 2 ^ 53" "0 < m"
  shows "unat (price_cap base (F_Fin (of_nat m))) = unat base * m"
proof -
  let ?p = "of_nat (unat base * m) :: rat"
  have bm: "rnd (word_rat base * of_nat m) = ?p"
    unfolding word_rat_def of_nat_mult [symmetric] using assms(1) by (rule rnd_of_nat)
  have "unat base \<le> unat base * m" using assms(2) by simp
  then have "unat base \<le> 2 ^ 53" using assms(1) by (rule le_trans)
  then have base: "f64_of_word base = F_Fin (word_rat base)"
    by (simp add: f64_of_u64 rnd_word_rat)
  have lt: "?p \<le> 2 ^ 53"
    using assms(1) by (metis of_nat_le_iff of_nat_numeral of_nat_power)
  then have "\<bar>?p\<bar> < 2 ^ 1024"
    unfolding abs_of_nat by (rule order.strict_trans1) (rule power_strict_increasing, auto)
  then have mul: "f64_mul (f64_of_word base) (F_Fin (of_nat m)) = F_Fin ?p"
    unfolding base f64_mul.simps using bm by (simp only: f64_round_small)
  have "\<not> f64_le (f64_of_word (- 1 :: u64)) (F_Fin ?p)"
    using lt rnd_max_u64 by (simp add: f64_of_u64 f64_le_def del: of_nat_mult)
  then have "price_cap base (F_Fin (of_nat m)) = f64_to_word (F_Fin ?p)"
    unfolding price_cap_def Let_def mul by (simp add: f64_le_def del: of_nat_mult)
  moreover have "\<lfloor>?p\<rfloor> = int (unat base * m)" by (rule floor_of_nat)
  ultimately have "unat (price_cap base (F_Fin (of_nat m)))
      = nat (max 0 (min (int (unat base * m)) (2 ^ 64 - 1)))"
    by (simp only: unat_f64_to_word) simp
  moreover have "int (unat base * m) \<le> 2 ^ 64 - 1"
    using assms(1) by (simp del: of_nat_mult add: nat_le_iff [symmetric])
  ultimately show ?thesis by (metis max_def min_def nat_int of_nat_0_le_iff)
qed
lemma chain_price_bounds:
  assumes "chain_price_for_kind cfg now rd k obs st = (Inr p, st')"
  obtains base where "static_price_msat (cp_base cfg) k = Inr base" "base \<le> p"
    "f64_lt (F_Fin 0) (normalized_max_multiplier (cp_max_price_multiplier cfg)) \<Longrightarrow>
       p \<le> max base (price_cap base (normalized_max_multiplier (cp_max_price_multiplier cfg)))"
proof -
  obtain base where b: "static_price_msat (cp_base cfg) k = Inr base"
    using assms by (auto simp: chain_price_for_kind_def split: sum.splits)
  with assms have "p = base \<or> (\<exists>f s. p = apply_multiplier base f s (cp_max_price_multiplier cfg))"
    by (auto simp: chain_price_for_kind_def split: prod.splits option.splits)
  then show thesis
    using that [OF b] apply_multiplier_ge apply_multiplier_le by auto
qed

lemma chain_price_Inr:
  "static_price_msat (cp_base cfg) k = Inr base
   \<Longrightarrow> \<exists>p. fst (chain_price_for_kind cfg now rd k obs st) = Inr p"
  by (auto simp: chain_price_for_kind_def split: prod.splits option.splits)

lemma chain_price_category:
  assumes "static_price_msat (cp_base cfg) k = price_for_category (cp_base cfg) (from_kind k)"
  shows "chain_price_for_kind cfg now rd k None st = chain_category_price cfg now rd (from_kind k) st"
  using assms by (simp add: chain_price_for_kind_def chain_category_price_def)

interpretation chain_contract: pricing_contract "chain_engine cfg now rd st" for cfg now rd st
proof unfold_locales
  fix ks k
  assume "category_price_overrides (chain_engine cfg now rd st) = Some ks" "k \<notin> set ks"
    "from_kind k \<noteq> Unknown"
  then have "static_price_msat (cp_base cfg) k = price_for_category (cp_base cfg) (from_kind k)"
    by (simp add: chain_engine_def static_price_msat_eq)
  then show "get_price_msat (chain_engine cfg now rd st) k
      = get_category_price_msat (chain_engine cfg now rd st) (from_kind k)"
    by (simp add: chain_engine_def chain_price_category)
next
  fix k
  assume "from_kind k = Unknown"
  then show "\<exists>e. get_price_msat (chain_engine cfg now rd st) k = Inl e"
    by (simp add: chain_engine_def chain_price_for_kind_def static_price_msat_eq)
qed

section \<open>Cached rates are never NaN or negative\<close>

lemma rate_ok_round: "0 \<le> x \<Longrightarrow> rate_ok (f64_round x)"
  using rnd_nonneg [of x] by (auto simp: f64_round_def Let_def)

lemma rate_ok_add: "rate_ok x \<Longrightarrow> rate_ok y \<Longrightarrow> rate_ok (f64_add x y)"
  by (cases x; cases y) (simp_all add: rate_ok_round)

lemma normalized_fee_rate_Some:
  "normalized_fee_rate x = Some y \<longleftrightarrow> (\<exists>r. x = F_Fin r \<and> 0 \<le> r \<and> y = x)"
  by (cases x) (auto simp: normalized_fee_rate_def f64_le_def)

lemma normalized_alpha_unit: "\<exists>a. normalized_ema_alpha alpha = F_Fin a \<and> 0 \<le> a \<and> a \<le> 1"
proof (cases "f64_is_finite alpha")
  case True
  then obtain r where "alpha = F_Fin r" by (cases alpha) auto
  then show ?thesis
    by (auto simp: normalized_ema_alpha_def f64_clamp_def Let_def)
next
  case False
  then show ?thesis
    using f64_round_unit [of "3 / 10"] rnd_unit [of "3 / 10"]
    by (auto simp: normalized_ema_alpha_def DEFAULT_FEE_RATE_EMA_ALPHA_def)
qed

lemma smooth_ok:
  assumes "0 \<le> r"
  shows "rate_ok (smooth (normalized_ema_alpha alpha) (F_Fin r) prev)"
proof -
  obtain a where a: "normalized_ema_alpha alpha = F_Fin a" "0 \<le> a" "a \<le> 1"
    using normalized_alpha_unit by blast
  have s: "f64_sub (F_Fin 1) (F_Fin a) = F_Fin (rnd (1 - a))" "0 \<le> rnd (1 - a)"
    using a f64_round_unit(1) [of "1 - a"] by (simp_all add: f64_sub_def rnd_nonneg)
  show ?thesis
    using a assms s by (auto simp: smooth_def normalized_fee_rate_Some
        intro!: rate_ok_add rate_ok_round split: option.splits)
qed

lemma target_update_ok:
  "target_update (normalized_ema_alpha alpha) read_at res prev = Some s
   \<Longrightarrow> rate_ok (ema_sat_per_vbyte s)"
  by (auto simp: target_update_def carry_forward_def smooth_ok normalized_fee_rate_Some
      split: sum.splits option.splits if_splits)

lemma process_targets_ok:
  assumes "process_targets (normalized_ema_alpha alpha) rd prev ts (m, b) = (m', b')"
    and "\<And>t s. map_of m t = Some s \<Longrightarrow> rate_ok (ema_sat_per_vbyte s)"
    and "map_of m' t = Some s"
  shows "rate_ok (ema_sat_per_vbyte s)"
  using assms
proof (induction "normalized_ema_alpha alpha" rd prev ts "(m, b)" arbitrary: m b
    rule: process_targets.induct)
  case (2 rd prev t' ts m b)
  show ?case
  proof (cases "target_update (normalized_ema_alpha alpha) (cr_fee_read_at rd t') (cr_fee rd t')
             (Option.bind prev (\<lambda>c. map_of (cs_targets c) t'))")
    case None
    with 2 show ?thesis by simp
  next
    case (Some x)
    then have "rate_ok (ema_sat_per_vbyte x)" by (rule target_update_ok)
    then have "map_of (AList.update t' x m) t = Some s \<Longrightarrow> rate_ok (ema_sat_per_vbyte s)" for t s
      using "2.prems"(2) by (auto simp: update_conv' split: if_splits)
    then show ?thesis using "2.hyps"(2) [OF Some _ _ "2.prems"(3)] "2.prems"(1) Some by simp
  qed
qed simp

lemma refresh_ok:
  assumes "chain_state_ok st"
  shows "chain_state_ok (snd (refresh_chain_state cfg rd obs st))"
proof -
  obtain m b where mb: "process_targets (normalized_ema_alpha (cp_fee_rate_ema_alpha cfg)) rd st
      (unique_targets cfg) ([], False) = (m, b)" by force
  then have "map_of m t = Some s \<Longrightarrow> rate_ok (ema_sat_per_vbyte s)" for t s
    by (rule process_targets_ok) auto
  with mb assms show ?thesis
    by (auto simp: refresh_chain_state_def chain_state_ok_def Let_def split: option.splits sum.splits)
qed

lemma get_chain_state_ok:
  assumes "chain_state_ok st"
  shows "chain_state_ok (snd (get_chain_state_for_category cfg now rd c obs st))"
  using assms refresh_ok [OF assms, of cfg rd obs]
  by (auto simp: get_chain_state_for_category_def Let_def split: option.splits prod.splits)

lemma chain_price_ok:
  "chain_state_ok st \<Longrightarrow> chain_state_ok (snd (chain_price_for_kind cfg now rd k obs st))"
  using get_chain_state_ok [of st cfg now rd "from_kind k" obs]
  by (auto simp: chain_price_for_kind_def split: sum.splits prod.splits option.splits)

lemma seed_fold_ok:
  assumes "\<And>t s. map_of m t = Some s \<Longrightarrow> rate_ok (ema_sat_per_vbyte s)"
    and "map_of (fold (\<lambda>(t, ema) m. case normalized_fee_rate ema of
                 Some e \<Rightarrow> AList.update t
                   \<lparr> raw_sat_per_vbyte = e, ema_sat_per_vbyte = e, fetched_at = ex \<rparr> m
               | None \<Rightarrow> m) xs m) t = Some s"
  shows "rate_ok (ema_sat_per_vbyte s)"
  using assms
proof (induction xs arbitrary: m)
  case (Cons x xs)
  show ?case
    by (rule Cons.IH [OF _ Cons.prems(2) [unfolded fold_Cons comp_def]])
      (auto simp: update_conv' normalized_fee_rate_Some Cons.prems(1)
        split: prod.splits option.splits if_splits)
qed simp

lemma seed_ema_ok:
  "chain_state_ok st \<Longrightarrow> chain_state_ok (seed_ema cfg now_secs now snap st)"
  using seed_fold_ok [of "[]" "expired_instant now (cp_cache_ttl cfg)" "snap_targets snap"]
  by (auto simp: seed_ema_def chain_state_ok_def Let_def)

section \<open>Properties\<close>

text \<open>
  (C11) A chain-aware price is never below the static price of its kind, and with an integer
  multiplier cap \<open>m\<close> never above \<open>m\<close> times it, whatever the fee rates and heights the
  chain provider reports, as long as the cap itself is exact in double precision.
\<close>

theorem chain_price_between_base_and_cap:
  assumes "chain_price_for_kind cfg now rd k obs st = (Inr p, st')"
    and "static_price_msat (cp_base cfg) k = Inr base"
    and "cp_max_price_multiplier cfg = F_Fin (of_nat m)" "0 < m" "unat base * m \<le> 2 ^ 53"
  shows "unat base \<le> unat p \<and> unat p \<le> unat base * m"
proof -
  have mult: "normalized_max_multiplier (cp_max_price_multiplier cfg) = F_Fin (of_nat m)"
    using assms(3,4) by (simp add: normalized_max_multiplier_def)
  obtain b where b: "static_price_msat (cp_base cfg) k = Inr b" "b \<le> p"
      "f64_lt (F_Fin 0) (normalized_max_multiplier (cp_max_price_multiplier cfg)) \<Longrightarrow>
         p \<le> max b (price_cap b (normalized_max_multiplier (cp_max_price_multiplier cfg)))"
    by (rule chain_price_bounds [OF assms(1)]) (rule that)
  then have "b = base" using assms(2) by simp
  with b mult assms(4) have "p \<le> max base (price_cap base (F_Fin (of_nat m)))" by simp
  moreover have "unat (price_cap base (F_Fin (of_nat m))) = unat base * m"
    using assms(4,5) by (intro price_cap_int)
  ultimately have "unat p \<le> unat base * m"
    using assms(4) by (auto simp: word_le_nat_alt max_def split: if_splits)
  with b \<open>b = base\<close> show ?thesis by (simp add: word_le_nat_alt)
qed

theorem chain_price_between_base_and_cap_witness:
  "\<exists>p st'. chain_price_for_kind default_chain_config 5 sample_reads 0 None None = (Inr p, st')
     \<and> 10 \<le> unat p \<and> unat p \<le> 10 * 5"
proof -
  have base: "static_price_msat (cp_base default_chain_config) 0 = Inr 10"
    by (simp add: default_chain_config_def default_static_config_def static_price_msat_def
        from_kind_range KIND_LONGFORM_def KIND_CALL_INVITE_def KIND_CALL_BLOCK_def)
  obtain r st' where r: "chain_price_for_kind default_chain_config 5 sample_reads 0 None None = (r, st')"
    by fastforce
  then obtain p where "r = Inr p"
    by (auto simp: chain_price_for_kind_def base split: option.splits prod.splits)
  with r have c: "chain_price_for_kind default_chain_config 5 sample_reads 0 None None = (Inr p, st')"
    by simp
  have m: "cp_max_price_multiplier default_chain_config = F_Fin (of_nat 5)"
    by (simp add: default_chain_config_def DEFAULT_MAX_PRICE_MULTIPLIER_def)
  from c chain_price_between_base_and_cap [OF c base m] show ?thesis by auto
qed

text \<open>
  (C12) The multiplier arithmetic is exact: the result is the base price plus its fee
  adjustment rounded up, saturating at the 64-bit maximum, cut to the larger of base price
  and cap when a cap is set.
\<close>

theorem apply_multiplier_exact:
  "unat (apply_multiplier base fee sens mm) =
     (let adjustment = min (2 ^ 64 - 1)
            ((min (unat base * unat (effective_rate_milli fee sens)) (2 ^ 128 - 1) + 99999) div 100000);
          full = min (2 ^ 64 - 1) (unat base + adjustment);
          cap = max (unat (price_cap base (normalized_max_multiplier mm))) (unat base)
      in if f64_lt (F_Fin 0) (normalized_max_multiplier mm) then min full cap else full)"
proof -
  have full: "unat (sat_add base (fee_adjustment base (effective_rate_milli fee sens)))
      = min (2 ^ 64 - 1) (unat base + unat (fee_adjustment base (effective_rate_milli fee sens)))"
    by (simp add: word_nat min.commute)
  show ?thesis
    unfolding apply_multiplier_def Let_def fee_adjustment_eq [symmetric] full [symmetric]
      unat_max [symmetric] unat_min [symmetric]
    by simp
qed

text \<open>
  (C13) No price query and no snapshot can put an unusable fee rate into the cache: rates
  stay free of NaN and negative values through refreshes with arbitrary provider answers,
  and through seeding from an arbitrary snapshot.
\<close>

theorem fee_rates_stay_usable:
  assumes "chain_state_ok st"
  shows "chain_state_ok (snd (chain_price_for_kind cfg now rd k obs st))
    \<and> chain_state_ok (seed_ema cfg now_secs now snap st)"
  using assms chain_price_ok seed_ema_ok by blast

theorem fee_rates_stay_usable_witness:
  "chain_state_ok None
   \<and> chain_state_ok (snd (chain_price_for_kind default_chain_config 5 sample_reads 0 None None))"
proof -
  have ok: "chain_state_ok None" by (simp add: chain_state_ok_def)
  with fee_rates_stay_usable [OF ok] show ?thesis by blast
qed

end
