(* ===== verification/Peer_Prices.thy ===== *)
theory Peer_Prices
  imports Chain_Pricing Core_Types Lightning
begin

text \<open>
  The peer price cache of \<open>konsensus-pricing/src/peer_prices.rs\<close>: cached price
  tables and their staleness, the trust discount, and the construction of the table
  a node sends to its peers. Reads of the monotonic clock are the argument \<open>now\<close>.
\<close>

section \<open>Discounts\<close>

definition MAX_TRUST_DISCOUNT :: f64 where "MAX_TRUST_DISCOUNT = F_Fin (1 / 2)"
definition RESYNC_DISCOUNT :: f64 where "RESYNC_DISCOUNT = F_Fin (1 / 2)"
definition ADMISSION_FLOOR_KEY :: string where "ADMISSION_FLOOR_KEY = ''min_admission_cost_msat''"
definition DIFFICULTY_EPOCH :: u64 where "DIFFICULTY_EPOCH = 2016"

definition trust_discount_floor_msat :: "u64 \<Rightarrow> u64" where
  "trust_discount_floor_msat base_msat = max (discount_ceil base_msat MAX_TRUST_DISCOUNT) 1"

text \<open>
  The release build of \<open>apply_trust_discount\<close>; \<open>discounted_once\<close> is its \<open>result\<close>
  before the final clamp, on which the debug build asserts the floor.
\<close>

definition discounted_once :: "u64 \<Rightarrow> f64 \<Rightarrow> u64" where
  "discounted_once base_msat clamped = max (discount_ceil base_msat clamped) 1"

definition apply_trust_discount :: "u64 \<Rightarrow> f64 \<Rightarrow> u64" where
  "apply_trust_discount base_msat discount =
     (if \<not> f64_is_finite discount then base_msat
      else let clamped = f64_clamp discount (F_Fin 0) MAX_TRUST_DISCOUNT
           in if f64_eq clamped (F_Fin 0) then base_msat
              else max (discounted_once base_msat clamped) (trust_discount_floor_msat base_msat))"

definition compute_trust_discount :: "f64 \<Rightarrow> f64" where
  "compute_trust_discount w =
     (if \<not> f64_is_finite w then F_Fin 0
      else f64_mul MAX_TRUST_DISCOUNT (f64_clamp w (F_Fin 0) (F_Fin 1)))"

definition apply_resync_discount :: "u64 \<Rightarrow> u64" where
  "apply_resync_discount base_msat = max (discount_ceil base_msat RESYNC_DISCOUNT) 1"

definition compute_valid_blocks :: "u64 \<Rightarrow> u32" where
  "compute_valid_blocks block_height =
     (if block_height = 0 then 72
      else let position = block_height mod DIFFICULTY_EPOCH
           in if position \<le> 100 then 72 else if position \<ge> 1916 then 36 else 144)"

definition kind_key :: "u16 \<Rightarrow> string" where
  "kind_key kind = ''kind:'' @ show_word kind"

section \<open>Cached tables\<close>

record peer_price_entry =
  pe_prices :: "string \<rightharpoonup> u64"
  pe_block_height :: u64
  pe_valid_blocks :: u32
  pe_received_at :: instant
  pe_trust_discount :: f64

record peer_price_cache =
  pc_entries :: "node_id \<rightharpoonup> peer_price_entry"
  pc_current_height :: u64
  pc_kind_answers :: "((node_id \<times> u16) \<times> instant) list"

definition get_price_for_kind :: "peer_price_entry \<Rightarrow> u16 \<Rightarrow> u64 option" where
  "get_price_for_kind e kind =
     (let category_price = pe_prices e (price_table_key (from_kind kind))
      in if kind = KIND_CALL_INVITE \<or> kind = KIND_CALL_BLOCK
         then (case pe_prices e (kind_key kind) of Some p \<Rightarrow> Some p | None \<Rightarrow> category_price)
         else category_price)"

definition get_discounted_price_for_kind :: "peer_price_entry \<Rightarrow> u16 \<Rightarrow> u64 option" where
  "get_discounted_price_for_kind e kind =
     map_option
       (\<lambda>base. price_with_floor_msat (apply_trust_discount base (pe_trust_discount e))
                (case pe_prices e ADMISSION_FLOOR_KEY of Some f \<Rightarrow> f | None \<Rightarrow> 0))
       (get_price_for_kind e kind)"

definition is_stale :: "instant \<Rightarrow> peer_price_entry \<Rightarrow> u64 \<Rightarrow> nat \<Rightarrow> bool" where
  "is_stale now e current_block_height max_age =
     (if pe_block_height e = 0 then True
      else if now - pe_received_at e > max_age then True
      else pe_valid_blocks e > 0
           \<and> current_block_height > sat_add (pe_block_height e) (ucast (pe_valid_blocks e)))"

definition hour_ns :: nat where "hour_ns = 3600 * 1000000000"

definition cache_new :: peer_price_cache where
  "cache_new = \<lparr> pc_entries = Map.empty, pc_current_height = 0, pc_kind_answers = [] \<rparr>"

definition keep_cached_price ::
  "instant \<Rightarrow> peer_price_cache \<Rightarrow> peer_price_entry \<Rightarrow> u64 \<Rightarrow> u32 \<Rightarrow> bool" where
  "keep_cached_price now c old height valid_blocks =
     (let tip = (if pc_current_height c = 0 then pe_block_height old else pc_current_height c)
      in valid_blocks > 0
         \<and> sat_add height (ucast valid_blocks) < tip
         \<and> \<not> is_stale now old tip hour_ns)"

definition keeps_old :: "instant \<Rightarrow> peer_price_cache \<Rightarrow> node_id \<Rightarrow> u64 \<Rightarrow> u32 \<Rightarrow> bool" where
  "keeps_old now c peer_id height valid_blocks =
     (case pc_entries c peer_id of
        None \<Rightarrow> False
      | Some old \<Rightarrow> keep_cached_price now c old height valid_blocks)"

definition cache_update ::
  "instant \<Rightarrow> node_id \<Rightarrow> (string \<rightharpoonup> u64) \<Rightarrow> u64 \<Rightarrow> u32 \<Rightarrow> f64
   \<Rightarrow> peer_price_cache \<Rightarrow> peer_price_cache" where
  "cache_update now peer_id prices block_height valid_blocks trust_discount c =
     (if block_height = 0 \<or> keeps_old now c peer_id block_height valid_blocks then c
      else c \<lparr> pc_entries := (pc_entries c)(peer_id \<mapsto>
             \<lparr> pe_prices = prices, pe_block_height = block_height,
               pe_valid_blocks = valid_blocks, pe_received_at = now,
               pe_trust_discount = f64_clamp trust_discount (F_Fin 0) MAX_TRUST_DISCOUNT \<rparr>) \<rparr>)"

definition get_peer_price :: "peer_price_cache \<Rightarrow> node_id \<Rightarrow> u16 \<Rightarrow> u64 option" where
  "get_peer_price c peer_id kind =
     Option.bind (pc_entries c peer_id) (\<lambda>e. get_price_for_kind e kind)"

definition get_discounted_peer_price :: "peer_price_cache \<Rightarrow> node_id \<Rightarrow> u16 \<Rightarrow> u64 option" where
  "get_discounted_peer_price c peer_id kind =
     Option.bind (pc_entries c peer_id) (\<lambda>e. get_discounted_price_for_kind e kind)"

definition get_trust_discount :: "peer_price_cache \<Rightarrow> node_id \<Rightarrow> f64" where
  "get_trust_discount c peer_id =
     (case pc_entries c peer_id of None \<Rightarrow> F_Fin 0 | Some e \<Rightarrow> pe_trust_discount e)"

definition store_height :: "u64 \<Rightarrow> peer_price_cache \<Rightarrow> peer_price_cache" where
  "store_height h c = (if h > 0 then c \<lparr> pc_current_height := h \<rparr> else c)"

definition get_fresh_peer_price ::
  "instant \<Rightarrow> node_id \<Rightarrow> u16 \<Rightarrow> u64 \<Rightarrow> nat \<Rightarrow> peer_price_cache \<Rightarrow> u64 option \<times> peer_price_cache" where
  "get_fresh_peer_price now peer_id kind current_block_height max_age c =
     (let c' = store_height current_block_height c
      in (case pc_entries c' peer_id of
            None \<Rightarrow> None
          | Some e \<Rightarrow>
              if is_stale now e current_block_height max_age then None
              else get_price_for_kind e kind, c'))"

definition get_fresh_discounted_peer_price ::
  "instant \<Rightarrow> node_id \<Rightarrow> u16 \<Rightarrow> u64 \<Rightarrow> nat \<Rightarrow> peer_price_cache \<Rightarrow> u64 option \<times> peer_price_cache" where
  "get_fresh_discounted_peer_price now peer_id kind current_block_height max_age c =
     (let c' = store_height current_block_height c
      in (case pc_entries c' peer_id of
            None \<Rightarrow> None
          | Some e \<Rightarrow>
              if is_stale now e current_block_height max_age then None
              else get_discounted_price_for_kind e kind, c'))"

definition record_answer ::
  "instant \<Rightarrow> node_id \<times> u16 \<Rightarrow> ((node_id \<times> u16) \<times> instant) list
   \<Rightarrow> ((node_id \<times> u16) \<times> instant) list" where
  "record_answer now key answers =
     (let retained = filter (\<lambda>(_, t). now - t < hour_ns) answers;
          room = (if length answers \<ge> 4096
                  then (if length retained \<ge> 4096 then [] else retained)
                  else answers)
      in AList.update key now room)"

definition update_kind_price ::
  "instant \<Rightarrow> node_id \<Rightarrow> u16 \<Rightarrow> u64 \<Rightarrow> u64 \<Rightarrow> peer_price_cache \<Rightarrow> peer_price_cache" where
  "update_kind_price now peer_id kind price_msat block_height c =
     (let category_name =
            (if kind = KIND_CALL_INVITE \<or> kind = KIND_CALL_BLOCK then kind_key kind
             else price_table_key (from_kind kind));
          valid_blocks = compute_valid_blocks block_height
      in if block_height = 0
            \<or> sat_add block_height (ucast valid_blocks) < pc_current_height c
            \<or> keeps_old now c peer_id block_height valid_blocks
         then c
         else
           let entry =
                 (case pc_entries c peer_id of
                    Some e \<Rightarrow> e \<lparr> pe_prices := (pe_prices e)(category_name \<mapsto> price_msat),
                                pe_block_height := block_height, pe_received_at := now \<rparr>
                  | None \<Rightarrow> \<lparr> pe_prices = [category_name \<mapsto> price_msat],
                             pe_block_height = block_height, pe_valid_blocks = valid_blocks,
                             pe_received_at = now, pe_trust_discount = F_Fin 0 \<rparr>)
           in c \<lparr> pc_entries := (pc_entries c)(peer_id \<mapsto> entry),
                  pc_kind_answers := record_answer now (peer_id, kind) (pc_kind_answers c) \<rparr>)"

definition kind_answered_at :: "peer_price_cache \<Rightarrow> node_id \<Rightarrow> u16 \<Rightarrow> instant option" where
  "kind_answered_at c peer_id kind = map_of (pc_kind_answers c) (peer_id, kind)"

definition cache_remove :: "node_id \<Rightarrow> peer_price_cache \<Rightarrow> peer_price_cache" where
  "cache_remove peer_id c =
     c \<lparr> pc_entries := (pc_entries c)(peer_id := None),
         pc_kind_answers := filter (\<lambda>((p, _), _). p \<noteq> peer_id) (pc_kind_answers c) \<rparr>"

section \<open>Announced tables\<close>

definition table_categories :: "kind_category list" where
  "table_categories =
     [Communication, StructuredData, FilesMedia, Collaboration, RealTimeSignaling, WebContent,
      Control, AppExtension]"

definition insert_price :: "string \<Rightarrow> pricing_error + u64 \<Rightarrow> (string \<rightharpoonup> u64) \<Rightarrow> (string \<rightharpoonup> u64)" where
  "insert_price key r prices = (case r of Inr p \<Rightarrow> prices(key \<mapsto> p) | Inl _ \<Rightarrow> prices)"

definition insert_call_price :: "pricing_engine \<Rightarrow> u16 \<Rightarrow> (string \<rightharpoonup> u64) \<Rightarrow> (string \<rightharpoonup> u64)" where
  "insert_call_price pricing call prices =
     (case category_price_overrides pricing of
        None \<Rightarrow> prices
      | Some ks \<Rightarrow>
          if call \<in> set ks then insert_price (kind_key call) (get_price_msat pricing call) prices
          else prices)"

definition build_price_table :: "pricing_engine \<Rightarrow> (string \<rightharpoonup> u64)" where
  "build_price_table pricing =
     fold (insert_call_price pricing) [KIND_CALL_INVITE, KIND_CALL_BLOCK]
       (fold (\<lambda>cat. insert_price (price_table_key cat) (get_category_price_msat pricing cat))
          table_categories Map.empty)"

datatype trust_level = Spv | ServerTrust | FullValidation

record price_table_metadata =
  pt_prices :: "string \<rightharpoonup> u64"
  pt_block_height :: u64
  pt_valid_blocks :: u32
  pt_trust_level :: trust_level

text \<open>The chain provider's height answer and trust level are arguments.\<close>

definition build_full_price_table ::
  "pricing_engine \<Rightarrow> string + u64 \<Rightarrow> trust_level \<Rightarrow> lightning_error + price_table_metadata" where
  "build_full_price_table pricing height_result trust =
     (case height_result of
        Inl _ \<Rightarrow> Inl NotReady
      | Inr block_height \<Rightarrow>
          if block_height = 0 then Inl NotReady
          else Inr \<lparr> pt_prices = build_price_table pricing, pt_block_height = block_height,
                     pt_valid_blocks = compute_valid_blocks block_height,
                     pt_trust_level = trust \<rparr>)"

section \<open>Facts about discounts\<close>

lemma clamp_max_trust:
  assumes "f64_is_finite d"
  obtains q where "f64_clamp d (F_Fin 0) MAX_TRUST_DISCOUNT = F_Fin q" "0 \<le> q" "q \<le> 1 / 2"
  using f64_clamp_half [OF assms] unfolding MAX_TRUST_DISCOUNT_def .

text \<open>The debug assertion of \<open>apply_trust_discount\<close> never fires.\<close>

lemma discounted_once_ge_floor:
  assumes "f64_is_finite d"
  shows "trust_discount_floor_msat base
    \<le> discounted_once base (f64_clamp d (F_Fin 0) MAX_TRUST_DISCOUNT)"
proof -
  obtain q where q: "f64_clamp d (F_Fin 0) MAX_TRUST_DISCOUNT = F_Fin q" "0 \<le> q" "q \<le> 1 / 2"
    using assms by (rule clamp_max_trust)
  have "discount_ceil base (F_Fin (1 / 2)) \<le> discount_ceil base (F_Fin q)"
    using q by (intro discount_ceil_mono) auto
  then show ?thesis
    unfolding q(1) trust_discount_floor_msat_def discounted_once_def
    unfolding MAX_TRUST_DISCOUNT_def by (rule max.mono) simp
qed

lemma apply_trust_discount_bounds:
  assumes "unat base \<le> 2 ^ 53" "1 \<le> base"
  shows "(unat base + 1) div 2 \<le> unat (apply_trust_discount base d)"
    and "apply_trust_discount base d \<le> base"
proof -
  have base: "1 \<le> unat base" using assms(2) by (simp add: word_le_nat_alt)
  have half: "(unat base + 1) div 2 \<le> unat base" using base by linarith
  have "(unat base + 1) div 2 \<le> unat (apply_trust_discount base d)
      \<and> apply_trust_discount base d \<le> base"
  proof (cases "f64_is_finite d")
    case False
    then show ?thesis using half by (simp add: apply_trust_discount_def)
  next
    case True
    then obtain q where q: "f64_clamp d (F_Fin 0) MAX_TRUST_DISCOUNT = F_Fin q" "0 \<le> q" "q \<le> 1 / 2"
      by (rule clamp_max_trust)
    have b: "(unat base + 1) div 2 \<le> unat (discount_ceil base (F_Fin q))"
        "unat (discount_ceil base (F_Fin q)) \<le> unat base"
      using discount_ceil_bounds [OF assms(1) q(2,3)] by (simp_all add: word_le_nat_alt)
    have f: "unat (discount_ceil base (F_Fin (1 / 2))) = (unat base + 1) div 2"
      using assms(1) by (rule discount_ceil_half)
    have "apply_trust_discount base d =
        (if q = 0 then base
         else max (max (discount_ceil base (F_Fin q)) 1) (trust_discount_floor_msat base))"
      using True by (simp add: apply_trust_discount_def q(1) discounted_once_def)
    moreover have "unat (trust_discount_floor_msat base) = max ((unat base + 1) div 2) 1"
      unfolding trust_discount_floor_msat_def MAX_TRUST_DISCOUNT_def unat_max f by simp
    ultimately show ?thesis
      using b half base by (simp add: word_le_nat_alt unat_max)
  qed
  then show "(unat base + 1) div 2 \<le> unat (apply_trust_discount base d)"
    "apply_trust_discount base d \<le> base" by simp_all
qed

section \<open>Facts about tables\<close>

lemma kind_key_inject [simp]: "kind_key a = kind_key b \<longleftrightarrow> a = b"
  by (simp add: kind_key_def)

lemma kind_key_not_category [simp]: "kind_key k \<noteq> price_table_key c" "price_table_key c \<noteq> kind_key k"
  by (cases c; simp add: kind_key_def)+

lemma fold_prices_other:
  "(\<And>c. c \<in> set xs \<Longrightarrow> price_table_key c \<noteq> key) \<Longrightarrow>
   fold (\<lambda>cat. insert_price (price_table_key cat) (f cat)) xs m key = m key"
  by (induction xs arbitrary: m) (auto simp: insert_price_def split: sum.splits)

lemma fold_prices_category:
  "distinct xs \<Longrightarrow> c \<in> set xs \<Longrightarrow> f c = Inr p \<Longrightarrow>
   fold (\<lambda>cat. insert_price (price_table_key cat) (f cat)) xs m (price_table_key c) = Some p"
proof (induction xs arbitrary: m)
  case (Cons x xs)
  show ?case
  proof (cases "x = c")
    case True
    then have "fold (\<lambda>cat. insert_price (price_table_key cat) (f cat)) xs
        (insert_price (price_table_key c) (f c) m) (price_table_key c)
        = insert_price (price_table_key c) (f c) m (price_table_key c)"
      using Cons.prems by (intro fold_prices_other) auto
    with True Cons.prems(3) show ?thesis by simp (simp add: insert_price_def)
  next
    case False
    with Cons show ?thesis by auto
  qed
qed simp

lemma insert_call_price_category [simp]:
  "insert_call_price pricing call m (price_table_key c) = m (price_table_key c)"
  by (auto simp: insert_call_price_def insert_price_def split: option.splits sum.splits)

lemma insert_call_price_other:
  "call \<noteq> k \<Longrightarrow> insert_call_price pricing call m (kind_key k) = m (kind_key k)"
  by (auto simp: insert_call_price_def insert_price_def split: option.splits sum.splits)

lemma call_kinds_differ [simp]: "KIND_CALL_INVITE \<noteq> KIND_CALL_BLOCK" "KIND_CALL_BLOCK \<noteq> KIND_CALL_INVITE"
  by (simp_all add: KIND_CALL_INVITE_def KIND_CALL_BLOCK_def)

lemma build_price_table_category:
  assumes "c \<in> set table_categories" "get_category_price_msat pricing c = Inr p"
  shows "build_price_table pricing (price_table_key c) = Some p"
  using assms fold_prices_category [of table_categories c "get_category_price_msat pricing" p]
  by (simp add: build_price_table_def) (simp add: table_categories_def)

lemma build_price_table_call:
  assumes "k = KIND_CALL_INVITE \<or> k = KIND_CALL_BLOCK"
    and "category_price_overrides pricing = Some ks"
  shows "build_price_table pricing (kind_key k) =
    (if k \<in> set ks then (case get_price_msat pricing k of Inr p \<Rightarrow> Some p | Inl _ \<Rightarrow> None) else None)"
proof -
  have "fold (\<lambda>cat. insert_price (price_table_key cat) (get_category_price_msat pricing cat))
      table_categories Map.empty (kind_key k) = None"
    by (simp add: fold_prices_other)
  then show ?thesis
    using assms by (auto simp: build_price_table_def insert_call_price_other)
      (auto simp: insert_call_price_def insert_price_def split: sum.splits)
qed

context pricing_contract
begin

text \<open>A peer holding the announced table looks up exactly what this node charges.\<close>

lemma announced_price:
  assumes "category_price_overrides pricing = Some ks"
    and "set ks \<subseteq> {KIND_CALL_INVITE, KIND_CALL_BLOCK}"
    and "from_kind k \<in> set table_categories"
    and "get_price_msat pricing k = Inr p"
    and "pe_prices e = build_price_table pricing"
  shows "get_price_for_kind e k = Some p"
proof (cases "k \<in> set ks")
  case True
  with assms have "k = KIND_CALL_INVITE \<or> k = KIND_CALL_BLOCK" by auto
  with True assms show ?thesis
    by (simp add: get_price_for_kind_def build_price_table_call)
next
  case False
  with assms priced_kind_known have c: "get_category_price_msat pricing (from_kind k) = Inr p"
    by (metis category_price)
  then have "build_price_table pricing (price_table_key (from_kind k)) = Some p"
    by (rule build_price_table_category [OF assms(3)])
  with False assms show ?thesis
    by (auto simp: get_price_for_kind_def build_price_table_call Let_def)
qed

end

lemma length_AList_update: "length (AList.update k v xs) \<le> Suc (length xs)"
  by (induction xs) auto

lemma record_answer_length: "length (record_answer now key answers) \<le> 4096"
proof -
  define room where "room = (if length answers \<ge> 4096
           then (if length (filter (\<lambda>(_, t). now - t < hour_ns) answers) \<ge> 4096 then []
                 else filter (\<lambda>(_, t). now - t < hour_ns) answers) else answers)"
  have "length room < 4096" by (simp add: room_def)
  then have "Suc (length room) \<le> 4096" by simp
  with length_AList_update [of key now room] have "length (AList.update key now room) \<le> 4096"
    by (rule le_trans)
  then show ?thesis by (simp only: record_answer_def room_def Let_def)
qed

lemma update_kind_price_answers:
  "length (pc_kind_answers c) \<le> 4096 \<Longrightarrow>
   length (pc_kind_answers (update_kind_price now peer_id kind price h c)) \<le> 4096"
  by (simp add: update_kind_price_def Let_def record_answer_length)

lemma compute_valid_blocks_cases: "compute_valid_blocks h \<in> {36, 72, 144}"
  by (simp add: compute_valid_blocks_def Let_def)

lemma get_discounted_price_ge:
  "get_discounted_price_for_kind e k = Some p \<Longrightarrow> 1000 \<le> p"
  by (auto simp: get_discounted_price_for_kind_def price_with_floor_ge)

lemma compute_trust_discount_range:
  "\<exists>q. compute_trust_discount w = F_Fin q \<and> 0 \<le> q \<and> q \<le> 1 / 2"
proof (cases "f64_is_finite w")
  case True
  then obtain r where "w = F_Fin r" by (cases w) auto
  then have "f64_clamp w (F_Fin 0) (F_Fin 1) = F_Fin (min (max r 0) 1)"
    by (auto simp: f64_clamp_def)
  moreover have "0 \<le> rnd (1 / 2 * min (max r 0) 1)" "rnd (1 / 2 * min (max r 0) 1) \<le> 1 / 2"
    using rnd_mono [of "1 / 2 * min (max r 0) 1" "1 / 2"] by (simp_all add: rnd_nonneg)
  moreover have "(1::rat) / 2 < 2 ^ 1024" using one_less_pow1024 by linarith
  ultimately show ?thesis
    using True by (simp add: compute_trust_discount_def MAX_TRUST_DISCOUNT_def f64_round_small)
qed (simp add: compute_trust_discount_def)

section \<open>Properties\<close>

text \<open>A trust discount never takes more than half of a price, rounded up, and never raises
  it: for every base price from 1 to \<open>2^53\<close> msat and every discount, NaN and infinities
  included.
\<close>

theorem trust_discount_bounds:
  assumes "unat base \<le> 2 ^ 53" "1 \<le> base"
  shows "(unat base + 1) div 2 \<le> unat (apply_trust_discount base d) \<and> apply_trust_discount base d \<le> base"
  using apply_trust_discount_bounds [OF assms] by blast

theorem trust_discount_bounds_witness:
  "501 \<le> unat (apply_trust_discount 1001 (F_Fin (1 / 4))) \<and> apply_trust_discount 1001 (F_Fin (1 / 4)) \<le> 1001"
  using trust_discount_bounds [of 1001 "F_Fin (1 / 4)"] by simp

text \<open>
  The discount a node derives from a peer's synaptic weight lies between 0 and one half
  for every weight, NaN, infinities and out-of-range values included.
\<close>

theorem trust_discount_in_range: "\<exists>q. compute_trust_discount w = F_Fin q \<and> 0 \<le> q \<and> q \<le> 1 / 2"
  by (rule compute_trust_discount_range)



text \<open>
  (C20) Long-form messages are announced at the wrong price: whatever the configuration, the
  table carries the chat price for them while the engine charges the long-form price, so a
  sender that pays the looked-up price underpays whenever the two differ.
\<close>

theorem longform_announced_at_chat_price:
  assumes "pe_prices e = build_price_table (static_engine c)"
  shows "get_price_for_kind e KIND_LONGFORM = Some (chat_msat c)
    \<and> static_price_msat c KIND_LONGFORM = Inr (longform_msat c)"
proof -
  have "build_price_table (static_engine c) (price_table_key Communication) = Some (chat_msat c)"
    by (rule build_price_table_category) (simp_all add: table_categories_def static_engine_def)
  moreover have "KIND_LONGFORM \<noteq> KIND_CALL_INVITE" "KIND_LONGFORM \<noteq> KIND_CALL_BLOCK"
    by (simp_all add: KIND_LONGFORM_def KIND_CALL_INVITE_def KIND_CALL_BLOCK_def)
  ultimately show ?thesis
    using assms by (simp add: get_price_for_kind_def from_kind_special static_price_msat_def)
qed

theorem longform_announced_at_chat_price_witness:
  "get_price_for_kind
     \<lparr> pe_prices = build_price_table (static_engine default_static_config),
       pe_block_height = 1, pe_valid_blocks = 144, pe_received_at = 0, pe_trust_discount = F_Fin 0 \<rparr>
     KIND_LONGFORM = Some 10
   \<and> static_price_msat default_static_config KIND_LONGFORM = Inr 50"
  using longform_announced_at_chat_price [of "\<lparr> pe_prices = build_price_table (static_engine default_static_config),
       pe_block_height = 1, pe_valid_blocks = 144, pe_received_at = 0, pe_trust_discount = F_Fin 0 \<rparr>"
       default_static_config]
  by (simp add: default_static_config_def)

end
