(* ===== verification/Circuit_Breaker.thy ===== *)
theory Circuit_Breaker
  imports Lightning "HOL-Library.AList"
begin

text \<open>
  The circuit breaker around settlement lookups of
  \<open>konsensus-lightning/src/circuit_breaker.rs\<close>: the breaker state machine with its
  generations and half-open probe, the negative cache, and \<open>get_payment_status\<close> split
  at its await points. Concurrent lookups are the step relation \<open>cb_step\<close>: any
  number of calls interleave, time out, are cancelled or answered in any order.
\<close>

section \<open>State\<close>

record breaker_config =
  cb_call_timeout :: nat
  cb_failure_threshold :: u32
  cb_open_cooldown :: nat
  cb_negative_ttl :: nat
  cb_max_concurrent :: nat
  cb_negative_cache_cap :: nat

definition default_breaker_config :: breaker_config where
  "default_breaker_config =
     \<lparr> cb_call_timeout = 2 * 1000000000, cb_failure_threshold = 5,
       cb_open_cooldown = 20 * 1000000000, cb_negative_ttl = 3 * 1000000000,
       cb_max_concurrent = 16, cb_negative_cache_cap = 4096 \<rparr>"

record breaker_state =
  consecutive_failures :: u32
  open_until :: "nat option"
  generation :: u64
  probe_in_flight :: bool

record neg_entry =
  ne_details :: payment_details
  ne_cached_at :: nat

record breaker =
  br_state :: breaker_state
  br_cache :: "(string \<times> neg_entry) list"

definition breaker_new :: breaker where
  "breaker_new =
     \<lparr> br_state = \<lparr> consecutive_failures = 0, open_until = None, generation = 0,
                    probe_in_flight = False \<rparr>,
       br_cache = [] \<rparr>"

section \<open>Operations\<close>

definition em_dash :: string where "em_dash = [CHR 0xE2, CHR 0x80, CHR 0x94]"

definition circuit_open_error :: lightning_error where
  "circuit_open_error =
     Backend (''settlement-verification circuit open (backend unhealthy) '' @ em_dash
              @ '' fail-closed'')"

definition check_available :: "breaker_state \<Rightarrow> nat \<Rightarrow> lightning_error + u64" where
  "check_available st now =
     (if probe_in_flight st \<or> (case open_until st of Some t \<Rightarrow> now < t | None \<Rightarrow> False)
      then Inl circuit_open_error else Inr (generation st))"

text \<open>An admitted call carries its generation and whether it is the half-open probe.\<close>

definition admit_call :: "nat \<Rightarrow> breaker_state \<Rightarrow> (lightning_error + u64 \<times> bool) \<times> breaker_state" where
  "admit_call now st =
     (case check_available st now of
        Inl e \<Rightarrow> (Inl e, st)
      | Inr g \<Rightarrow>
          let probe = (open_until st \<noteq> None)
          in (Inr (g, probe), st \<lparr> probe_in_flight := probe \<rparr>))"

definition guard_drop :: "u64 \<Rightarrow> bool \<Rightarrow> breaker_state \<Rightarrow> breaker_state" where
  "guard_drop g probe st =
     (if probe \<and> generation st = g then st \<lparr> probe_in_flight := False \<rparr> else st)"

definition record_failure ::
  "breaker_config \<Rightarrow> nat \<Rightarrow> u64 \<Rightarrow> bool \<Rightarrow> breaker_state \<Rightarrow> breaker_state" where
  "record_failure cfg now g probe st =
     (if generation st \<noteq> g \<or> (open_until st \<noteq> None \<and> \<not> probe) then st
      else
        let st' = st \<lparr> consecutive_failures := sat_add (consecutive_failures st) 1 \<rparr>
        in if consecutive_failures st' \<ge> cb_failure_threshold cfg
           then st' \<lparr> open_until := Some (now + cb_open_cooldown cfg),
                      generation := generation st' + 1, probe_in_flight := False \<rparr>
           else st')"

definition record_success :: "u64 \<Rightarrow> breaker_state \<Rightarrow> breaker_state" where
  "record_success g st =
     (if generation st \<noteq> g then st
      else
        let st' = st \<lparr> consecutive_failures := 0 \<rparr>;
            st'' = (if open_until st' \<noteq> None
                    then st' \<lparr> open_until := None, generation := generation st' + 1 \<rparr>
                    else st')
        in st'' \<lparr> probe_in_flight := False \<rparr>)"

definition neg_cache_get ::
  "breaker_config \<Rightarrow> string \<Rightarrow> nat \<Rightarrow> (string \<times> neg_entry) list
   \<Rightarrow> payment_details option \<times> (string \<times> neg_entry) list" where
  "neg_cache_get cfg hash now cache =
     (case map_of cache hash of
        None \<Rightarrow> (None, cache)
      | Some entry \<Rightarrow>
          if now - ne_cached_at entry < cb_negative_ttl cfg
          then (Some (ne_details entry), cache)
          else (None, AList.delete hash cache))"

definition neg_cache_put ::
  "breaker_config \<Rightarrow> string \<Rightarrow> payment_details \<Rightarrow> nat \<Rightarrow> (string \<times> neg_entry) list
   \<Rightarrow> (string \<times> neg_entry) list" where
  "neg_cache_put cfg hash details now cache =
     (if pd_status details = Settled then cache
      else
        let entry = \<lparr> ne_details = details, ne_cached_at = now \<rparr>
        in if length cache \<ge> cb_negative_cache_cap cfg
           then let cache' = filter (\<lambda>(_, e). now - ne_cached_at e < cb_negative_ttl cfg) cache
                in if length cache' \<ge> cb_negative_cache_cap cfg then cache'
                   else AList.update hash entry cache'
           else AList.update hash entry cache)"

text \<open>
  \<open>get_payment_status\<close> up to its first await: fail fast, serve a cached non-settled
  result, or go on to wait for a slot with the generation just read.
\<close>

definition begin_call ::
  "breaker_config \<Rightarrow> nat \<Rightarrow> string \<Rightarrow> breaker
   \<Rightarrow> (lightning_error + payment_details + u64) \<times> breaker" where
  "begin_call cfg now hash b =
     (case check_available (br_state b) now of
        Inl e \<Rightarrow> (Inl e, b)
      | Inr g \<Rightarrow>
          (case neg_cache_get cfg hash now (br_cache b) of
             (Some d, cache') \<Rightarrow> (Inr (Inl d), b \<lparr> br_cache := cache' \<rparr>)
           | (None, cache') \<Rightarrow> (Inr (Inr g), b \<lparr> br_cache := cache' \<rparr>)))"

definition slot_timeout_error :: lightning_error where
  "slot_timeout_error =
     Backend (''settlement verification at capacity / timed out acquiring a slot '' @ em_dash
              @ '' fail-closed'')"

definition slot_timed_out :: "breaker_config \<Rightarrow> nat \<Rightarrow> u64 \<Rightarrow> breaker \<Rightarrow> breaker" where
  "slot_timed_out cfg now g b = b \<lparr> br_state := record_failure cfg now g False (br_state b) \<rparr>"

definition slot_granted :: "nat \<Rightarrow> breaker \<Rightarrow> (lightning_error + u64 \<times> bool) \<times> breaker" where
  "slot_granted now b =
     (case admit_call now (br_state b) of (r, st') \<Rightarrow> (r, b \<lparr> br_state := st' \<rparr>))"

text \<open>The backend's answer within the timeout, or the timeout itself.\<close>

datatype backend_outcome = Elapsed | Answered "lightning_error + payment_details"

definition call_timeout_error :: lightning_error where
  "call_timeout_error =
     Backend (''settlement verification timed out '' @ em_dash @ '' fail-closed'')"

text \<open>From the backend's answer to the return, the drop of the call guard included.\<close>

definition finish_call ::
  "breaker_config \<Rightarrow> nat \<Rightarrow> string \<Rightarrow> u64 \<Rightarrow> bool \<Rightarrow> backend_outcome \<Rightarrow> breaker
   \<Rightarrow> (lightning_error + payment_details) \<times> breaker" where
  "finish_call cfg now hash g probe outcome b =
     (let (res, b') =
        (case outcome of
           Elapsed \<Rightarrow>
             (Inl call_timeout_error,
              b \<lparr> br_state := record_failure cfg now g probe (br_state b) \<rparr>)
         | Answered (Inl e) \<Rightarrow>
             (Inl e, b \<lparr> br_state := record_failure cfg now g probe (br_state b) \<rparr>)
         | Answered (Inr d) \<Rightarrow>
             (Inr d,
              b \<lparr> br_state := record_success g (br_state b),
                  br_cache := (if pd_status d \<noteq> Settled
                               then neg_cache_put cfg hash d now (br_cache b)
                               else br_cache b) \<rparr>))
      in (res, b' \<lparr> br_state := guard_drop g probe (br_state b') \<rparr>))"

text \<open>
  One lookup with nothing interleaved: clock readings at entry, at slot acquisition
  and at the answer, whether a slot was granted in time, and the backend's outcome.
\<close>

definition cb_get_payment_status ::
  "breaker_config \<Rightarrow> nat \<Rightarrow> bool \<Rightarrow> nat \<Rightarrow> backend_outcome \<Rightarrow> nat \<Rightarrow> string \<Rightarrow> breaker
   \<Rightarrow> (lightning_error + payment_details) \<times> breaker" where
  "cb_get_payment_status cfg now1 slot now2 outcome now3 hash b =
     (case begin_call cfg now1 hash b of
        (Inl e, b1) \<Rightarrow> (Inl e, b1)
      | (Inr (Inl d), b1) \<Rightarrow> (Inr d, b1)
      | (Inr (Inr g), b1) \<Rightarrow>
          if \<not> slot then (Inl slot_timeout_error, slot_timed_out cfg now2 g b1)
          else (case slot_granted now2 b1 of
                  (Inl e, b2) \<Rightarrow> (Inl e, b2)
                | (Inr (g', probe), b2) \<Rightarrow> finish_call cfg now3 hash g' probe outcome b2))"

definition cb_is_funding_payment ::
  "bool \<Rightarrow> lightning_error + bool \<Rightarrow> lightning_error + bool" where
  "cb_is_funding_payment in_time answer =
     (if in_time then answer else Inl (Backend ''funding-purpose lookup timeout''))"

section \<open>Interleaved calls\<close>

text \<open>
  A call in flight: waiting for a slot or at the backend. The last component is a
  history variable, the value of \<open>sys_epoch\<close> when the generation was read;
  \<open>sys_epoch\<close> counts the generation changes.
\<close>

datatype cb_call = Waiting string u64 nat | Calling string u64 bool nat

record cb_sys =
  sys_br :: breaker
  sys_calls :: "nat \<rightharpoonup> cb_call"
  sys_epoch :: nat

definition sys_init :: cb_sys where
  "sys_init = \<lparr> sys_br = breaker_new, sys_calls = Map.empty, sys_epoch = 0 \<rparr>"

definition calling_ids :: "cb_sys \<Rightarrow> nat set" where
  "calling_ids s = {i. \<exists>h g p t. sys_calls s i = Some (Calling h g p t)}"

definition set_br :: "breaker \<Rightarrow> cb_sys \<Rightarrow> cb_sys" where
  "set_br b s =
     s \<lparr> sys_br := b,
         sys_epoch := sys_epoch s
           + (if generation (br_state b) = generation (br_state (sys_br s)) then 0 else 1) \<rparr>"

definition set_call :: "nat \<Rightarrow> cb_call option \<Rightarrow> cb_sys \<Rightarrow> cb_sys" where
  "set_call i c s = s \<lparr> sys_calls := (sys_calls s)(i := c) \<rparr>"

inductive cb_step :: "breaker_config \<Rightarrow> cb_sys \<Rightarrow> cb_sys \<Rightarrow> bool" for cfg where
  enter: "sys_calls s i = None \<Longrightarrow> begin_call cfg now h (sys_br s) = (Inr (Inr g), b)
    \<Longrightarrow> cb_step cfg s (set_call i (Some (Waiting h g (sys_epoch s))) (set_br b s))"
| enter_cached: "begin_call cfg now h (sys_br s) = (Inr (Inl d), b) \<Longrightarrow> cb_step cfg s (set_br b s)"
| enter_refused: "begin_call cfg now h (sys_br s) = (Inl e, b) \<Longrightarrow> cb_step cfg s (set_br b s)"
| slot_late: "sys_calls s i = Some (Waiting h g t)
    \<Longrightarrow> cb_step cfg s (set_call i None (set_br (slot_timed_out cfg now g (sys_br s)) s))"
| slot: "sys_calls s i = Some (Waiting h g t)
    \<Longrightarrow> card (calling_ids s) < max (cb_max_concurrent cfg) 1
    \<Longrightarrow> slot_granted now (sys_br s) = (Inr (g', p), b)
    \<Longrightarrow> cb_step cfg s (set_call i (Some (Calling h g' p (sys_epoch s))) (set_br b s))"
| slot_refused: "sys_calls s i = Some (Waiting h g t)
    \<Longrightarrow> slot_granted now (sys_br s) = (Inl e, b)
    \<Longrightarrow> cb_step cfg s (set_call i None (set_br b s))"
| answer: "sys_calls s i = Some (Calling h g p t)
    \<Longrightarrow> finish_call cfg now h g p outcome (sys_br s) = (r, b)
    \<Longrightarrow> cb_step cfg s (set_call i None (set_br b s))"
| cancel_waiting: "sys_calls s i = Some (Waiting h g t) \<Longrightarrow> cb_step cfg s (set_call i None s)"
| cancel_calling: "sys_calls s i = Some (Calling h g p t)
    \<Longrightarrow> b = (sys_br s) \<lparr> br_state := guard_drop g p (br_state (sys_br s)) \<rparr>
    \<Longrightarrow> cb_step cfg s (set_call i None (set_br b s))"

text \<open>The calls that are the half-open probe of the current generation.\<close>

definition probes :: "cb_sys \<Rightarrow> nat set" where
  "probes s = {i. \<exists>h g. sys_calls s i = Some (Calling h g True (sys_epoch s))}"

fun call_fits :: "nat \<Rightarrow> cb_call \<Rightarrow> bool" where
  "call_fits epoch (Waiting h g t) = (g = of_nat t \<and> t \<le> epoch)"
| "call_fits epoch (Calling h g p t) = (g = of_nat t \<and> t \<le> epoch)"

definition cache_ok :: "breaker_config \<Rightarrow> (string \<times> neg_entry) list \<Rightarrow> bool" where
  "cache_ok cfg cache =
     (length cache \<le> cb_negative_cache_cap cfg
      \<and> (\<forall>x \<in> set cache. pd_status (ne_details (snd x)) \<noteq> Settled))"

definition breaker_ok :: "breaker_config \<Rightarrow> breaker_state \<Rightarrow> bool" where
  "breaker_ok cfg st =
     (open_until st \<noteq> None \<longrightarrow> cb_failure_threshold cfg \<le> consecutive_failures st)"

definition sys_inv :: "breaker_config \<Rightarrow> cb_sys \<Rightarrow> bool" where
  "sys_inv cfg s =
     (generation (br_state (sys_br s)) = of_nat (sys_epoch s)
      \<and> (\<forall>i c. sys_calls s i = Some c \<longrightarrow> call_fits (sys_epoch s) c)
      \<and> cache_ok cfg (br_cache (sys_br s)) \<and> breaker_ok cfg (br_state (sys_br s))
      \<and> finite (dom (sys_calls s)) \<and> card (calling_ids s) \<le> max (cb_max_concurrent cfg) 1
      \<and> (sys_epoch s < 2 ^ 64 \<longrightarrow>
           probe_in_flight (br_state (sys_br s)) = (probes s \<noteq> {})
           \<and> (\<forall>i \<in> probes s. \<forall>j \<in> probes s. i = j)
           \<and> (probes s \<noteq> {} \<longrightarrow> open_until (br_state (sys_br s)) \<noteq> None)))"

text \<open>
  The effect of a leaving call: a new generation without a probe, or the old one,
  whose probe is gone if the call was the probe.
\<close>

definition settles :: "bool \<Rightarrow> breaker_state \<Rightarrow> breaker_state \<Rightarrow> bool" where
  "settles p st st' \<longleftrightarrow>
     generation st' = generation st + 1 \<and> \<not> probe_in_flight st'
     \<or> generation st' = generation st \<and> open_until st' = open_until st
       \<and> probe_in_flight st' = (probe_in_flight st \<and> \<not> p)"

definition sample_settled :: payment_details where
  "sample_settled =
     \<lparr> pd_payment_hash = ''ab'', pd_preimage = Some ''cd'', pd_amount_msat = 1000, pd_status = Settled,
       pd_direction = Incoming, pd_timestamp = 1, pd_memo = None, pd_fee_msat = None \<rparr>"

section \<open>Facts\<close>

lemma cache_ok_get:
  assumes "cache_ok cfg cache" "neg_cache_get cfg h now cache = (r, cache')"
  shows "cache_ok cfg cache'" and "r = Some d \<Longrightarrow> pd_status d \<noteq> Settled"
proof -
  have "set (AList.delete h cache) \<subseteq> set cache" "length (AList.delete h cache) \<le> length cache"
    by (auto simp: AList.delete_eq)
  with assms show "cache_ok cfg cache'"
    by (force simp: neg_cache_get_def cache_ok_def split: option.splits if_splits)
  show "r = Some d \<Longrightarrow> pd_status d \<noteq> Settled"
    using assms map_of_SomeD [of cache h]
    by (fastforce simp: neg_cache_get_def cache_ok_def split: option.splits if_splits)
qed

lemma set_AList_update: "set (AList.update k v xs) \<subseteq> insert (k, v) (set xs)"
  by (induction xs) auto

lemma length_AList_update_le: "length (AList.update k v xs) \<le> Suc (length xs)"
  by (induction xs) auto

lemma cache_ok_put:
  assumes "cache_ok cfg cache"
  shows "cache_ok cfg (neg_cache_put cfg h d now cache)"
proof -
  have upd: "cache_ok cfg (AList.update h \<lparr> ne_details = d, ne_cached_at = now \<rparr> xs)"
    if "set xs \<subseteq> set cache" "length xs < cb_negative_cache_cap cfg" "pd_status d \<noteq> Settled" for xs
  proof -
    have "length (AList.update h \<lparr> ne_details = d, ne_cached_at = now \<rparr> xs)
        \<le> cb_negative_cache_cap cfg"
      using length_AList_update_le [of h "\<lparr> ne_details = d, ne_cached_at = now \<rparr>" xs] that(2)
      by simp
    then show ?thesis
      using assms that set_AList_update [of h "\<lparr> ne_details = d, ne_cached_at = now \<rparr>" xs]
      by (fastforce simp: cache_ok_def)
  qed
  have "cache_ok cfg (filter P cache)" for P
    using assms le_trans [OF length_filter_le [of P cache]] by (auto simp: cache_ok_def)
  with assms show ?thesis
    by (auto simp: neg_cache_put_def Let_def upd)
qed

text \<open>What an answer can do to the breaker state.\<close>

lemma finish_call_state:
  "br_state (snd (finish_call cfg now h g p outcome b)) =
     guard_drop g p
       (case outcome of Answered (Inr d) \<Rightarrow> record_success g (br_state b)
        | _ \<Rightarrow> record_failure cfg now g p (br_state b))"
  by (simp add: finish_call_def split: backend_outcome.splits sum.splits)

lemma finish_call_cache:
  "cache_ok cfg (br_cache b) \<Longrightarrow> cache_ok cfg (br_cache (snd (finish_call cfg now h g p outcome b)))"
  by (simp add: finish_call_def cache_ok_put split: backend_outcome.splits sum.splits)

lemma finish_stale:
  "g \<noteq> generation (br_state b) \<Longrightarrow> br_state (snd (finish_call cfg now h g p outcome b)) = br_state b"
  by (auto simp: finish_call_state guard_drop_def record_success_def record_failure_def
      split: backend_outcome.splits sum.splits)

lemma succ_word_neq [simp]: "(g :: u64) + 1 \<noteq> g"
  by simp

lemma sat_add_one_ge: "(t :: u32) \<le> c \<Longrightarrow> t \<le> sat_add c 1"
  using sat_add_ge order_trans by blast

lemma record_failure_settles:
  assumes "breaker_ok cfg st" "open_until st = None \<longrightarrow> \<not> probe_in_flight st"
  shows "g = generation st \<Longrightarrow> settles p st (guard_drop g p (record_failure cfg now g p st))"
    and "settles False st (record_failure cfg now g False st)"
    and "breaker_ok cfg (guard_drop g p (record_failure cfg now g p st))"
    and "breaker_ok cfg (record_failure cfg now g p st)"
  using assms sat_add_one_ge
  by (auto simp: settles_def guard_drop_def record_failure_def breaker_ok_def Let_def)

lemma record_success_settles:
  assumes "breaker_ok cfg st" "open_until st = None \<longrightarrow> \<not> probe_in_flight st"
  shows "g = generation st \<Longrightarrow> settles p st (guard_drop g p (record_success g st))"
    and "breaker_ok cfg (guard_drop g p (record_success g st))"
  using assms by (auto simp: settles_def guard_drop_def record_success_def breaker_ok_def Let_def)


lemma sys_invD:
  assumes "sys_inv cfg s"
  shows "generation (br_state (sys_br s)) = of_nat (sys_epoch s)"
    and "sys_calls s i = Some c \<Longrightarrow> call_fits (sys_epoch s) c"
    and "cache_ok cfg (br_cache (sys_br s))" and "breaker_ok cfg (br_state (sys_br s))"
    and "finite (dom (sys_calls s))" and "card (calling_ids s) \<le> max (cb_max_concurrent cfg) 1"
    and "sys_epoch s < 2 ^ 64 \<Longrightarrow>
           probe_in_flight (br_state (sys_br s)) = (probes s \<noteq> {})
           \<and> (\<forall>i \<in> probes s. \<forall>j \<in> probes s. i = j)
           \<and> (probes s \<noteq> {} \<longrightarrow> open_until (br_state (sys_br s)) \<noteq> None)"
  using assms by (simp_all add: sys_inv_def)

lemma set_sel [simp]:
  "sys_br (set_call i c s) = sys_br s" "sys_epoch (set_call i c s) = sys_epoch s"
  "sys_calls (set_call i c s) = (sys_calls s)(i := c)"
  "sys_br (set_br b s) = b" "sys_calls (set_br b s) = sys_calls s"
  by (simp_all add: set_call_def set_br_def)

lemma calling_ids_upd:
  "calling_ids (set_call i (Some (Waiting h g t)) s) = calling_ids s - {i}"
  "calling_ids (set_call i None s) = calling_ids s - {i}"
  "calling_ids (set_call i (Some (Calling h g p t)) s) = insert i (calling_ids s)"
  "calling_ids (set_br b s) = calling_ids s"
  by (auto simp: calling_ids_def)

lemma finite_calling: "finite (dom (sys_calls s)) \<Longrightarrow> finite (calling_ids s)"
  by (rule finite_subset [of _ "dom (sys_calls s)"]) (auto simp: calling_ids_def)

lemma epoch_set_br:
  "sys_epoch (set_br b s) =
     sys_epoch s + (if generation (br_state b) = generation (br_state (sys_br s)) then 0 else 1)"
  by (simp add: set_br_def)

lemma call_fits_mono: "call_fits e c \<Longrightarrow> e \<le> e' \<Longrightarrow> call_fits e' c"
  by (cases c) auto

lemma of_nat_u64_inject:
  assumes "a < 2 ^ 64" "b < 2 ^ 64"
  shows "(of_nat a :: u64) = of_nat b \<longleftrightarrow> a = b"
proof -
  have "unat (of_nat a :: u64) = a" "unat (of_nat b :: u64) = b"
    using assms by (simp_all add: unsigned_of_nat take_bit_nat_eq_self)
  then show ?thesis by metis
qed

lemma call_current:
  assumes "sys_inv cfg s" "sys_epoch s < 2 ^ 64" "sys_calls s i = Some (Calling h g p t)"
  shows "g = generation (br_state (sys_br s)) \<longleftrightarrow> t = sys_epoch s"
proof -
  have "g = of_nat t" "t \<le> sys_epoch s" "generation (br_state (sys_br s)) = of_nat (sys_epoch s)"
    using sys_invD(1) [OF assms(1)] sys_invD(2) [OF assms(1,3)] by auto
  with assms(2) show ?thesis using of_nat_u64_inject [of t "sys_epoch s"] by simp
qed

text \<open>A call leaves, and the breaker settles as far as its being the probe goes.\<close>

lemma inv_leave:
  assumes inv: "sys_inv cfg s" and b: "cache_ok cfg (br_cache b)" "breaker_ok cfg (br_state b)"
    and st: "sys_epoch s < 2 ^ 64 \<Longrightarrow> settles (i \<in> probes s) (br_state (sys_br s)) (br_state b)"
    and gen: "generation (br_state b) = generation (br_state (sys_br s))
      \<or> generation (br_state b) = generation (br_state (sys_br s)) + 1"
  shows "sys_inv cfg (set_call i None (set_br b s))"
proof -
  let ?s = "set_call i None (set_br b s)"
  note I = sys_invD [OF inv]
  have 1: "generation (br_state b) = of_nat (sys_epoch ?s)"
    using gen I(1) by (auto simp: epoch_set_br)
  have 2: "sys_calls ?s j = Some c \<Longrightarrow> call_fits (sys_epoch ?s) c" for j c
    using I(2) [of j c] by (auto simp: epoch_set_br intro: call_fits_mono split: if_splits)
  have 3: "card (calling_ids ?s) \<le> max (cb_max_concurrent cfg) 1"
    using I(6) card_Diff1_le [of "calling_ids s" i] by (simp only: calling_ids_upd)
  have 4: "probe_in_flight (br_state b) = (probes ?s \<noteq> {})
      \<and> (\<forall>i \<in> probes ?s. \<forall>j \<in> probes ?s. i = j)
      \<and> (probes ?s \<noteq> {} \<longrightarrow> open_until (br_state b) \<noteq> None)" if "sys_epoch ?s < 2 ^ 64"
  proof -
    from that have lt: "sys_epoch s < 2 ^ 64" by (simp add: epoch_set_br)
    show ?thesis
    proof (cases "generation (br_state b) = generation (br_state (sys_br s))")
      case True
      then have "probes ?s = probes s - {i}" by (auto simp: probes_def epoch_set_br)
      with st [OF lt] True I(7) [OF lt] show ?thesis
        by (auto simp: settles_def)
    next
      case False
      have "probes ?s = {}"
        using I(2) by (fastforce simp: probes_def epoch_set_br False split: if_splits)
      with st [OF lt] False show ?thesis by (auto simp: settles_def)
    qed
  qed
  show ?thesis
    using 1 2 3 4 b I(5) by (simp add: sys_inv_def)
qed

lemma inv_probe_closed:
  "sys_inv cfg s \<Longrightarrow> sys_epoch s < 2 ^ 64 \<Longrightarrow>
   open_until (br_state (sys_br s)) = None \<longrightarrow> \<not> probe_in_flight (br_state (sys_br s))"
  using sys_invD(7) by blast

lemma inv_cache:
  assumes "sys_inv cfg s" "br_state b = br_state (sys_br s)" "cache_ok cfg (br_cache b)"
  shows "sys_inv cfg (set_br b s)"
proof -
  have "probes (set_br b s) = probes s" "sys_epoch (set_br b s) = sys_epoch s"
    using assms(2) by (auto simp: probes_def epoch_set_br)
  with assms show ?thesis by (simp add: sys_inv_def calling_ids_upd)
qed

lemma begin_call_effect:
  assumes "begin_call cfg now h b = (r, b')"
  shows "br_state b' = br_state b" and "cache_ok cfg (br_cache b) \<Longrightarrow> cache_ok cfg (br_cache b')"
    and "r = Inr (Inr g) \<Longrightarrow> g = generation (br_state b)"
    and "cache_ok cfg (br_cache b) \<Longrightarrow> r = Inr (Inl d) \<Longrightarrow> pd_status d \<noteq> Settled"
  using assms cache_ok_get
  by (auto simp: begin_call_def check_available_def split: sum.splits prod.splits option.splits if_splits)

lemma inv_enter:
  assumes inv: "sys_inv cfg s" and free: "sys_calls s i = None" and g: "g = generation (br_state (sys_br s))"
  shows "sys_inv cfg (set_call i (Some (Waiting h g (sys_epoch s))) s)"
proof -
  note I = sys_invD [OF inv]
  have "probes (set_call i (Some (Waiting h g (sys_epoch s))) s) = probes s"
    using free by (auto simp: probes_def)
  moreover have "calling_ids s - {i} = calling_ids s" using free by (auto simp: calling_ids_def)
  ultimately show ?thesis
    using I g by (auto simp: sys_inv_def calling_ids_upd)
qed

lemma inv_admit:
  assumes inv: "sys_inv cfg s" and w: "sys_calls s i = Some (Waiting h g0 t)"
    and room: "card (calling_ids s) < max (cb_max_concurrent cfg) 1"
    and a: "slot_granted now (sys_br s) = (Inr (g, p), b)"
  shows "sys_inv cfg (set_call i (Some (Calling h g p (sys_epoch s))) (set_br b s))"
proof -
  let ?st = "br_state (sys_br s)"
  note I = sys_invD [OF inv]
  have b: "g = generation ?st" "p = (open_until ?st \<noteq> None)" "\<not> probe_in_flight ?st"
      "b = (sys_br s) \<lparr> br_state := ?st \<lparr> probe_in_flight := p \<rparr> \<rparr>"
    using a by (auto simp: slot_granted_def admit_call_def check_available_def Let_def split: if_splits)
  have e: "sys_epoch (set_br b s) = sys_epoch s" by (simp add: epoch_set_br b)
  have i: "i \<notin> calling_ids s" using w by (simp add: calling_ids_def)
  let ?s = "set_call i (Some (Calling h g p (sys_epoch s))) (set_br b s)"
  have pr: "probes ?s = (if p then insert i (probes s) else probes s)"
    using w by (auto simp: probes_def e)
  have "sys_epoch s < 2 ^ 64 \<Longrightarrow> probes s = {}" using I(7) b(3) by blast
  then have "sys_epoch s < 2 ^ 64 \<longrightarrow>
      p = (probes ?s \<noteq> {}) \<and> (\<forall>i \<in> probes ?s. \<forall>j \<in> probes ?s. i = j)
      \<and> (probes ?s \<noteq> {} \<longrightarrow> open_until ?st \<noteq> None)"
    unfolding pr using b(2) by auto
  moreover have "card (calling_ids ?s) \<le> max (cb_max_concurrent cfg) 1"
    using room i finite_calling [OF I(5)] by (simp add: calling_ids_upd)
  moreover have "generation (br_state b) = generation ?st" "open_until (br_state b) = open_until ?st"
      "probe_in_flight (br_state b) = p" "br_cache b = br_cache (sys_br s)"
      "consecutive_failures (br_state b) = consecutive_failures ?st"
    by (simp_all add: b(4))
  ultimately show ?thesis
    using I(1-5) b(1) unfolding sys_inv_def set_sel e breaker_ok_def by auto
qed

lemma slot_refused_state: "slot_granted now b = (Inl e, b') \<Longrightarrow> b' = b"
  by (auto simp: slot_granted_def admit_call_def check_available_def Let_def split: if_splits)

lemma settles_refl: "settles False st st"
  by (simp add: settles_def)

lemma waiting_not_probe: "sys_calls s i = Some (Waiting h g t) \<Longrightarrow> i \<notin> probes s"
  by (simp add: probes_def)

lemma record_failure_gen:
  "generation (record_failure cfg now g p st) = generation st
   \<or> generation (record_failure cfg now g p st) = generation st + 1"
  by (simp add: record_failure_def Let_def)

lemma finish_gen:
  "generation (br_state (snd (finish_call cfg now h g p outcome b))) = generation (br_state b)
   \<or> generation (br_state (snd (finish_call cfg now h g p outcome b))) = generation (br_state b) + 1"
  by (auto simp: finish_call_state guard_drop_def record_success_def record_failure_def Let_def
      split: backend_outcome.splits sum.splits)

lemma finish_effect:
  assumes "breaker_ok cfg (br_state b)"
    and "finish_call cfg now h g p outcome b = (r, b')"
  shows "breaker_ok cfg (br_state b')"
    and "open_until (br_state b) = None \<longrightarrow> \<not> probe_in_flight (br_state b)
      \<Longrightarrow> g = generation (br_state b) \<Longrightarrow> settles p (br_state b) (br_state b')"
proof -
  have b': "b' = snd (finish_call cfg now h g p outcome b)" using assms(2) by simp
  show "breaker_ok cfg (br_state b')"
    using assms(1) sat_add_one_ge unfolding b' finish_call_state
    by (auto simp: guard_drop_def record_failure_def record_success_def breaker_ok_def Let_def
        split: backend_outcome.splits sum.splits)
  show "open_until (br_state b) = None \<longrightarrow> \<not> probe_in_flight (br_state b)
      \<Longrightarrow> g = generation (br_state b) \<Longrightarrow> settles p (br_state b) (br_state b')"
    using record_failure_settles(1) [OF assms(1)] record_success_settles(1) [OF assms(1)]
    unfolding b' finish_call_state by (auto split: backend_outcome.splits sum.splits)
qed

lemma cb_step_inv: "cb_step cfg s s' \<Longrightarrow> sys_inv cfg s \<Longrightarrow> sys_inv cfg s'"
proof (induction rule: cb_step.induct)
  case (enter s i now h g b)
  then have "sys_inv cfg (set_br b s)" "g = generation (br_state b)" 
    using begin_call_effect [OF enter.hyps(2)] sys_invD(3) by (auto intro: inv_cache)
  with inv_enter [of cfg "set_br b s" i g h] enter show ?case
    using begin_call_effect(1) [OF enter.hyps(2)] by (simp add: epoch_set_br)
next
  case (enter_cached now h s d b)
  then show ?case using begin_call_effect [OF enter_cached.hyps] sys_invD(3) by (auto intro: inv_cache)
next
  case (enter_refused now h s e b)
  then show ?case using begin_call_effect [OF enter_refused.hyps] sys_invD(3) by (auto intro: inv_cache)
next
  case (slot_late s i h g t now)
  then have "breaker_ok cfg (br_state (sys_br s))" by (simp add: sys_invD)
  then show ?case
    using slot_late sys_invD(3) inv_probe_closed record_failure_gen
      record_failure_settles(2,4) [of cfg "br_state (sys_br s)"]
    by (intro inv_leave) (auto simp: waiting_not_probe slot_timed_out_def breaker_ok_def record_failure_def Let_def sat_add_one_ge)
next
  case (slot s i h g t now g' p b)
  then show ?case by (intro inv_admit)
next
  case (slot_refused s i h g t now e b)
  then have "b = sys_br s" by (simp add: slot_refused_state)
  with slot_refused show ?case
    using sys_invD(3,4) by (intro inv_leave) (auto simp: waiting_not_probe settles_refl)
next
  case (answer s i h g p t now outcome r b)
  let ?st = "br_state (sys_br s)"
  have b: "b = snd (finish_call cfg now h g p outcome (sys_br s))" using answer.hyps(2) by simp
  have ok: "breaker_ok cfg ?st" using answer.prems by (rule sys_invD)
  have "settles (i \<in> probes s) ?st (br_state b)" if lt: "sys_epoch s < 2 ^ 64"
  proof (cases "t = sys_epoch s")
    case True
    then have "g = generation ?st" "(i \<in> probes s) = p"
      using call_current [OF answer.prems lt answer.hyps(1)] answer.hyps(1) by (auto simp: probes_def)
    with finish_effect(2) [OF ok answer.hyps(2) inv_probe_closed [OF answer.prems lt]]
    show ?thesis by simp
  next
    case False
    then have "g \<noteq> generation ?st" "i \<notin> probes s"
      using call_current [OF answer.prems lt answer.hyps(1)] answer.hyps(1) by (auto simp: probes_def)
    then show ?thesis unfolding b by (simp add: finish_stale settles_refl)
  qed
  then show ?case
    using answer.prems finish_effect(1) [OF ok answer.hyps(2)] finish_gen [of cfg now h g p outcome]
      finish_call_cache [OF sys_invD(3) [OF answer.prems], of now h g p outcome]
    unfolding b by (intro inv_leave) auto
next
  case (cancel_waiting s i h g t)
  then have "sys_inv cfg (set_call i None (set_br (sys_br s) s))"
    using sys_invD(3,4) by (intro inv_leave) (auto simp: waiting_not_probe settles_refl)
  then show ?case by (simp add: set_br_def)
next
  case (cancel_calling s i h g p t b)
  let ?st = "br_state (sys_br s)"
  have "settles (i \<in> probes s) ?st (guard_drop g p ?st)" if lt: "sys_epoch s < 2 ^ 64"
    using call_current [OF cancel_calling.prems lt cancel_calling.hyps(1)] cancel_calling.hyps(1)
    by (auto simp: probes_def settles_def guard_drop_def)
  moreover have "breaker_ok cfg (guard_drop g p ?st)" "generation (guard_drop g p ?st) = generation ?st"
    using sys_invD(4) [OF cancel_calling.prems] by (simp_all add: guard_drop_def breaker_ok_def)
  ultimately show ?case
    using cancel_calling sys_invD(3) by (intro inv_leave) auto
qed

lemma sys_inv_init: "sys_inv cfg sys_init"
  by (simp add: sys_inv_def sys_init_def breaker_new_def cache_ok_def breaker_ok_def
      calling_ids_def probes_def)

lemma cb_reachable_inv: "(cb_step cfg)\<^sup>*\<^sup>* sys_init s \<Longrightarrow> sys_inv cfg s"
  by (induction rule: rtranclp_induct) (auto intro: sys_inv_init cb_step_inv)

lemma finish_call_result:
  "finish_call cfg now h g p outcome b = (Inr d, b') \<Longrightarrow> outcome = Answered (Inr d)"
  by (auto simp: finish_call_def split: backend_outcome.splits sum.splits)

lemma cb_settled_from_backend:
  assumes "cache_ok cfg (br_cache b)"
    and "cb_get_payment_status cfg now1 slot now2 outcome now3 h b = (Inr d, b')"
    and "pd_status d = Settled"
  shows "slot \<and> outcome = Answered (Inr d)"
proof -
  obtain r b1 where r: "begin_call cfg now1 h b = (r, b1)" by force
  have "r \<noteq> Inr (Inl d)" using begin_call_effect(4) [OF r assms(1)] assms(3) by blast
  with assms(2) r show ?thesis
    by (auto simp: cb_get_payment_status_def split: prod.splits sum.splits if_splits
        dest: finish_call_result)
qed

lemma open_fast_fail:
  assumes "open_until (br_state b) = Some t" "now1 < t"
  shows "cb_get_payment_status cfg now1 slot now2 outcome now3 h b = (Inl circuit_open_error, b)"
  using assms by (simp add: cb_get_payment_status_def begin_call_def check_available_def)
section \<open>Properties\<close>

text \<open>
  (C5) Whatever the interleaving of lookups, timeouts, cancellations and backend answers,
  at most the configured number of calls is at the backend, the negative cache stays within
  its bound and never holds a settled payment, and until the generation counter has wrapped
  around at most one half-open probe is in flight, and only while the circuit is open.
\<close>

theorem breaker_invariant:
  assumes "(cb_step cfg)\<^sup>*\<^sup>* sys_init s"
  shows "card (calling_ids s) \<le> max (cb_max_concurrent cfg) 1
    \<and> length (br_cache (sys_br s)) \<le> cb_negative_cache_cap cfg
    \<and> (\<forall>c \<in> set (br_cache (sys_br s)). pd_status (ne_details (snd c)) \<noteq> Settled)
    \<and> (sys_epoch s < 2 ^ 64 \<longrightarrow>
         probe_in_flight (br_state (sys_br s)) = (probes s \<noteq> {})
         \<and> (\<forall>i \<in> probes s. \<forall>j \<in> probes s. i = j)
         \<and> (probes s \<noteq> {} \<longrightarrow> open_until (br_state (sys_br s)) \<noteq> None))"
  using sys_invD(3,6,7) [OF cb_reachable_inv [OF assms]] by (auto simp: cache_ok_def)

lemma sample_enter:
  "cb_step default_breaker_config sys_init
     (set_call 0 (Some (Waiting ''ab'' 0 0)) (set_br breaker_new sys_init))"
proof -
  have "begin_call default_breaker_config 0 ''ab'' (sys_br sys_init) = (Inr (Inr 0), breaker_new)"
    by (simp add: begin_call_def sys_init_def breaker_new_def check_available_def neg_cache_get_def)
  then have "cb_step default_breaker_config sys_init
     (set_call 0 (Some (Waiting ''ab'' 0 (sys_epoch sys_init))) (set_br breaker_new sys_init))"
    by (intro enter) (simp_all add: sys_init_def)
  then show ?thesis by (simp add: sys_init_def)
qed

theorem breaker_invariant_witness:
  "\<exists>s. (cb_step default_breaker_config)\<^sup>*\<^sup>* sys_init s \<and> sys_calls s 0 \<noteq> None
     \<and> card (calling_ids s) \<le> max (cb_max_concurrent default_breaker_config) 1"
  using breaker_invariant [OF r_into_rtranclp [where r = "cb_step default_breaker_config", OF sample_enter]]
    r_into_rtranclp [where r = "cb_step default_breaker_config", OF sample_enter]
  by (intro exI [of _ "set_call 0 (Some (Waiting ''ab'' 0 0)) (set_br breaker_new sys_init)"])
    (simp add: set_call_def)



text \<open>
  While the circuit is open and its cool-down has not passed, a lookup fails at once
  with the circuit-open error: no slot is taken, the backend is not asked and the breaker's
  state does not change.
\<close>

theorem open_circuit_fails_fast:
  assumes "open_until (br_state b) = Some t" "now1 < t"
  shows "cb_get_payment_status cfg now1 slot now2 outcome now3 h b = (Inl circuit_open_error, b)"
  by (rule open_fast_fail [OF assms])

theorem open_circuit_fails_fast_witness:
  "fst (cb_get_payment_status default_breaker_config 5 True 5 Elapsed 5 ''ab''
     (breaker_new \<lparr> br_state := (br_state breaker_new) \<lparr> open_until := Some 9 \<rparr> \<rparr>)) = Inl circuit_open_error"
  using open_circuit_fails_fast [of "breaker_new \<lparr> br_state := (br_state breaker_new) \<lparr> open_until := Some 9 \<rparr> \<rparr>" 9 5]
  by simp

end
