(* ===== verification/Spend_Budget.thy ===== *)
theory Spend_Budget
  imports Rust_Text "HOL-Library.Signed_Division"
begin

text \<open>
  Metered spend grants, \<open>konsensus-api/src/spend_budget.rs\<close>: the terms an owner approves,
  the meter of a grant with its circuit breakers, and the reservation of charges. Ordered
  maps are sorted association lists, ordered sets sorted lists, \<open>i64\<close> clock values
  integers. Random identities are arguments. Error texts are the constructors of the
  error types with the values they print.
\<close>

section \<open>Constants\<close>

definition FIRST_CONTACT_APPROVAL_WINDOW_SECS :: int where
  "FIRST_CONTACT_APPROVAL_WINDOW_SECS = 5 * 60"
definition FIRST_CONTACT_MAX_MSAT :: u64 where "FIRST_CONTACT_MAX_MSAT = 100000"
definition MESSAGING_PER_CALL_MAX_MSAT :: u64 where "MESSAGING_PER_CALL_MAX_MSAT = 6000"
definition MAX_SPEND_GRANT_TTL_SECS :: int where "MAX_SPEND_GRANT_TTL_SECS = 24 * 3600"
definition MIN_SPEND_GRANT_TTL_SECS :: int where "MIN_SPEND_GRANT_TTL_SECS = 60"
definition MAX_GRANT_BUDGET_MSAT :: u64 where "MAX_GRANT_BUDGET_MSAT = 100000000000"
definition MAX_RECIPIENT_BUDGETS :: nat where "MAX_RECIPIENT_BUDGETS = 256"

section \<open>Breakers and terms\<close>

record breaker_limits =
  max_payments_per_minute :: u64
  max_payments_per_hour :: u64
  max_consecutive_failures :: u64
  max_msat_per_10_minutes :: u64

definition default_breaker_limits :: breaker_limits where
  "default_breaker_limits =
     \<lparr> max_payments_per_minute = 10, max_payments_per_hour = 60, max_consecutive_failures = 5,
       max_msat_per_10_minutes = 1000000 \<rparr>"

definition legacy_breaker_limits :: breaker_limits where
  "legacy_breaker_limits =
     \<lparr> max_payments_per_minute = - 1, max_payments_per_hour = - 1, max_consecutive_failures = - 1,
       max_msat_per_10_minutes = - 1 \<rparr>"

definition limits_valid :: "breaker_limits \<Rightarrow> bool" where
  "limits_valid l =
     (max_payments_per_minute l > 0 \<and> max_payments_per_hour l > 0
      \<and> max_consecutive_failures l > 0 \<and> max_msat_per_10_minutes l > 0)"

record breaker_bucket =
  bk_payments :: u64
  bk_msat :: u64

record spend_breaker =
  sb_buckets :: "(int, breaker_bucket) btmap"
  sb_last_at :: "int option"
  sb_consecutive_failures :: u64
  sb_paused :: bool
  sb_last_refusal :: "(string \<times> int) option"

definition spend_breaker_default :: spend_breaker where
  "spend_breaker_default =
     \<lparr> sb_buckets = [], sb_last_at = None, sb_consecutive_failures = 0, sb_paused = False,
       sb_last_refusal = None \<rparr>"

record breaker_status_view =
  bs_limits :: breaker_limits
  bs_payments_last_minute :: u64
  bs_payments_last_hour :: u64
  bs_reserved_msat_last_10_minutes :: u64
  bs_consecutive_failures :: u64
  bs_unresolved_payments :: u64
  bs_paused :: bool

record grant_terms =
  gt_breakers :: breaker_limits
  gt_payee_allowlist :: "string list option"
  gt_allow_liquidity_fees :: bool
  gt_budget_msat :: u64
  gt_per_call_max_msat :: u64
  gt_per_recipient_msat :: "(string, u64) btmap"
  gt_ttl_secs :: int

definition terms_new :: "u64 \<Rightarrow> grant_terms" where
  "terms_new budget_msat =
     \<lparr> gt_breakers = default_breaker_limits, gt_payee_allowlist = None,
       gt_allow_liquidity_fees = False, gt_budget_msat = budget_msat,
       gt_per_call_max_msat = budget_msat, gt_per_recipient_msat = [],
       gt_ttl_secs = MAX_SPEND_GRANT_TTL_SECS \<rparr>"

definition terms_for_secs :: "int \<Rightarrow> grant_terms \<Rightarrow> grant_terms" where
  "terms_for_secs ttl t = t \<lparr> gt_ttl_secs := ttl \<rparr>"

definition terms_per_call :: "u64 \<Rightarrow> grant_terms \<Rightarrow> grant_terms" where
  "terms_per_call max_msat t = t \<lparr> gt_per_call_max_msat := max_msat \<rparr>"

definition terms_recipient :: "string \<Rightarrow> u64 \<Rightarrow> grant_terms \<Rightarrow> grant_terms" where
  "terms_recipient key budget t =
     t \<lparr> gt_per_recipient_msat := bt_insert key budget (gt_per_recipient_msat t) \<rparr>"

datatype terms_error =
    BreakersZero | BudgetZero | BudgetTooLarge | TtlOutOfRange | PerCallOutOfRange
  | TooManyRecipients | TooManyPayees | BadPayee string | BadRecipient string
  | RecipientCap string | RecipientTwice string

definition canonical_recipient :: "string \<Rightarrow> string option" where
  "canonical_recipient key =
     (let k = ascii_lowercase (trim key)
      in if (length k = 64 \<or> length k = 66) \<and> list_all ascii_hexdigit k then Some k else None)"

fun canonical_payees :: "string list \<Rightarrow> string list \<Rightarrow> terms_error + string list" where
  "canonical_payees [] acc = Inr acc"
| "canonical_payees (key # keys) acc =
     (case canonical_recipient key of
        None \<Rightarrow> Inl (BadPayee key)
      | Some k \<Rightarrow> canonical_payees keys (insort_insert k acc))"

fun canonical_budgets ::
  "u64 \<Rightarrow> (string \<times> u64) list \<Rightarrow> (string, u64) btmap \<Rightarrow> terms_error + (string, u64) btmap" where
  "canonical_budgets budget [] acc = Inr acc"
| "canonical_budgets budget ((key, cap) # rest) acc =
     (case canonical_recipient key of
        None \<Rightarrow> Inl (BadRecipient key)
      | Some k \<Rightarrow>
          if cap = 0 \<or> cap > budget then Inl (RecipientCap k)
          else if bt_contains acc k then Inl (RecipientTwice k)
          else canonical_budgets budget rest (bt_insert k cap acc))"

definition normalized :: "grant_terms \<Rightarrow> terms_error + grant_terms" where
  "normalized t =
     (if \<not> limits_valid (gt_breakers t) then Inl BreakersZero
      else if gt_budget_msat t = 0 then Inl BudgetZero
      else if gt_budget_msat t > MAX_GRANT_BUDGET_MSAT then Inl BudgetTooLarge
      else if \<not> (MIN_SPEND_GRANT_TTL_SECS \<le> gt_ttl_secs t \<and> gt_ttl_secs t \<le> MAX_SPEND_GRANT_TTL_SECS)
      then Inl TtlOutOfRange
      else if gt_per_call_max_msat t = 0 \<or> gt_per_call_max_msat t > gt_budget_msat t
      then Inl PerCallOutOfRange
      else if length (gt_per_recipient_msat t) > MAX_RECIPIENT_BUDGETS then Inl TooManyRecipients
      else
     (case (case gt_payee_allowlist t of
              None \<Rightarrow> Inr None
            | Some payees \<Rightarrow>
                if length payees > MAX_RECIPIENT_BUDGETS then Inl TooManyPayees
                else (case canonical_payees payees [] of
                        Inl err \<Rightarrow> Inl err
                      | Inr ps \<Rightarrow> Inr (Some ps))) of
        Inl err \<Rightarrow> Inl err
      | Inr payees \<Rightarrow>
          (case canonical_budgets (gt_budget_msat t) (gt_per_recipient_msat t) [] of
             Inl err \<Rightarrow> Inl err
           | Inr per_recipient \<Rightarrow>
               Inr (t \<lparr> gt_payee_allowlist := payees, gt_per_recipient_msat := per_recipient \<rparr>))))"

section \<open>Grants\<close>

record call_spend_terms =
  ct_peer :: string
  ct_call_id :: string
  ct_per_block_msat :: u64
  ct_per_block_fee_msat :: u64
  ct_max_call_minutes :: u16
  ct_reserved_msat :: u64
  ct_closing_fee_msat :: u64
  ct_direct :: bool

record call_spend =
  cs_terms :: call_spend_terms
  cs_spent_msat :: u64
  cs_released_msat :: u64
  cs_closed :: bool
  cs_outcome_recorded :: bool
  cs_payment_failed :: bool
  cs_finished_at :: "int option"
  cs_draws :: "(string, u32) btmap"
  cs_paid_sequences :: "u32 list"

record operation_link =
  ol_operation_id :: string
  ol_execution_id :: string
  ol_readmission :: bool

record device_breaker_reset =
  dr_at :: int
  dr_approver_key_id :: string
  dr_approval_op_id :: string

record grant_budget =
  gb_breakers :: breaker_limits
  gb_breaker_state :: spend_breaker
  gb_device_breaker_resets :: "device_breaker_reset list"
  gb_breaker_reset_generation :: u64
  gb_payment_ids :: "string list"
  gb_payee_allowlist :: "string list option"
  gb_allow_liquidity_fees :: bool
  gb_budget_msat :: u64
  gb_per_call_max_msat :: u64
  gb_per_recipient_msat :: "(string, u64) btmap"
  gb_used_msat :: u64
  gb_used_by_recipient :: "(string, u64) btmap"
  gb_pending :: "(string, (string, u64) btmap) btmap"
  gb_operation_links :: "(string, operation_link) btmap"
  gb_call_reservations :: "(string, call_spend) btmap"
  gb_recipients_only :: bool
  gb_per_act_max_by_recipient :: "(string, u64) btmap"
  gb_recipient_expires_at :: "(string, int) btmap"
  gb_envelope_id_by_recipient :: "(string, string) btmap"

record charge =
  ch_recipient :: string
  ch_amount_msat :: u64

record reservation =
  rs_id :: string
  rs_client_id :: string
  rs_op_id :: string
  rs_charges :: "charge list"

datatype budget_refusal =
    CallLiquidity u64 u64
  | CallPriceChanged
  | CallClosingAboveLimit u64 u64
  | GrantPaused
  | FailuresPending
  | RateLimitMinute
  | RateLimitHour
  | VelocityLimit
  | DuplicatePayment
  | PayeeNotAllowed string
  | MessagingGrant
  | NoGrant
  | PerCall u64
  | Total u64
  | Recipient string u64
  | Unpriced string
  | Ledger string
  | FirstContact string

fun reason :: "budget_refusal \<Rightarrow> string" where
  "reason (CallLiquidity _ _) = ''call_liquidity_insufficient''"
| "reason CallPriceChanged = ''call_price_changed''"
| "reason (CallClosingAboveLimit _ _) = ''call_closing_above_limit''"
| "reason GrantPaused = ''grant_paused''"
| "reason FailuresPending = ''failure_limit_pending''"
| "reason RateLimitMinute = ''rate_limit_minute''"
| "reason RateLimitHour = ''rate_limit_hour''"
| "reason VelocityLimit = ''velocity_limit''"
| "reason DuplicatePayment = ''duplicate_payment''"
| "reason (PayeeNotAllowed _) = ''payee_not_allowed''"
| "reason MessagingGrant = ''messaging_grant''"
| "reason NoGrant = ''no_grant''"
| "reason (PerCall _) = ''per_call''"
| "reason (Total _) = ''total''"
| "reason (Recipient _ _) = ''recipient''"
| "reason (Unpriced _) = ''unpriced''"
| "reason (Ledger _) = ''ledger''"
| "reason (FirstContact _) = ''first_contact''"

section \<open>Meters\<close>

definition from_terms :: "grant_terms \<Rightarrow> grant_budget" where
  "from_terms t =
     \<lparr> gb_breakers = gt_breakers t, gb_breaker_state = spend_breaker_default,
       gb_device_breaker_resets = [], gb_breaker_reset_generation = 0, gb_payment_ids = [],
       gb_payee_allowlist = gt_payee_allowlist t,
       gb_allow_liquidity_fees = gt_allow_liquidity_fees t, gb_budget_msat = gt_budget_msat t,
       gb_per_call_max_msat = gt_per_call_max_msat t,
       gb_per_recipient_msat = gt_per_recipient_msat t, gb_used_msat = 0,
       gb_used_by_recipient = [], gb_pending = [], gb_operation_links = [],
       gb_call_reservations = [], gb_recipients_only = False, gb_per_act_max_by_recipient = [],
       gb_recipient_expires_at = [], gb_envelope_id_by_recipient = [] \<rparr>"

definition relations :: grant_budget where
  "relations = (from_terms (terms_new 0)) \<lparr> gb_recipients_only := True \<rparr>"

text \<open>The fresh envelope identity is an argument; the source draws it at random.\<close>

definition open_envelope :: "string \<Rightarrow> string \<Rightarrow> u64 \<Rightarrow> u64 \<Rightarrow> int \<Rightarrow> grant_budget \<Rightarrow> grant_budget" where
  "open_envelope envelope_id recipient budget_msat per_act_max_msat expires_at b =
     (let used = bt_get_or 0 (gb_used_by_recipient b) recipient;
          old_left = (case bt_get (gb_per_recipient_msat b) recipient of
                        Some cap \<Rightarrow> sat_sub cap used | None \<Rightarrow> 0);
          msat_total = sat_add (sat_sub (gb_budget_msat b) old_left) budget_msat
      in b \<lparr> gb_envelope_id_by_recipient :=
               bt_insert recipient envelope_id (gb_envelope_id_by_recipient b),
             gb_per_recipient_msat :=
               bt_insert recipient (sat_add used budget_msat) (gb_per_recipient_msat b),
             gb_per_act_max_by_recipient :=
               bt_insert recipient per_act_max_msat (gb_per_act_max_by_recipient b),
             gb_recipient_expires_at :=
               bt_insert recipient expires_at (gb_recipient_expires_at b),
             gb_budget_msat := msat_total,
             gb_per_call_max_msat := min msat_total MESSAGING_PER_CALL_MAX_MSAT \<rparr>)"

definition envelope_live :: "grant_budget \<Rightarrow> int \<Rightarrow> string \<Rightarrow> bool" where
  "envelope_live b now recipient =
     (case bt_get (gb_recipient_expires_at b) recipient of Some when \<Rightarrow> when > now | None \<Rightarrow> False)"

fun envelope_refusal :: "grant_budget \<Rightarrow> int \<Rightarrow> (string \<times> u64) list \<Rightarrow> budget_refusal option" where
  "envelope_refusal b now [] = None"
| "envelope_refusal b now ((recipient, amount) # rest) =
     (if \<not> envelope_live b now recipient then Some (Recipient recipient 0)
      else let per_act = bt_get_or 0 (gb_per_act_max_by_recipient b) recipient
           in if amount > per_act then Some (PerCall per_act) else envelope_refusal b now rest)"

definition check_envelopes ::
  "grant_budget \<Rightarrow> (string, u64) btmap \<Rightarrow> int \<Rightarrow> budget_refusal option" where
  "check_envelopes b per_recipient now =
     (if gb_recipients_only b then envelope_refusal b now per_recipient else None)"

definition envelopes_live :: "grant_budget \<Rightarrow> string list \<Rightarrow> int \<Rightarrow> bool" where
  "envelopes_live b recipients now =
     (\<not> gb_recipients_only b \<or> list_all (envelope_live b now) recipients)"

definition call_per_payment_max_msat :: "grant_budget \<Rightarrow> u64 option" where
  "call_per_payment_max_msat b =
     (if \<not> gb_recipients_only b then Some (gb_per_call_max_msat b) else None)"

definition keep_refusal_observation :: "grant_budget \<Rightarrow> grant_budget \<Rightarrow> grant_budget" where
  "keep_refusal_observation other b =
     b \<lparr> gb_breaker_state := (gb_breaker_state b)
           \<lparr> sb_last_refusal := sb_last_refusal (gb_breaker_state other) \<rparr> \<rparr>"

definition check_call_payment :: "grant_budget \<Rightarrow> u64 \<Rightarrow> budget_refusal option" where
  "check_call_payment b per_payment_msat =
     (case call_per_payment_max_msat b of
        Some max_msat \<Rightarrow> if per_payment_msat > max_msat then Some (PerCall max_msat) else None
      | None \<Rightarrow> None)"

definition messaging_per_call_max_msat :: "grant_budget \<Rightarrow> u64" where
  "messaging_per_call_max_msat b = min (gb_per_call_max_msat b) MESSAGING_PER_CALL_MAX_MSAT"

definition remaining_msat :: "grant_budget \<Rightarrow> u64" where
  "remaining_msat b = sat_sub (gb_budget_msat b) (gb_used_msat b)"

section \<open>Breaker status\<close>

definition is_paused :: "grant_budget \<Rightarrow> bool" where
  "is_paused b = sb_paused (gb_breaker_state b)"

text \<open>The clock never runs behind the last recorded instant.\<close>

definition breaker_now :: "spend_breaker \<Rightarrow> int \<Rightarrow> int" where
  "breaker_now st now = (case sb_last_at st of None \<Rightarrow> now | Some prev \<Rightarrow> max now prev)"

definition in_window :: "int \<Rightarrow> int \<Rightarrow> int \<Rightarrow> bool" where
  "in_window now secs when = (when > i64_sat_sub now secs)"

text \<open>The sum of a bucket column over the last \<open>secs\<close> seconds, saturating.\<close>

fun window_sum :: "(breaker_bucket \<Rightarrow> u64) \<Rightarrow> int \<Rightarrow> int \<Rightarrow> (int, breaker_bucket) btmap \<Rightarrow> u64 \<Rightarrow> u64" where
  "window_sum col now secs [] acc = acc"
| "window_sum col now secs ((when, bucket) # rest) acc =
     window_sum col now secs rest
       (if in_window now secs when then sat_add acc (col bucket) else acc)"

definition drawn_child :: "grant_budget \<Rightarrow> string \<Rightarrow> bool" where
  "drawn_child b rid =
     (\<exists>c \<in> set (gb_call_reservations b). bt_contains (cs_draws (snd c)) rid)"

definition unresolved_payments :: "grant_budget \<Rightarrow> nat" where
  "unresolved_payments b =
     length (filter (\<lambda>(_, v). v > 0)
       (concat (map snd (filter (\<lambda>(id, _). \<not> bt_contains (gb_call_reservations b) id
                                          \<and> \<not> drawn_child b id) (gb_pending b)))))
     + length (filter (\<lambda>(_, c). \<not> cs_outcome_recorded c \<and> ct_reserved_msat (cs_terms c) > 0)
         (gb_call_reservations b))"

definition breaker_status :: "grant_budget \<Rightarrow> int \<Rightarrow> breaker_status_view" where
  "breaker_status b now_arg =
     (let st = gb_breaker_state b; now = breaker_now st now_arg
      in \<lparr> bs_limits = gb_breakers b,
           bs_payments_last_minute = window_sum bk_payments now 60 (sb_buckets st) 0,
           bs_payments_last_hour = window_sum bk_payments now 3600 (sb_buckets st) 0,
           bs_reserved_msat_last_10_minutes = window_sum bk_msat now 600 (sb_buckets st) 0,
           bs_consecutive_failures = sb_consecutive_failures st,
           bs_unresolved_payments = of_nat (unresolved_payments b),
           bs_paused = sb_paused st \<rparr>)"

section \<open>Reservations\<close>

fun tally_charges ::
  "grant_budget \<Rightarrow> charge list \<Rightarrow> u64 \<Rightarrow> (string, u64) btmap
   \<Rightarrow> budget_refusal + u64 \<times> (string, u64) btmap" where
  "tally_charges b [] call_total per_recipient = Inr (call_total, per_recipient)"
| "tally_charges b (c # cs) call_total per_recipient =
     (if (case gb_payee_allowlist b of Some payees \<Rightarrow> ch_recipient c \<notin> set payees | None \<Rightarrow> False)
      then Inl (PayeeNotAllowed (ch_recipient c))
      else case checked_add call_total (ch_amount_msat c) of
        None \<Rightarrow> Inl (PerCall (gb_per_call_max_msat b))
      | Some msat_total \<Rightarrow>
          (case checked_add (bt_get_or 0 per_recipient (ch_recipient c)) (ch_amount_msat c) of
             None \<Rightarrow> Inl (PerCall (gb_per_call_max_msat b))
           | Some amount \<Rightarrow>
               tally_charges b cs msat_total (bt_insert (ch_recipient c) amount per_recipient)))"

fun recipient_refusal :: "grant_budget \<Rightarrow> (string \<times> u64) list \<Rightarrow> budget_refusal option" where
  "recipient_refusal b [] = None"
| "recipient_refusal b ((recipient, amount) # rest) =
     (case bt_get (gb_per_recipient_msat b) recipient of
        None \<Rightarrow> recipient_refusal b rest
      | Some cap \<Rightarrow>
          let left = sat_sub cap (bt_get_or 0 (gb_used_by_recipient b) recipient)
          in if amount > left then Some (Recipient recipient left) else recipient_refusal b rest)"

text \<open>The per-recipient tallies grow by plain addition.\<close>

definition add_used :: "(string \<times> u64) list \<Rightarrow> (string, u64) btmap \<Rightarrow> (string, u64) btmap" where
  "add_used per_recipient used =
     fold (\<lambda>(recipient, amount) m.
             if amount > 0 then bt_insert recipient (bt_get_or 0 m recipient + amount) m else m)
       per_recipient used"

definition reserve_within :: "charge list \<Rightarrow> bool \<Rightarrow> grant_budget \<Rightarrow> budget_refusal + grant_budget" where
  "reserve_within charges per_call_bound b =
     (case tally_charges b charges 0 [] of
        Inl r \<Rightarrow> Inl r
      | Inr (call_total, per_recipient) \<Rightarrow>
          if per_call_bound \<and> call_total > gb_per_call_max_msat b
          then Inl (PerCall (gb_per_call_max_msat b))
          else if call_total > remaining_msat b then Inl (Total (remaining_msat b))
          else
            (case recipient_refusal b per_recipient of
               Some r \<Rightarrow> Inl r
             | None \<Rightarrow>
                 Inr (b \<lparr> gb_used_msat := gb_used_msat b + call_total,
                          gb_used_by_recipient := add_used per_recipient (gb_used_by_recipient b) \<rparr>)))"

fun charge_totals :: "u64 option \<Rightarrow> charge list \<Rightarrow> (string, u64) btmap \<Rightarrow> (string, u64) btmap" where
  "charge_totals per_payment [] m = m"
| "charge_totals per_payment (c # cs) m =
     charge_totals per_payment cs
       (bt_insert (ch_recipient c)
          (case per_payment of
             Some p \<Rightarrow> p
           | None \<Rightarrow> sat_add (bt_get_or 0 m (ch_recipient c)) (ch_amount_msat c)) m)"

fun charges_sum :: "charge list \<Rightarrow> u64 \<Rightarrow> u64 option" where
  "charges_sum [] n = Some n"
| "charges_sum (c # cs) n =
     (case checked_add n (ch_amount_msat c) of None \<Rightarrow> None | Some n' \<Rightarrow> charges_sum cs n')"

definition add_bucket ::
  "int \<Rightarrow> (breaker_bucket \<Rightarrow> breaker_bucket) \<Rightarrow> spend_breaker \<Rightarrow> spend_breaker" where
  "add_bucket now f st =
     (let kept = bt_retain (\<lambda>when _. when > i64_sat_sub now 3600) (sb_buckets st);
          bucket = bt_get_or \<lparr> bk_payments = 0, bk_msat = 0 \<rparr> kept now
      in st \<lparr> sb_buckets := bt_insert now (f bucket) kept, sb_last_at := Some now \<rparr>)"

text \<open>The breaker checks of a reservation of \<open>count\<close> payments of \<open>msat_total\<close> msat.\<close>

definition breaker_refusal :: "grant_budget \<Rightarrow> u64 \<Rightarrow> u64 \<Rightarrow> int \<Rightarrow> budget_refusal option" where
  "breaker_refusal b count msat_total now =
     (let status = breaker_status b now; l = gb_breakers b
      in if \<not> limits_valid l then Some (Ledger ''invalid circuit breaker limits'')
         else if bs_paused status then Some GrantPaused
         else if count > sat_sub (max_consecutive_failures l)
                   (sat_add (bs_consecutive_failures status) (bs_unresolved_payments status))
         then Some FailuresPending
         else if count > sat_sub (max_payments_per_minute l) (bs_payments_last_minute status)
         then Some RateLimitMinute
         else if count > sat_sub (max_payments_per_hour l) (bs_payments_last_hour status)
         then Some RateLimitHour
         else if msat_total > sat_sub (max_msat_per_10_minutes l) (bs_reserved_msat_last_10_minutes status)
         then Some VelocityLimit
         else None)"

definition reserve_bounded ::
  "charge list \<Rightarrow> u64 option \<Rightarrow> int \<Rightarrow> grant_budget \<Rightarrow> budget_refusal + grant_budget" where
  "reserve_bounded charges per_payment now_arg b =
     (case (case per_payment of None \<Rightarrow> None | Some largest \<Rightarrow> check_call_payment b largest) of
        Some r \<Rightarrow> Inl r
      | None \<Rightarrow>
     (case check_envelopes b (charge_totals per_payment charges []) now_arg of
        Some r \<Rightarrow> Inl r
      | None \<Rightarrow>
     (let now = breaker_now (gb_breaker_state b) now_arg;
          count = of_nat (length (filter (\<lambda>c. ch_amount_msat c > 0) charges))
      in case charges_sum charges 0 of
           None \<Rightarrow> Inl VelocityLimit
         | Some msat_total \<Rightarrow>
     (case breaker_refusal b count msat_total now of
        Some r \<Rightarrow> Inl r
      | None \<Rightarrow>
     (case reserve_within charges (per_payment = None) b of
        Inl r \<Rightarrow> Inl r
      | Inr b' \<Rightarrow>
          if count > 0
          then Inr (b' \<lparr> gb_breaker_state := add_bucket now
                 (\<lambda>k. k \<lparr> bk_payments := sat_add (bk_payments k) count,
                           bk_msat := sat_add (bk_msat k) msat_total \<rparr>) (gb_breaker_state b') \<rparr>)
          else Inr b')))))"

definition reserve_at :: "charge list \<Rightarrow> int \<Rightarrow> grant_budget \<Rightarrow> budget_refusal + grant_budget" where
  "reserve_at charges now b = reserve_bounded charges None now b"

definition reserve_call_at ::
  "charge list \<Rightarrow> u64 \<Rightarrow> int \<Rightarrow> grant_budget \<Rightarrow> budget_refusal + grant_budget" where
  "reserve_call_at charges per_payment_msat now b = reserve_bounded charges (Some per_payment_msat) now b"

section \<open>Outcomes\<close>

definition record_outcome :: "u64 \<Rightarrow> u64 \<Rightarrow> int \<Rightarrow> grant_budget \<Rightarrow> grant_budget" where
  "record_outcome reserved actual now_arg b =
     (if reserved = 0 \<and> actual = 0 then b
      else
        let st = gb_breaker_state b;
            st1 = (if actual = 0
                   then let failures = sat_add (sb_consecutive_failures st) 1
                        in st \<lparr> sb_consecutive_failures := failures,
                               sb_paused := (failures \<ge> max_consecutive_failures (gb_breakers b)
                                             \<or> sb_paused st) \<rparr>
                   else st \<lparr> sb_consecutive_failures := 0 \<rparr>);
            st2 = (if actual > reserved
                   then add_bucket (breaker_now st1 now_arg)
                          (\<lambda>k. k \<lparr> bk_msat := sat_add (bk_msat k) (actual - reserved),
                                    bk_payments := (if reserved = 0 then sat_add (bk_payments k) 1
                                                    else bk_payments k) \<rparr>) st1
                   else st1)
        in b \<lparr> gb_breaker_state := st2 \<rparr>)"

fun refusal_window :: "budget_refusal \<Rightarrow> int option" where
  "refusal_window RateLimitMinute = Some 60"
| "refusal_window RateLimitHour = Some 3600"
| "refusal_window VelocityLimit = Some 600"
| "refusal_window _ = None"

definition record_breaker_refusal :: "budget_refusal \<Rightarrow> int \<Rightarrow> grant_budget \<Rightarrow> bool \<times> grant_budget" where
  "record_breaker_refusal refusal now_arg b =
     (case refusal_window refusal of
        None \<Rightarrow> (False, b)
      | Some window \<Rightarrow>
          let st = gb_breaker_state b; now = breaker_now st now_arg
          in if (case sb_last_refusal st of
                   Some (r, when) \<Rightarrow> r = reason refusal \<and> in_window now window when
                 | None \<Rightarrow> False)
             then (False, b)
             else (True, b \<lparr> gb_breaker_state := st \<lparr> sb_last_refusal := Some (reason refusal, now) \<rparr> \<rparr>))"

definition reset_reasons :: "grant_budget \<Rightarrow> int \<Rightarrow> string list" where
  "reset_reasons b now =
     (let status = breaker_status b now; l = gb_breakers b;
          refused = (\<lambda>r window. case sb_last_refusal (gb_breaker_state b) of
                       Some (r', when) \<Rightarrow> r' = r \<and> in_window now window when | None \<Rightarrow> False)
      in (if bs_paused status then [''grant_paused''] else [])
         @ map fst (filter (\<lambda>(r, saturated, window). saturated \<or> refused r window)
             [(''rate_limit_minute'', bs_payments_last_minute status \<ge> max_payments_per_minute l, 60),
              (''rate_limit_hour'', bs_payments_last_hour status \<ge> max_payments_per_hour l, 3600),
              (''velocity_limit'',
               bs_reserved_msat_last_10_minutes status \<ge> max_msat_per_10_minutes l, 600)]))"

definition reset_breakers :: "grant_budget \<Rightarrow> grant_budget" where
  "reset_breakers b =
     b \<lparr> gb_breaker_reset_generation := sat_add (gb_breaker_reset_generation b) 1,
         gb_breaker_state := spend_breaker_default \<rparr>"

definition resolve :: "string \<Rightarrow> u64 \<Rightarrow> u64 \<Rightarrow> grant_budget \<Rightarrow> grant_budget" where
  "resolve recipient reserved_msat actual_msat b =
     (if actual_msat = reserved_msat then b
      else
        let used = bt_get_or 0 (gb_used_by_recipient b) recipient;
            (total', used') =
              (if actual_msat < reserved_msat
               then let released = reserved_msat - actual_msat
                    in (sat_sub (gb_used_msat b) released, sat_sub used released)
               else let extra = actual_msat - reserved_msat
                    in (sat_add (gb_used_msat b) extra, sat_add used extra))
        in b \<lparr> gb_used_msat := total',
               gb_used_by_recipient :=
                 (if used' = 0 then bt_remove recipient (gb_used_by_recipient b)
                  else bt_insert recipient used' (gb_used_by_recipient b)) \<rparr>)"

text \<open>The sum wraps in a release build when the charges exceed 64 bits.\<close>

definition reserved_for :: "reservation \<Rightarrow> string \<Rightarrow> u64" where
  "reserved_for r recipient =
     sum_list (map ch_amount_msat (filter (\<lambda>c. ch_recipient c = recipient) (rs_charges r)))"

section \<open>Texts\<close>

definition sats :: "u64 \<Rightarrow> string" where
  "sats msat =
     (if msat mod 1000 = 0 then show_word (msat div 1000)
      else show_word (msat div 1000) @ ''.'' @ pad_zeros 3 (show_word (msat mod 1000)))"

fun join_spaces :: "string list \<Rightarrow> string" where
  "join_spaces [] = []"
| "join_spaces [s] = s"
| "join_spaces (s # ss) = s @ '' '' @ join_spaces ss"

definition human_duration :: "int \<Rightarrow> string" where
  "human_duration secs =
     (let h = secs sdiv 3600; m = (secs smod 3600) sdiv 60; s = secs smod 60;
          parts = (if h > 0 then [show_int h @ '' h''] else [])
                  @ (if m > 0 then [show_int m @ '' min''] else [])
      in join_spaces (parts @ (if s > 0 \<or> parts = [] then [show_int s @ '' s''] else [])))"

datatype duration_error = EmptyDuration | UnknownUnit | Malformed | TooLong | NoUnit

definition unit_secs :: "char \<Rightarrow> int option" where
  "unit_secs c =
     (if c = CHR ''h'' then Some 3600 else if c = CHR ''m'' then Some 60
      else if c = CHR ''s'' then Some 1 else None)"

definition i64_checked :: "int \<Rightarrow> int option" where
  "i64_checked i = (if i64_min \<le> i \<and> i \<le> i64_max then Some i else None)"

fun duration_loop :: "string \<Rightarrow> int \<Rightarrow> string \<Rightarrow> duration_error + int" where
  "duration_loop [] secs_total digits = (if digits \<noteq> [] then Inl NoUnit else Inr secs_total)"
| "duration_loop (c # cs) secs_total digits =
     (if digit_val c \<noteq> None then duration_loop cs secs_total (digits @ [c])
      else case unit_secs c of
        None \<Rightarrow> Inl UnknownUnit
      | Some unit \<Rightarrow>
          (case parse_i64 digits of
             None \<Rightarrow> Inl Malformed
           | Some n \<Rightarrow>
               (case Option.bind (i64_checked (n * unit)) (\<lambda>v. i64_checked (secs_total + v)) of
                  None \<Rightarrow> Inl TooLong
                | Some secs_total' \<Rightarrow> duration_loop cs secs_total' [])))"

definition parse_duration :: "string \<Rightarrow> duration_error + int" where
  "parse_duration input =
     (let s = ascii_lowercase (trim input)
      in if s = [] then Inl EmptyDuration
         else case parse_i64 s of
           Some secs \<Rightarrow> Inr secs
         | None \<Rightarrow> duration_loop s 0 [])"

text \<open>The charges of one recipient, over unbounded numbers.\<close>

definition charged :: "charge list \<Rightarrow> string \<Rightarrow> nat" where
  "charged cs r = (\<Sum>c \<leftarrow> cs. if ch_recipient c = r then unat (ch_amount_msat c) else 0)"

definition charged_total :: "charge list \<Rightarrow> nat" where
  "charged_total cs = (\<Sum>c \<leftarrow> cs. unat (ch_amount_msat c))"

text \<open>The payments of a bucket column inside a window, over unbounded numbers.\<close>

definition window_nat :: "(breaker_bucket \<Rightarrow> u64) \<Rightarrow> int \<Rightarrow> int \<Rightarrow> (int, breaker_bucket) btmap \<Rightarrow> nat" where
  "window_nat col now secs m = bt_sum (\<lambda>when k. if in_window now secs when then unat (col k) else 0) m"

definition payment_count :: "charge list \<Rightarrow> nat" where
  "payment_count cs = length (filter (\<lambda>c. ch_amount_msat c > 0) cs)"

text \<open>A recipient cap of normal terms: a canonical key, and a cap between 1 and the budget.\<close>

definition recipient_cap_ok :: "u64 \<Rightarrow> string \<times> u64 \<Rightarrow> bool" where
  "recipient_cap_ok budget = (\<lambda>(k, v). canonical_recipient k = Some k \<and> 0 < v \<and> v \<le> budget)"

text \<open>The change a reservation makes to the bucket of its second.\<close>

definition bump :: "u64 \<Rightarrow> u64 \<Rightarrow> breaker_bucket \<Rightarrow> breaker_bucket" where
  "bump count msat =
     (\<lambda>k. k \<lparr> bk_payments := sat_add (bk_payments k) count, bk_msat := sat_add (bk_msat k) msat \<rparr>)"

text \<open>The type invariant of a meter: its ordered maps are ordered.\<close>

definition budget_wf :: "grant_budget \<Rightarrow> bool" where
  "budget_wf b \<longleftrightarrow>
     bt_wf (sb_buckets (gb_breaker_state b)) \<and> bt_wf (gb_used_by_recipient b)
     \<and> bt_wf (gb_pending b) \<and> bt_wf (gb_call_reservations b)
     \<and> (\<forall>rid m. map_of (gb_pending b) rid = Some m \<longrightarrow> bt_wf m)"

definition sample_budget :: grant_budget where
  "sample_budget = (from_terms (terms_new 100000))
     \<lparr> gb_payee_allowlist := Some [''alice''], gb_per_recipient_msat := [(''alice'', 50000)] \<rparr>"

definition sample_charges :: "charge list" where
  "sample_charges = [\<lparr> ch_recipient = ''alice'', ch_amount_msat = 3000 \<rparr>,
                     \<lparr> ch_recipient = ''alice'', ch_amount_msat = 2000 \<rparr>]"

definition sample_relations :: grant_budget where
  "sample_relations = open_envelope ''e1'' ''bob'' 9000 4000 2000 relations"

definition sample_charge :: charge where
  "sample_charge = \<lparr> ch_recipient = ''bob'', ch_amount_msat = 3000 \<rparr>"

section \<open>Facts\<close>

lemma charged_simps [simp]:
  "charged [] r = 0" "charged_total [] = 0"
  "charged (c # cs) r = (if ch_recipient c = r then unat (ch_amount_msat c) else 0) + charged cs r"
  "charged_total (c # cs) = unat (ch_amount_msat c) + charged_total cs"
  by (simp_all add: charged_def charged_total_def)

lemma charged_le_total: "charged cs r \<le> charged_total cs"
  by (induction cs) auto

lemma tally_Inr:
  assumes "tally_charges b cs t m = Inr (T, M)"
  shows "unat T = unat t + charged_total cs"
    and "unat (bt_get_or 0 M r) = unat (bt_get_or 0 m r) + charged cs r"
    and "bt_wf m \<Longrightarrow> bt_wf M"
    and "gb_payee_allowlist b = Some payees \<Longrightarrow> c \<in> set cs \<Longrightarrow> ch_recipient c \<in> set payees"
  using assms
  by (induction b cs t m rule: tally_charges.induct)
    (auto simp: bt_get_or_insert checked_add_unat split: option.splits if_splits)

lemma recipient_refusal_None:
  assumes "recipient_refusal b ps = None" "bt_get (gb_per_recipient_msat b) r = Some cap"
    "(r, amount) \<in> set ps"
  shows "amount \<le> sat_sub cap (bt_get_or 0 (gb_used_by_recipient b) r)"
  using assms by (induction b ps rule: recipient_refusal.induct)
    (auto simp: Let_def not_less split: option.splits if_splits)

lemma add_used_get:
  assumes "distinct (map fst ps)"
  shows "bt_get_or 0 (add_used ps m) r = bt_get_or 0 m r + bt_get_or 0 ps r"
  using assms
proof (induction ps arbitrary: m)
  case Nil
  then show ?case by (simp add: add_used_def bt_get_or_def)
next
  case (Cons p ps)
  obtain k a where p: "p = (k, a)" by (cases p)
  have "add_used (p # ps) m
      = add_used ps (if a > 0 then bt_insert k (bt_get_or 0 m k + a) m else m)"
    by (simp add: add_used_def p)
  moreover have "map_of ps k = None"
    using Cons.prems by (auto simp: p map_of_eq_None_iff)
  ultimately show ?case
    using Cons.IH Cons.prems
    by (auto simp: p bt_get_or_insert bt_get_or_def word_gt_0 split: option.splits)
qed

lemma add_used_wf: "bt_wf m \<Longrightarrow> bt_wf (add_used ps m)"
  by (induction ps arbitrary: m) (auto simp: add_used_def split: prod.splits)

lemma reserve_within_Inr:
  assumes "reserve_within charges bound b = Inr b'"
  shows "unat (gb_used_msat b') = unat (gb_used_msat b) + charged_total charges"
    and "0 < charged_total charges \<Longrightarrow> unat (gb_used_msat b') \<le> unat (gb_budget_msat b)"
    and "bound \<Longrightarrow> charged_total charges \<le> unat (gb_per_call_max_msat b)"
    and "\<And>payees c. gb_payee_allowlist b = Some payees \<Longrightarrow> c \<in> set charges \<Longrightarrow> ch_recipient c \<in> set payees"
    and "\<exists>used. b' = b \<lparr> gb_used_msat := gb_used_msat b', gb_used_by_recipient := used \<rparr>"
    and "\<And>r cap. bt_get (gb_per_recipient_msat b) r = Some cap \<Longrightarrow> 0 < charged charges r \<Longrightarrow>
           unat (bt_get_or 0 (gb_used_by_recipient b') r)
             = unat (bt_get_or 0 (gb_used_by_recipient b) r) + charged charges r
           \<and> bt_get_or 0 (gb_used_by_recipient b') r \<le> cap"
    and "\<And>r. bt_get_or 0 (gb_used_by_recipient b') r
           = bt_get_or 0 (gb_used_by_recipient b) r + of_nat (charged charges r)"
    and "bt_wf (gb_used_by_recipient b) \<Longrightarrow> bt_wf (gb_used_by_recipient b')"
proof -
  obtain T M where t: "tally_charges b charges 0 [] = Inr (T, M)"
    and c: "bound \<Longrightarrow> T \<le> gb_per_call_max_msat b" "T \<le> remaining_msat b"
    and r: "recipient_refusal b M = None"
    and b': "b' = b \<lparr> gb_used_msat := gb_used_msat b + T,
                      gb_used_by_recipient := add_used M (gb_used_by_recipient b) \<rparr>"
    using assms by (auto simp: reserve_within_def not_less split: sum.splits if_splits option.splits)
  note T = tally_Inr [OF t]
  have tot: "unat T = charged_total charges" using T(1) by simp
  have fits: "unat (gb_used_msat b) + unat T \<le> unat (gb_budget_msat b) \<or> unat T = 0"
    using c(2) by (auto simp: remaining_msat_def word_le_nat_alt unat_sat_sub)
  then have "unat (gb_used_msat b) + unat T < 2 ^ 64"
    using unat_lt_pow [of "gb_budget_msat b"] unat_lt_pow [of "gb_used_msat b"] by auto
  then have add: "unat (gb_used_msat b + T) = unat (gb_used_msat b) + unat T"
    by (simp add: unat_add_small)
  show "unat (gb_used_msat b') = unat (gb_used_msat b) + charged_total charges"
    using add tot by (simp add: b')
  show "0 < charged_total charges \<Longrightarrow> unat (gb_used_msat b') \<le> unat (gb_budget_msat b)"
    using fits add tot by (simp add: b')
  show "bound \<Longrightarrow> charged_total charges \<le> unat (gb_per_call_max_msat b)"
    using c(1) tot by (simp add: word_le_nat_alt)
  show "gb_payee_allowlist b = Some payees \<Longrightarrow> c \<in> set charges \<Longrightarrow> ch_recipient c \<in> set payees" for payees c
    using T(4) .
  show "\<exists>used. b' = b \<lparr> gb_used_msat := gb_used_msat b', gb_used_by_recipient := used \<rparr>"
    by (auto simp: b')
  have d: "distinct (map fst M)" using T(3) by (simp add: bt_wf_distinct)
  have M: "unat (bt_get_or 0 M r) = charged charges r" for r
    using T(2) [of r] by (simp add: bt_get_or_def)
  have get: "bt_get_or 0 (gb_used_by_recipient b') r
      = bt_get_or 0 (gb_used_by_recipient b) r + bt_get_or 0 M r" for r
    by (simp add: b' add_used_get [OF d])
  show "bt_get_or 0 (gb_used_by_recipient b') r
      = bt_get_or 0 (gb_used_by_recipient b) r + of_nat (charged charges r)" for r
    using get [of r] by (simp flip: M [of r])
  show "bt_wf (gb_used_by_recipient b) \<Longrightarrow> bt_wf (gb_used_by_recipient b')"
    by (simp add: b' add_used_wf)
  show "unat (bt_get_or 0 (gb_used_by_recipient b') r)
        = unat (bt_get_or 0 (gb_used_by_recipient b) r) + charged charges r
      \<and> bt_get_or 0 (gb_used_by_recipient b') r \<le> cap"
    if cap: "bt_get (gb_per_recipient_msat b) r = Some cap" and pos: "0 < charged charges r" for r cap
  proof -
    obtain a where a: "map_of M r = Some a"
      using M [of r] pos by (cases "map_of M r") (auto simp: bt_get_or_def)
    then have "a \<le> sat_sub cap (bt_get_or 0 (gb_used_by_recipient b) r)"
      by (intro recipient_refusal_None [OF r cap]) (rule map_of_SomeD)
    moreover have "unat a = charged charges r" using M [of r] a by (simp add: bt_get_or_def)
    ultimately have le: "unat (bt_get_or 0 (gb_used_by_recipient b) r) + unat a \<le> unat cap"
      using pos by (simp add: word_le_nat_alt unat_sat_sub) 
    then have "unat (bt_get_or 0 (gb_used_by_recipient b) r + a)
        = unat (bt_get_or 0 (gb_used_by_recipient b) r) + unat a"
      using unat_lt_pow [of cap] by (intro unat_add_small) simp
    with get [of r] a le \<open>unat a = charged charges r\<close> show ?thesis
      by (simp add: bt_get_or_def [of 0 M] word_le_nat_alt)
  qed
qed

subsection \<open>Windows\<close>

lemma unat_u64_le: "unat (w :: u64) \<le> 2 ^ 64 - 1"
  using unat_lt_pow [of w] by simp

lemma window_sum_nat:
  "unat (window_sum col now secs m acc) = min (2 ^ 64 - 1) (unat acc + window_nat col now secs m)"
  unfolding window_nat_def
  by (induction col now secs m acc rule: window_sum.induct) (use unat_u64_le in \<open>auto simp: unat_sat_add\<close>)

lemma window_nat_insert_le:
  assumes "bt_wf m" "unat (col v) \<le> unat (col (bt_get_or k0 m k)) + n" "col k0 = 0"
  shows "window_nat col now secs (bt_insert k v m) \<le> window_nat col now secs m + n"
proof -
  let ?f = "\<lambda>when k. if in_window now secs when then unat (col k) else 0"
  have "bt_sum ?f (bt_insert k v m) + bt_at ?f m k = bt_sum ?f m + ?f k v"
    by (rule bt_sum_insert [OF assms(1)])
  moreover have "?f k v \<le> bt_at ?f m k + n"
    using assms(2,3) by (auto simp: bt_at_def bt_get_or_def split: option.splits)
  ultimately show ?thesis by (simp add: window_nat_def)
qed

lemma window_nat_retain:
  "0 \<le> secs \<Longrightarrow> secs \<le> 3600 \<Longrightarrow>
   window_nat col now secs (bt_retain (\<lambda>when _. when > i64_sat_sub now 3600) m) = window_nat col now secs m"
  unfolding window_nat_def
  by (induction m) (auto simp: bt_retain_def in_window_def i64_sat_sub_def split: if_splits)

lemma add_bucket_window:
  assumes "bt_wf (sb_buckets st)" "\<And>k. unat (col (f k)) \<le> unat (col k) + n"
    "col \<lparr> bk_payments = 0, bk_msat = 0 \<rparr> = 0" "0 \<le> secs" "secs \<le> 3600"
  shows "window_nat col now secs (sb_buckets (add_bucket now' f st))
    \<le> window_nat col now secs (bt_retain (\<lambda>when _. when > i64_sat_sub now' 3600) (sb_buckets st)) + n"
  using assms by (auto simp: add_bucket_def Let_def intro!: window_nat_insert_le)

lemma add_bucket_sel [simp]:
  "sb_last_at (add_bucket now f st) = Some now"
  "sb_consecutive_failures (add_bucket now f st) = sb_consecutive_failures st"
  "sb_paused (add_bucket now f st) = sb_paused st"
  "bt_wf (sb_buckets st) \<Longrightarrow> bt_wf (sb_buckets (add_bucket now f st))"
  by (simp_all add: add_bucket_def Let_def)

lemma breaker_now_idem [simp]: "breaker_now st (breaker_now st now) = breaker_now st now"
  by (simp add: breaker_now_def split: option.splits)

subsection \<open>Reservations inside the breakers\<close>

lemma charges_sum_Some:
  "charges_sum cs n = Some t \<Longrightarrow> unat t = unat n + charged_total cs"
  by (induction cs n rule: charges_sum.induct) (auto simp: checked_add_unat split: option.splits)

lemma payment_count_le: "payment_count cs \<le> charged_total cs"
proof (induction cs)
  case (Cons c cs)
  then show ?case
    using unat_gt_0 [of "ch_amount_msat c"] by (auto simp: payment_count_def word_gt_0)
qed (simp add: payment_count_def)

lemma payment_count_pos: "0 < payment_count cs \<longleftrightarrow> 0 < charged_total cs"
  by (induction cs) (auto simp: payment_count_def word_gt_0 unat_gt_0)

lemma reserve_bounded_Inr:
  assumes "reserve_bounded charges pp now b = Inr b'"
  obtains m T count where
    "reserve_within charges (pp = None) b = Inr m"
    "\<And>p. pp = Some p \<Longrightarrow> check_call_payment b p = None"
    "check_envelopes b (charge_totals pp charges []) now = None"
    "breaker_refusal b count T (breaker_now (gb_breaker_state b) now) = None"
    "unat T = charged_total charges"
    "unat count = payment_count charges"
    "b' = (if 0 < payment_count charges
           then m \<lparr> gb_breaker_state :=
                 add_bucket (breaker_now (gb_breaker_state b) now) (bump count T) (gb_breaker_state m) \<rparr>
           else m)"
proof -
  obtain T where T: "charges_sum charges 0 = Some T"
    using assms by (auto simp: reserve_bounded_def Let_def split: option.splits)
  have sum: "unat T = charged_total charges" using charges_sum_Some [OF T] by simp
  then have small: "payment_count charges < 2 ^ 64"
    using payment_count_le [of charges] unat_lt_pow [of T] by simp
  define count where "count = (of_nat (payment_count charges) :: u64)"
  have count: "unat count = payment_count charges"
    using small by (simp add: count_def unat_of_nat)
  then have pos: "0 < count \<longleftrightarrow> 0 < payment_count charges"
    by (simp add: word_less_nat_alt)
  show thesis
    using assms pos unfolding reserve_bounded_def Let_def T option.case
      payment_count_def [symmetric] count_def [symmetric] bump_def [symmetric]
    by (auto split: option.splits sum.splits if_splits intro: that [OF _ _ _ _ sum count])
qed

lemma breaker_refusal_None:
  assumes "breaker_refusal b count T now = None" "0 < unat count" "0 < unat T"
    "unat (sb_consecutive_failures (gb_breaker_state b)) + unresolved_payments b < 2 ^ 64"
  defines "window \<equiv> \<lambda>col secs. window_nat col (breaker_now (gb_breaker_state b) now) secs
      (sb_buckets (gb_breaker_state b))"
  shows "\<not> sb_paused (gb_breaker_state b)"
    and "unat (sb_consecutive_failures (gb_breaker_state b)) + unresolved_payments b + unat count
         \<le> unat (max_consecutive_failures (gb_breakers b))"
    and "window bk_payments 60 + unat count \<le> unat (max_payments_per_minute (gb_breakers b))"
    and "window bk_payments 3600 + unat count \<le> unat (max_payments_per_hour (gb_breakers b))"
    and "window bk_msat 600 + unat T \<le> unat (max_msat_per_10_minutes (gb_breakers b))"
proof -
  have fit: "\<not> c > sat_sub lim w \<Longrightarrow> 0 < unat c \<Longrightarrow> unat w = min (2 ^ 64 - 1) n \<Longrightarrow> n + unat c \<le> unat lim"
    for c lim w :: u64 and n
    using unat_u64_le [of lim] by (auto simp: word_nat min_def split: if_splits)
  let ?s = "breaker_status b now"
  have r: "\<not> bs_paused ?s"
    "\<not> count > sat_sub (max_consecutive_failures (gb_breakers b))
       (sat_add (bs_consecutive_failures ?s) (bs_unresolved_payments ?s))"
    "\<not> count > sat_sub (max_payments_per_minute (gb_breakers b)) (bs_payments_last_minute ?s)"
    "\<not> count > sat_sub (max_payments_per_hour (gb_breakers b)) (bs_payments_last_hour ?s)"
    "\<not> T > sat_sub (max_msat_per_10_minutes (gb_breakers b)) (bs_reserved_msat_last_10_minutes ?s)"
    using assms(1) by (auto simp: breaker_refusal_def Let_def split: if_splits)
  show "\<not> sb_paused (gb_breaker_state b)" using r(1) by (simp add: breaker_status_def Let_def)
  show "unat (sb_consecutive_failures (gb_breaker_state b)) + unresolved_payments b + unat count
      \<le> unat (max_consecutive_failures (gb_breakers b))"
    using assms(4) by (intro fit [OF r(2) assms(2)])
      (simp add: breaker_status_def Let_def unat_sat_add unat_of_nat)
  show "window bk_payments 60 + unat count \<le> unat (max_payments_per_minute (gb_breakers b))"
    by (intro fit [OF r(3) assms(2)]) (simp add: breaker_status_def Let_def window_sum_nat window_def)
  show "window bk_payments 3600 + unat count \<le> unat (max_payments_per_hour (gb_breakers b))"
    by (intro fit [OF r(4) assms(2)]) (simp add: breaker_status_def Let_def window_sum_nat window_def)
  show "window bk_msat 600 + unat T \<le> unat (max_msat_per_10_minutes (gb_breakers b))"
    by (intro fit [OF r(5) assms(3)]) (simp add: breaker_status_def Let_def window_sum_nat window_def)
qed

lemma bump_le:
  "unat (bk_payments (bump count msat k)) \<le> unat (bk_payments k) + unat count"
  "unat (bk_msat (bump count msat k)) \<le> unat (bk_msat k) + unat msat"
  by (simp_all add: bump_def unat_sat_add)

lemma reserve_within_state: "reserve_within charges bound b = Inr m \<Longrightarrow> gb_breaker_state m = gb_breaker_state b"
  by (auto simp: reserve_within_def split: sum.splits if_splits option.splits)

lemma charge_totals_dom: "dom (map_of (charge_totals pp cs m)) = dom (map_of m) \<union> ch_recipient ` set cs"
  by (induction pp cs m rule: charge_totals.induct) auto

lemma charge_totals_get:
  "unat (bt_get_or 0 (charge_totals None cs m) r)
     = min (2 ^ 64 - 1) (unat (bt_get_or 0 m r) + charged cs r)"
  by (induction cs arbitrary: m) (use unat_u64_le in \<open>auto simp: bt_get_or_insert unat_sat_add\<close>)

lemma envelope_refusal_None:
  "envelope_refusal b now ps = None \<Longrightarrow> (r, a) \<in> set ps \<Longrightarrow>
   envelope_live b now r \<and> a \<le> bt_get_or 0 (gb_per_act_max_by_recipient b) r"
  by (induction b now ps rule: envelope_refusal.induct) (auto simp: Let_def not_less split: if_splits)

lemma check_envelopes_None:
  assumes "check_envelopes b (charge_totals pp cs []) now = None" "gb_recipients_only b" "c \<in> set cs"
  shows "envelope_live b now (ch_recipient c)"
    and "pp = None \<Longrightarrow> charged_total cs < 2 ^ 64 \<Longrightarrow>
      charged cs (ch_recipient c) \<le> unat (bt_get_or 0 (gb_per_act_max_by_recipient b) (ch_recipient c))"
proof -
  obtain a where a: "map_of (charge_totals pp cs []) (ch_recipient c) = Some a"
    using charge_totals_dom [of pp cs "[]"] assms(3) by fastforce
  then have *: "envelope_live b now (ch_recipient c)
      \<and> a \<le> bt_get_or 0 (gb_per_act_max_by_recipient b) (ch_recipient c)"
    using assms(1,2) by (intro envelope_refusal_None [OF _ map_of_SomeD]) (auto simp: check_envelopes_def)
  then show "envelope_live b now (ch_recipient c)" ..
  assume "pp = None" "charged_total cs < 2 ^ 64"
  then have "unat a = charged cs (ch_recipient c)"
    using charge_totals_get [of cs "[]" "ch_recipient c"] a charged_le_total [of cs "ch_recipient c"]
    by (simp add: bt_get_or_def)
  with * show "charged cs (ch_recipient c)
      \<le> unat (bt_get_or 0 (gb_per_act_max_by_recipient b) (ch_recipient c))"
    by (simp add: word_le_nat_alt)
qed

lemma reserve_bounded_sel:
  assumes "reserve_bounded charges pp now b = Inr b'"
  shows "\<exists>m. reserve_within charges (pp = None) b = Inr m
    \<and> (\<exists>st. b' = m \<lparr> gb_breaker_state := st \<rparr>
        \<and> sb_paused st = sb_paused (gb_breaker_state b)
        \<and> sb_consecutive_failures st = sb_consecutive_failures (gb_breaker_state b)
        \<and> (bt_wf (sb_buckets (gb_breaker_state b)) \<longrightarrow> bt_wf (sb_buckets st)))"
  using assms
proof (rule reserve_bounded_Inr)
  fix m T count
  assume m: "reserve_within charges (pp = None) b = Inr m"
    and b': "b' = (if 0 < payment_count charges
           then m \<lparr> gb_breaker_state :=
                 add_bucket (breaker_now (gb_breaker_state b) now) (bump count T) (gb_breaker_state m) \<rparr>
           else m)"
  have "b' = m \<lparr> gb_breaker_state := gb_breaker_state b' \<rparr>"
    by (simp add: b')
  with reserve_within_state [OF m] m show ?thesis
    by (intro exI [of _ m] conjI exI [of _ "gb_breaker_state b'"]) (auto simp: b')
qed

subsection \<open>Normal terms\<close>

lemma canonical_recipient_idem: "canonical_recipient key = Some k \<Longrightarrow> canonical_recipient k = Some k"
  by (auto simp: canonical_recipient_def Let_def trim_hex split: if_splits)

lemma canonical_payees_Inr:
  "canonical_payees ps acc = Inr qs \<Longrightarrow>
   set qs = set acc \<union> (the \<circ> canonical_recipient) ` set ps
   \<and> (\<forall>p \<in> set ps. canonical_recipient p \<noteq> None)
   \<and> (sorted acc \<and> distinct acc \<longrightarrow> sorted qs \<and> distinct qs)
   \<and> length qs \<le> length acc + length ps"
proof (induction ps acc rule: canonical_payees.induct)
  case (2 key keys acc)
  then obtain k where k: "canonical_recipient key = Some k" and r: "canonical_payees keys (insort_insert k acc) = Inr qs"
    by (auto split: option.splits)
  from "2.IH" [OF k r] length_insort_insert_le [of k acc] k show ?case
    by (auto simp: set_insort_insert sorted_insort_insert distinct_insort_insert)
qed simp

lemma canonical_payees_fixed:
  "\<forall>p \<in> set ps. canonical_recipient p = Some p \<Longrightarrow> \<exists>qs. canonical_payees ps acc = Inr qs"
  by (induction ps arbitrary: acc) auto

lemma canonical_payees_idem:
  assumes "canonical_payees ps [] = Inr qs"
  shows "canonical_payees qs [] = Inr qs"
proof -
  note r = canonical_payees_Inr [OF assms]
  have fixed: "canonical_recipient q = Some q" if "q \<in> set qs" for q
    using r that canonical_recipient_idem by fastforce
  then obtain qs' where q: "canonical_payees qs [] = Inr qs'"
    using canonical_payees_fixed by blast
  have "set qs' = set qs"
    using canonical_payees_Inr [OF q] fixed by force
  then show ?thesis
    using canonical_payees_Inr [OF q] r q by (metis distinct.simps(1) sorted_distinct_set_unique sorted_wrt.simps(1))
qed

lemma canonical_budgets_Inr:
  "canonical_budgets budget ps acc = Inr m \<Longrightarrow>
   (bt_wf acc \<longrightarrow> bt_wf m) \<and> length m = length acc + length ps
   \<and> (list_all (recipient_cap_ok budget) acc \<longrightarrow> list_all (recipient_cap_ok budget) m)"
proof (induction budget ps acc rule: canonical_budgets.induct)
  case (2 budget key cap rest acc)
  then obtain k where k: "canonical_recipient key = Some k" and c: "cap \<noteq> 0" "cap \<le> budget"
    and n: "map_of acc k = None" and r: "canonical_budgets budget rest (bt_insert k cap acc) = Inr m"
    by (auto simp: not_less split: option.splits if_splits)
  have "recipient_cap_ok budget (k, cap)"
    using canonical_recipient_idem [OF k] c by (simp add: recipient_cap_ok_def word_gt_0)
  then have "list_all (recipient_cap_ok budget) acc \<Longrightarrow> list_all (recipient_cap_ok budget) (bt_insert k cap acc)"
    using set_bt_insert [of k cap acc] unfolding list_all_iff by blast
  then show ?case
    using "2.IH" [OF k _ _ r] c n length_bt_insert [OF n, of cap] by auto
qed simp

lemma canonical_budgets_fixed:
  "list_all (recipient_cap_ok budget) ps \<Longrightarrow> distinct (map fst ps) \<Longrightarrow> fst ` set ps \<inter> fst ` set acc = {} \<Longrightarrow>
   \<exists>m. canonical_budgets budget ps acc = Inr m \<and> map_of m = map_of acc ++ map_of ps"
proof (induction ps arbitrary: acc)
  case (Cons p ps)
  obtain k v where p: "p = (k, v)" by (cases p)
  have "map_of acc k = None" using Cons.prems(3) by (auto simp: p map_of_eq_None_iff)
  moreover have "fst ` set ps \<inter> fst ` set (bt_insert k v acc) = {}"
    using Cons.prems(2,3) by (auto simp: p)
  then have "\<exists>m. canonical_budgets budget ps (bt_insert k v acc) = Inr m
      \<and> map_of m = map_of (bt_insert k v acc) ++ map_of ps"
    by (rule Cons.IH [rotated 2]) (use Cons.prems(1,2) in auto)
  moreover have "map_of ps k = None" using Cons.prems(2) by (simp add: p map_of_eq_None_iff)
  then have "map_of (bt_insert k v acc) ++ map_of ps = map_of acc ++ map_of (p # ps)"
    by (auto simp: p map_add_def fun_eq_iff split: option.splits)
  ultimately show ?case
    using Cons.prems(1) by (auto simp: p word_gt_0 not_less recipient_cap_ok_def simp del: map_of.simps)
qed simp

lemma canonical_budgets_idem:
  assumes "canonical_budgets budget ps [] = Inr m"
  shows "canonical_budgets budget m [] = Inr m"
proof -
  have m: "bt_wf m" "list_all (recipient_cap_ok budget) m"
    using canonical_budgets_Inr [OF assms] by auto
  then obtain m' where m': "canonical_budgets budget m [] = Inr m'" "map_of m' = map_of m"
    using canonical_budgets_fixed [OF m(2), of "[]"] bt_wf_distinct by auto
  then have "m' = m" using canonical_budgets_Inr [OF m'(1)] m(1) by (auto intro: bt_eqI)
  with m' show ?thesis by simp
qed

lemmas terms_eval = from_terms_def terms_new_def default_breaker_limits_def spend_breaker_default_def

lemmas reserve_eval = reserve_at_def reserve_bounded_def Let_def check_envelopes_def reserve_within_def
  breaker_refusal_def limits_valid_def breaker_status_def unresolved_payments_def remaining_msat_def
  checked_add_def bt_get_or_def sat_sub_def sat_add_def

lemma sample_reserves:
  "reserve_at sample_charges 1000 sample_budget
     = Inr (projr (reserve_at sample_charges 1000 sample_budget))"
proof -
  have "\<not> isl (reserve_at sample_charges 1000 sample_budget)"
    by (simp add: reserve_eval sample_charges_def sample_budget_def terms_eval)
  then show ?thesis by simp
qed

lemma sample_budget_sel:
  "gb_budget_msat sample_budget = 100000" "gb_breakers sample_budget = default_breaker_limits"
  "budget_wf sample_budget" "gb_per_call_max_msat sample_budget = 100000"
  "charged_total sample_charges = 5000"
  by (simp_all add: sample_budget_def sample_charges_def terms_eval budget_wf_def)

section \<open>Properties\<close>

text \<open>(C22) A reservation that a meter admits stays inside the terms the owner approved: the
  total already spent or reserved grows by exactly the sum of the charges and does not
  pass the budget, an ordinary act is at most the per-call maximum, every charged payee is on
  the allow list when there is one, and no capped recipient passes the recipient's cap.\<close>

theorem reserve_stays_within_terms:
  assumes "reserve_at charges now b = Inr b'" "0 < charged_total charges"
  shows "unat (gb_used_msat b') = unat (gb_used_msat b) + charged_total charges
    \<and> gb_used_msat b' \<le> gb_budget_msat b \<and> gb_budget_msat b' = gb_budget_msat b
    \<and> charged_total charges \<le> unat (gb_per_call_max_msat b)
    \<and> (\<forall>payees. gb_payee_allowlist b = Some payees \<longrightarrow> ch_recipient ` set charges \<subseteq> set payees)
    \<and> (\<forall>r cap. bt_get (gb_per_recipient_msat b) r = Some cap \<and> 0 < charged charges r \<longrightarrow>
         unat (bt_get_or 0 (gb_used_by_recipient b') r)
           = unat (bt_get_or 0 (gb_used_by_recipient b) r) + charged charges r
         \<and> bt_get_or 0 (gb_used_by_recipient b') r \<le> cap)"
proof -
  obtain m st where m: "reserve_within charges True b = Inr m"
    and b': "b' = m \<lparr> gb_breaker_state := st \<rparr>"
    using reserve_bounded_sel [of charges None now b b'] assms(1) by (auto simp: reserve_at_def)
  note w = reserve_within_Inr [OF m]
  have "gb_budget_msat m = gb_budget_msat b"
    using w(5) by (metis grant_budget.simps(8) grant_budget.surjective grant_budget.update_convs(11,12))
  moreover have "unat (gb_used_msat m) \<le> unat (gb_budget_msat b)" using w(2) assms(2) .
  ultimately show ?thesis
    using w(1,3,4,6) by (simp add: b') (simp add: word_le_nat_alt image_subset_iff)
qed

text \<open>The meter of a 100 sat grant with one capped, allowed payee admits two charges of
  3000 and 2000 msat.\<close>

theorem reserve_stays_within_terms_witness:
  "reserve_at sample_charges 1000 sample_budget
     = Inr (projr (reserve_at sample_charges 1000 sample_budget))
   \<and> charged_total sample_charges = 5000
   \<and> gb_used_msat (projr (reserve_at sample_charges 1000 sample_budget)) \<le> 100000"
  using reserve_stays_within_terms [OF sample_reserves] sample_reserves
  by (simp add: sample_budget_sel)

text \<open>(C23) Once a reservation with a payment in it is admitted, the meter reports at that
  instant no more payments in the last minute and the last hour, and no more msat in the last
  ten minutes, than the breaker limits; the grant was not paused, and the recorded consecutive
  failures, the unresolved payments and the new payments together fit the failure limit, so
  that even if every one of them fails the limit is not passed.\<close>

theorem reserve_respects_breakers:
  assumes "reserve_bounded charges pp now b = Inr b'" "0 < charged_total charges" "budget_wf b"
    "unat (sb_consecutive_failures (gb_breaker_state b)) + unresolved_payments b < 2 ^ 64"
  defines "status \<equiv> breaker_status b' now" and "l \<equiv> gb_breakers b"
  shows "bs_payments_last_minute status \<le> max_payments_per_minute l
    \<and> bs_payments_last_hour status \<le> max_payments_per_hour l
    \<and> bs_reserved_msat_last_10_minutes status \<le> max_msat_per_10_minutes l
    \<and> \<not> bs_paused status
    \<and> unat (sb_consecutive_failures (gb_breaker_state b)) + unresolved_payments b
        + payment_count charges \<le> unat (max_consecutive_failures l)"
proof (rule reserve_bounded_Inr [OF assms(1)])
  let ?st = "gb_breaker_state b"
  let ?now = "breaker_now ?st now"
  fix m T count
  assume m: "reserve_within charges (pp = None) b = Inr m"
    and br: "breaker_refusal b count T ?now = None"
    and T: "unat T = charged_total charges" and c: "unat count = payment_count charges"
    and b': "b' = (if 0 < payment_count charges
       then m \<lparr> gb_breaker_state := add_bucket ?now (bump count T) (gb_breaker_state m) \<rparr> else m)"
  have pos: "0 < unat count" "0 < unat T" using assms(2) payment_count_pos T c by simp_all
  have st': "gb_breaker_state b' = add_bucket ?now (bump count T) ?st"
    using pos c by (simp add: b' reserve_within_state [OF m])
  have now': "breaker_now (gb_breaker_state b') now = ?now"
    and pz: "sb_paused (gb_breaker_state b') = sb_paused ?st"
    by (simp_all add: st' breaker_now_def split: option.splits)
  have win: "window_nat col ?now secs (sb_buckets (gb_breaker_state b')) \<le> window_nat col ?now secs (sb_buckets ?st) + n"
    if "\<And>k. unat (col (bump count T k)) \<le> unat (col k) + n" "col \<lparr> bk_payments = 0, bk_msat = 0 \<rparr> = 0"
      "0 \<le> secs" "secs \<le> 3600" for col secs n
    using add_bucket_window [OF _ that, of "?st" ?now ?now] window_nat_retain [OF that(3,4)] assms(3)
    by (simp add: st' budget_wf_def)
  note lim = breaker_refusal_None [OF br pos assms(4)]
  show ?thesis
    using lim win [of bk_payments "unat count" 60, OF bump_le(1)]
      win [of bk_payments "unat count" 3600, OF bump_le(1)] win [of bk_msat "unat T" 600, OF bump_le(2)]
    by (auto simp: status_def l_def breaker_status_def now' pz Let_def word_le_nat_alt window_sum_nat c
        intro!: min.coboundedI2)
qed

text \<open>The sample grant stays inside its default breakers after the two charges.\<close>

theorem reserve_respects_breakers_witness:
  "bs_payments_last_minute (breaker_status (projr (reserve_at sample_charges 1000 sample_budget)) 1000) \<le> 10"
proof -
  have "unat (sb_consecutive_failures (gb_breaker_state sample_budget)) + unresolved_payments sample_budget
      < 2 ^ 64"
    by (simp add: sample_budget_def terms_eval unresolved_payments_def)
  then show ?thesis
    using reserve_respects_breakers [OF sample_reserves [unfolded reserve_at_def], folded reserve_at_def]
    by (simp add: sample_budget_sel default_breaker_limits_def)
qed

text \<open>(C24) Terms that the owner may approve are in normal form afterwards: approving the result
  again changes nothing, the budget, the per-call maximum and the duration are inside their
  bounds, every cap is positive and at most the budget, and the recipient keys are canonical,
  so that two spellings of one recipient never hold two caps.\<close>

theorem normalized_idempotent:
  assumes "normalized t = Inr u"
  shows "normalized u = Inr u
    \<and> 0 < gt_per_call_max_msat u \<and> gt_per_call_max_msat u \<le> gt_budget_msat u
    \<and> gt_budget_msat u = gt_budget_msat t \<and> gt_budget_msat u \<le> 100000000000
    \<and> 60 \<le> gt_ttl_secs u \<and> gt_ttl_secs u \<le> 86400
    \<and> bt_wf (gt_per_recipient_msat u)
    \<and> list_all (recipient_cap_ok (gt_budget_msat u)) (gt_per_recipient_msat u)"
proof -
  obtain payees m where
    p: "case gt_payee_allowlist t of None \<Rightarrow> payees = None
        | Some ps \<Rightarrow> length ps \<le> MAX_RECIPIENT_BUDGETS
            \<and> (\<exists>qs. payees = Some qs \<and> canonical_payees ps [] = Inr qs)"
    and m: "canonical_budgets (gt_budget_msat t) (gt_per_recipient_msat t) [] = Inr m"
    and u: "u = t \<lparr> gt_payee_allowlist := payees, gt_per_recipient_msat := m \<rparr>"
    using assms by (auto simp: normalized_def not_less split: if_splits option.splits sum.splits)
  have g: "limits_valid (gt_breakers t)" "gt_budget_msat t \<noteq> 0" "gt_budget_msat t \<le> MAX_GRANT_BUDGET_MSAT"
    "MIN_SPEND_GRANT_TTL_SECS \<le> gt_ttl_secs t" "gt_ttl_secs t \<le> MAX_SPEND_GRANT_TTL_SECS"
    "gt_per_call_max_msat t \<noteq> 0" "gt_per_call_max_msat t \<le> gt_budget_msat t"
    "length (gt_per_recipient_msat t) \<le> MAX_RECIPIENT_BUDGETS"
    using assms by (auto simp: normalized_def not_less split: if_splits)
  note mm = canonical_budgets_Inr [OF m] canonical_budgets_idem [OF m]
  have pp: "case payees of None \<Rightarrow> True
      | Some qs \<Rightarrow> length qs \<le> MAX_RECIPIENT_BUDGETS \<and> canonical_payees qs [] = Inr qs"
    using p canonical_payees_idem canonical_payees_Inr [of _ "[]"]
    by (fastforce split: option.splits)
  have "normalized u = Inr u"
    using g mm pp by (auto simp: normalized_def u not_less split: option.splits)
  then show ?thesis
    using g mm by (simp add: u word_gt_0 MAX_GRANT_BUDGET_MSAT_def MIN_SPEND_GRANT_TTL_SECS_def
        MAX_SPEND_GRANT_TTL_SECS_def)
qed

text \<open>A grant of 100 sat with the default breakers is accepted as it stands.\<close>

theorem normalized_idempotent_witness:
  "normalized (terms_new 100000) = Inr (terms_new 100000)
   \<and> gt_budget_msat (terms_new 100000) \<le> 100000000000"
proof -
  have e: "normalized (terms_new 100000) = Inr (terms_new 100000)"
    by (simp add: normalized_def terms_new_def limits_valid_def default_breaker_limits_def
        MAX_GRANT_BUDGET_MSAT_def MIN_SPEND_GRANT_TTL_SECS_def MAX_SPEND_GRANT_TTL_SECS_def)
  then show ?thesis using normalized_idempotent [OF e] by blast
qed



end
