(* ===== verification/Pairing_Types.thy ===== *)
theory Pairing_Types
  imports Samples Spend_Budget
begin

text \<open>
  What a node stores about paired clients, \<open>konsensus-api/src/pairing.rs\<close>: scopes, the
  paired-client records, the owner's grants, the pending operations and the device keys of
  \<open>pairing/device.rs\<close>, with the approval operations and receipts of \<open>pairing/approval.rs\<close>;
  and the liveness and revocation of grants.
  A \<open>chrono\<close> time is an \<open>int\<close> of Unix seconds, an \<open>Instant\<close> a \<open>nat\<close> of seconds of the
  monotonic clock.
\<close>

section \<open>Scopes, claims and errors\<close>

datatype scope = Read | Receive | Spend | Admin | Identity | Credential | FrontDoor

fun scope_as_str :: "scope \<Rightarrow> string" where
  "scope_as_str Read = ''read''"
| "scope_as_str Receive = ''receive''"
| "scope_as_str Spend = ''spend''"
| "scope_as_str Admin = ''admin''"
| "scope_as_str Identity = ''identity''"
| "scope_as_str Credential = ''credential''"
| "scope_as_str FrontDoor = ''front_door''"

definition default_pairing_scopes :: "scope list" where
  "default_pairing_scopes = [Read, Receive]"

definition bootstrap_pairing_scopes :: "scope list" where
  "bootstrap_pairing_scopes = [Read, Receive, Identity]"

definition grantable_scopes :: "scope list" where
  "grantable_scopes = [Spend, FrontDoor]"

definition scope_all :: "scope list" where
  "scope_all = [Read, Receive, Spend, Admin, Identity, Credential, FrontDoor]"

definition loopback_only :: "scope list" where
  "loopback_only = [Read, Receive]"

record claims =
  cl_sub :: string
  cl_iat :: int
  cl_exp :: int
  cl_scp :: "scope list"
  cl_cid :: "string option"
  cl_epc :: "u64 option"
  cl_idf :: "string option"
  cl_bst :: "bool option"

record pairing_binding =
  pb_client_id :: string
  pb_epoch :: u64
  pb_fingerprint :: string

datatype pairing_error =
    Closed | TooManyPending | UnknownPending | BadProof | Malformed string | UnknownClient
  | PairingInvalid string | NotGrantable string | UnknownOperation | ConfirmationMismatch
  | WrongOwnerCode u8 | ConfirmationLost | DeviceApprovalsDisabled string | ShortCodesOff
  | Expired | NotApproved | BindingMismatch | OwnerChannelUnavailable
  | OwnerApprovalUnavailable | Io string

fun refusal_reason :: "pairing_error \<Rightarrow> string" where
  "refusal_reason BadProof = ''bad_signature''"
| "refusal_reason Expired = ''stale_or_future''"
| "refusal_reason (NotGrantable _) = ''unknown_or_revoked_key''"
| "refusal_reason (PairingInvalid _) = ''invalid_pairing''"
| "refusal_reason UnknownClient = ''unknown_client''"
| "refusal_reason OwnerChannelUnavailable = ''owner_channel_off''"
| "refusal_reason (DeviceApprovalsDisabled _) = ''device_approvals_disabled''"
| "refusal_reason (Malformed _) = ''malformed''"
| "refusal_reason TooManyPending = ''rate_limited''"
| "refusal_reason (Io _) = ''storage_error''"
| "refusal_reason _ = ''pairing_refused''"

section \<open>External crates\<close>

text \<open>
  Beside the crates of \<open>ext_ops\<close>: the keyed hash of \<open>blake3\<close>, \<open>Signature::from_slice\<close> of
  \<open>ed25519_dalek\<close>, the P-256 verification of \<open>ring\<close>, the URL-safe base64 of \<open>base64\<close>, the
  HMAC of \<open>hmac\<close> (which takes a key of any length), and what \<open>serde_json\<close> makes of a meter,
  of the claims of a token and of its header, read as its \<open>alg\<close> text and whether it has a
  \<open>crit\<close> member; and the English word list of \<open>bip39\<close>.
\<close>

record pairing_ops = ext_ops +
  blake3_keyed :: "bytes \<Rightarrow> bytes \<Rightarrow> bytes"
  sig_from_slice :: "bytes \<Rightarrow> string + bytes"
  p256_verify :: "bytes \<Rightarrow> bytes \<Rightarrow> bytes \<Rightarrow> bool"
  b64url_encode :: "bytes \<Rightarrow> string"
  b64url_decode :: "string \<Rightarrow> bytes option"
  hmac_sha256 :: "bytes \<Rightarrow> bytes \<Rightarrow> bytes"
  budget_json :: "grant_budget \<Rightarrow> bytes"
  claims_to_json :: "claims \<Rightarrow> bytes option"
  claims_from_json :: "bytes \<Rightarrow> claims option"
  header_from_json :: "bytes \<Rightarrow> (string option \<times> bool) option"
  bip39_word :: "nat \<Rightarrow> string"

section \<open>Device keys\<close>

record device_key =
  dk_key_id :: string
  dk_client_id :: string
  dk_public_key :: string
  dk_name :: string
  dk_registered_at :: int
  dk_epoch :: u64
  dk_client_pubkey :: string
  dk_owner_approval :: string
  dk_enrolled_by :: string

record noise_binding =
  nb_handshake_hash :: bytes
  nb_client_static :: bytes
  nb_box_public_key :: bytes

record device_sas =
  das_nonce :: bytes
  das_digest :: bytes
  das_binding :: noise_binding
  das_confirmed :: bool
  das_created_at :: nat

record pending_device_key =
  pd_op_id :: string
  pd_client_id :: string
  pd_client_name :: string
  pd_epoch :: u64
  pd_client_pubkey :: string
  pd_key_id :: string
  pd_public_key :: string
  pd_name :: string
  pd_expires_at :: int
  pd_created_at :: int
  pd_delegation_nonce :: string
  pd_sas_version :: "u8 option"
  pd_sas :: "device_sas option"

definition line_field :: "string \<Rightarrow> string \<Rightarrow> string" where
  "line_field name v = CHR 10 # name @ '':'' @ v"

definition client_id_from_pubkey :: "pairing_ops \<Rightarrow> string \<Rightarrow> string" where
  "client_id_from_pubkey x pubkey_hex =
     hex_encode x (take 16 (blake3_keyed x (blake3 x (ascii_bytes ''bitsov-pair-client-id-v1''))
                              (ascii_bytes pubkey_hex)))"

definition key_id_for :: "pairing_ops \<Rightarrow> bytes \<Rightarrow> string" where
  "key_id_for x public_key = hex_encode x (take 16 (blake3 x public_key))"

definition owner_approval_message :: "string \<Rightarrow> string \<Rightarrow> u64 \<Rightarrow> string \<Rightarrow> string" where
  "owner_approval_message node client_pubkey epoch device_public_key =
     ''bitsov-owner-approval-v1'' @ line_field ''purpose'' ''device-key'' @ line_field ''node'' node
     @ line_field ''client_pubkey'' client_pubkey @ line_field ''epoch'' (show_word epoch)
     @ line_field ''device_key'' device_public_key"

definition verify_owner_approval ::
  "pairing_ops \<Rightarrow> bytes \<Rightarrow> string \<Rightarrow> string \<Rightarrow> pairing_error + unit" where
  "verify_owner_approval x owner message signature_hex =
     (case hex_decode x signature_hex of
        Inl _ \<Rightarrow> Inl BadProof
      | Inr raw \<Rightarrow>
          (case sig_from_slice x raw of
             Inl _ \<Rightarrow> Inl BadProof
           | Inr sig \<Rightarrow>
               (case verify_strict x owner (ascii_bytes message) sig of
                  Inl _ \<Rightarrow> Inl BadProof
                | Inr _ \<Rightarrow> Inr ())))"

definition parse_public_key :: "pairing_ops \<Rightarrow> string \<Rightarrow> pairing_error + bytes" where
  "parse_public_key x public_key_hex =
     (case hex_decode x public_key_hex of
        Inl _ \<Rightarrow> Inl (Malformed ''device key is not hex'')
      | Inr raw \<Rightarrow>
          if length raw \<noteq> 65 \<or> hd raw \<noteq> 4
          then Inl (Malformed (''device key must be an uncompressed P-256 point (65 bytes, 0x04''
                          @ map char_of [226, 128, 166 :: nat] @ '')''))
          else Inr raw)"

definition verify_p256 :: "pairing_ops \<Rightarrow> bytes \<Rightarrow> bytes \<Rightarrow> string \<Rightarrow> pairing_error + unit" where
  "verify_p256 x public_key message signature_hex =
     (case hex_decode x signature_hex of
        Inl _ \<Rightarrow> Inl BadProof
      | Inr sig \<Rightarrow> if p256_verify x public_key message sig then Inr () else Inl BadProof)"

section \<open>Approval operations\<close>

datatype approval_request =
    BreakerReset
  | SpendGrant u64 "u64 option" int "string option"
  | FirstContact string u64 "u64 option"

fun request_kind :: "approval_request \<Rightarrow> string" where
  "request_kind BreakerReset = ''breaker_reset''"
| "request_kind (SpendGrant _ _ _ _) = ''spend_grant''"
| "request_kind (FirstContact _ _ _) = ''first_contact''"

text \<open>
  The terms a request stands for. A rejected budget is reported with its text in the
  program; here the error of \<open>normalized\<close> is kept.
\<close>

datatype request_error = PairingErr pairing_error | TermsErr terms_error

fun spend_terms :: "approval_request \<Rightarrow> request_error + grant_terms" where
  "spend_terms (SpendGrant budget_msat per_call_max_msat window_secs recipient) =
     (let terms = terms_for_secs window_secs
            (terms_per_call (case per_call_max_msat of Some m \<Rightarrow> m | None \<Rightarrow> budget_msat)
              (terms_new budget_msat));
          terms = (case recipient of
                     None \<Rightarrow> terms
                   | Some r \<Rightarrow> (terms_recipient r budget_msat terms) \<lparr> gt_payee_allowlist := Some [r] \<rparr>)
      in case normalized terms of Inl e \<Rightarrow> Inl (TermsErr e) | Inr t \<Rightarrow> Inr t)"
| "spend_terms _ = Inl (PairingErr BadProof)"

definition node_recipient :: "string \<Rightarrow> request_error + string" where
  "node_recipient r =
     (case canonical_recipient r of
        Some k \<Rightarrow> if length k = 64 then Inr k
                  else Inl (PairingErr (Malformed ''recipient must be a node id''))
      | None \<Rightarrow> Inl (PairingErr (Malformed ''recipient must be a node id'')))"

fun request_normalize :: "approval_request \<Rightarrow> request_error + approval_request" where
  "request_normalize BreakerReset = Inr BreakerReset"
| "request_normalize (SpendGrant budget_msat per_call window_secs recipient) =
     (case (case recipient of None \<Rightarrow> Inr None
            | Some r \<Rightarrow> map_sum id Some (node_recipient r)) of
        Inl e \<Rightarrow> Inl e
      | Inr recipient \<Rightarrow>
          (case spend_terms (SpendGrant budget_msat per_call window_secs recipient) of
             Inl e \<Rightarrow> Inl e
           | Inr _ \<Rightarrow>
               Inr (SpendGrant budget_msat
                      (Some (case per_call of Some m \<Rightarrow> m | None \<Rightarrow> budget_msat))
                      window_secs recipient)))"
| "request_normalize (FirstContact recipient max_total_msat budget_msat) =
     (case node_recipient recipient of
        Inl e \<Rightarrow> Inl e
      | Inr recipient \<Rightarrow>
          if max_total_msat = 0 \<or> max_total_msat > FIRST_CONTACT_MAX_MSAT
          then Inl (PairingErr (Malformed ''first contact must cover 1..=100000 msat''))
          else Inr (FirstContact recipient max_total_msat budget_msat))"

definition RESET_PER_DAY :: nat where "RESET_PER_DAY = 3"
definition RESET_WINDOW :: int where "RESET_WINDOW = 86400"
definition APPROVAL_TTL :: int where "APPROVAL_TTL = 300"

record breaker_reset_terms =
  rt_tripped :: "string list"
  rt_breakers :: breaker_status_view
  rt_budget_msat :: u64
  rt_remaining_msat :: u64
  rt_per_call_max_msat :: u64
  rt_grant_expires_at :: int
  rt_resets_last_day :: nat
  rt_state_digest :: string

fun join_with :: "string \<Rightarrow> string list \<Rightarrow> string" where
  "join_with sep [] = []"
| "join_with sep [s] = s"
| "join_with sep (s # ss) = s @ sep @ join_with sep ss"

definition show_bool :: "bool \<Rightarrow> string" where
  "show_bool b = (if b then ''true'' else ''false'')"

definition reset_message :: "breaker_reset_terms \<Rightarrow> string" where
  "reset_message r =
     (let b = rt_breakers r; l = bs_limits b in
      line_field ''tripped'' (join_with '','' (rt_tripped r))
      @ line_field ''remaining_msat'' (show_word (rt_remaining_msat r))
      @ line_field ''grant_expires_at'' (show_int (rt_grant_expires_at r))
      @ line_field ''paused'' (show_bool (bs_paused b))
      @ line_field ''consecutive_failures'' (show_word (bs_consecutive_failures b))
      @ line_field ''unresolved_payments'' (show_word (bs_unresolved_payments b))
      @ line_field ''payments_last_minute'' (show_word (bs_payments_last_minute b))
      @ line_field ''payments_last_hour'' (show_word (bs_payments_last_hour b))
      @ line_field ''reserved_msat_last_10_minutes'' (show_word (bs_reserved_msat_last_10_minutes b))
      @ line_field ''max_payments_per_minute'' (show_word (max_payments_per_minute l))
      @ line_field ''max_payments_per_hour'' (show_word (max_payments_per_hour l))
      @ line_field ''max_consecutive_failures'' (show_word (max_consecutive_failures l))
      @ line_field ''max_msat_per_10_minutes'' (show_word (max_msat_per_10_minutes l))
      @ line_field ''resets_last_day'' (show_nat (rt_resets_last_day r))
      @ line_field ''max_resets_per_day'' (show_nat RESET_PER_DAY)
      @ line_field ''state_digest'' (rt_state_digest r))"

record approval_operation =
  ao_op_id :: string
  ao_node :: string
  ao_client_id :: string
  ao_client_pubkey :: string
  ao_epoch :: u64
  ao_grant_op :: "string option"
  ao_breaker_reset :: "breaker_reset_terms option"
  ao_request :: approval_request
  ao_nonce :: string
  ao_expires_at :: int

definition opt_or_dash :: "('a \<Rightarrow> string) \<Rightarrow> 'a option \<Rightarrow> string" where
  "opt_or_dash f o_arg = (case o_arg of None \<Rightarrow> ''-'' | Some v \<Rightarrow> f v)"

fun request_columns ::
  "breaker_reset_terms option \<Rightarrow> approval_request \<Rightarrow> string \<times> u64 \<times> string \<times> string \<times> string" where
  "request_columns reset BreakerReset =
     (''-'', 0, opt_or_dash (\<lambda>r. show_word (rt_budget_msat r)) reset,
      opt_or_dash (\<lambda>r. show_word (rt_per_call_max_msat r)) reset, ''-'')"
| "request_columns reset (SpendGrant budget_msat per_call window_secs recipient) =
     (opt_or_dash (\<lambda>r. r) recipient, budget_msat, show_word budget_msat,
      show_word (case per_call of Some m \<Rightarrow> m | None \<Rightarrow> budget_msat), show_int window_secs)"
| "request_columns reset (FirstContact recipient max_total_msat budget_msat) =
     (recipient, max_total_msat, opt_or_dash show_word budget_msat, ''-'', ''-'')"

definition approval_message :: "approval_operation \<Rightarrow> string" where
  "approval_message op =
     (let (recipient, m, budget, per_call, window) =
            request_columns (ao_breaker_reset op) (ao_request op)
      in ''bitsov-owner-approval-v1'' @ line_field ''node'' (ao_node op)
         @ line_field ''kind'' (request_kind (ao_request op))
         @ line_field ''client'' (ao_client_id op)
         @ line_field ''client_pubkey'' (ao_client_pubkey op)
         @ line_field ''epoch'' (show_word (ao_epoch op))
         @ line_field ''grant_op'' (opt_or_dash (\<lambda>s. s) (ao_grant_op op))
         @ line_field ''recipient'' recipient
         @ line_field ''max_total_msat'' (show_word m)
         @ line_field ''budget_msat'' budget
         @ line_field ''per_call_max_msat'' per_call
         @ line_field ''window_secs'' window
         @ line_field ''op_id'' (ao_op_id op)
         @ line_field ''nonce'' (ao_nonce op)
         @ line_field ''expires_at'' (show_int (ao_expires_at op))
         @ (case ao_breaker_reset op of None \<Rightarrow> [] | Some r \<Rightarrow> reset_message r))"

record approval_receipt =
  ar_operation :: approval_operation
  ar_approver :: device_key
  ar_signature :: string

section \<open>Records of the pairing file\<close>

record paired_client =
  pc_client_id :: string
  pc_name :: string
  pc_client_pubkey :: string
  pc_remote_transport_pubkey :: "string option"
  pc_scopes :: "scope list"
  pc_epoch :: u64
  pc_identity_fingerprint :: string
  pc_created_at :: int
  pc_last_seen :: "int option"

record spend_grant =
  sg_op_id :: string
  sg_client_id :: string
  sg_scopes :: "scope list"
  sg_granted_at :: int
  sg_expires_at :: int
  sg_identity_fingerprint :: string
  sg_epoch :: u64
  sg_granted_by :: string
  sg_budget :: "grant_budget option"
  sg_owner_approval :: "approval_receipt option"

record front_door_grant =
  fd_op_id :: string
  fd_client_id :: string
  fd_granted_at :: int
  fd_expires_at :: int
  fd_identity_fingerprint :: string
  fd_epoch :: u64
  fd_granted_by :: string
  fd_revoked :: bool

record pending_elevation =
  pe_op_id :: string
  pe_client_id :: string
  pe_client_name :: string
  pe_scopes :: "scope list"
  pe_created_at :: int
  pe_expires_at :: int
  pe_proposed_terms :: "grant_terms option"

record replacement_approval =
  ra_op_id :: string
  ra_client_id :: string
  ra_current_identity_fingerprint :: string
  ra_replacement_identity_fingerprint :: string
  ra_expires_at :: int
  ra_approved :: bool
  ra_client_name :: string

record pairing_file =
  pf_version :: u32
  pf_clients :: "paired_client list"
  pf_grants :: "spend_grant list"
  pf_call_spend_grants :: "(string, string) btmap"
  pf_front_door_grants :: "front_door_grant list"
  pf_pending_elevations :: "pending_elevation list"
  pf_replacement_approvals :: "replacement_approval list"
  pf_last_epoch :: "(string, u64) btmap"
  pf_device_keys :: "device_key list"
  pf_pending_device_keys :: "pending_device_key list"
  pf_registered_ops :: "(string, string) btmap"
  pf_intent_nonces :: "(string, string \<times> int) btmap"

definition PAIRING_FILE_VERSION :: u32 where "PAIRING_FILE_VERSION = 8"

definition pairing_file_new :: pairing_file where
  "pairing_file_new =
     \<lparr> pf_version = PAIRING_FILE_VERSION, pf_clients = [], pf_grants = [], pf_call_spend_grants = [],
       pf_front_door_grants = [], pf_pending_elevations = [], pf_replacement_approvals = [],
       pf_last_epoch = [], pf_device_keys = [], pf_pending_device_keys = [],
       pf_registered_ops = [], pf_intent_nonces = [] \<rparr>"

text \<open>
  The difference of two \<open>i64\<close> times wraps in a release build, so the cap on the lifetime of a
  grant is checked on the wrapped value.
\<close>

definition i64_wrap :: "int \<Rightarrow> int" where
  "i64_wrap k = (k + 2 ^ 63) mod 2 ^ 64 - 2 ^ 63"

definition is_messaging :: "spend_grant \<Rightarrow> bool" where
  "is_messaging g =
     (sg_owner_approval g \<noteq> None
      \<or> (case sg_budget g of None \<Rightarrow> False | Some b \<Rightarrow> gb_recipients_only b))"

definition is_live :: "int \<Rightarrow> spend_grant \<Rightarrow> bool" where
  "is_live now g =
     (sg_budget g \<noteq> None \<and> sg_expires_at g > now
      \<and> i64_wrap (sg_expires_at g - sg_granted_at g) \<le> MAX_SPEND_GRANT_TTL_SECS)"

definition front_door_live :: "int \<Rightarrow> front_door_grant \<Rightarrow> bool" where
  "front_door_live now g =
     (\<not> fd_revoked g \<and> fd_expires_at g > now
      \<and> i64_wrap (fd_expires_at g - fd_granted_at g) \<le> MAX_SPEND_GRANT_TTL_SECS)"

definition for_client :: "string option \<Rightarrow> string \<Rightarrow> bool" where
  "for_client client_id cid = (case client_id of None \<Rightarrow> True | Some i \<Rightarrow> cid = i)"

definition file_revoke_grants :: "string option \<Rightarrow> pairing_file \<Rightarrow> nat \<times> pairing_file" where
  "file_revoke_grants client_id f =
     (length (filter (\<lambda>g. for_client client_id (sg_client_id g)) (pf_grants f))
        + length (filter (\<lambda>g. for_client client_id (fd_client_id g)) (pf_front_door_grants f)),
      f \<lparr> pf_grants := map (\<lambda>g. if for_client client_id (sg_client_id g)
                                 then g \<lparr> sg_budget := None \<rparr> else g) (pf_grants f),
          pf_front_door_grants := map (\<lambda>g. if for_client client_id (fd_client_id g)
                                 then g \<lparr> fd_revoked := True \<rparr> else g) (pf_front_door_grants f) \<rparr>)"

definition has_dead_grant :: "int \<Rightarrow> pairing_file \<Rightarrow> bool" where
  "has_dead_grant now f =
     (list_ex (\<lambda>g. \<not> is_live now g) (pf_grants f)
      \<or> list_ex (\<lambda>g. \<not> front_door_live now g) (pf_front_door_grants f))"

definition retain_live_grants :: "int \<Rightarrow> pairing_file \<Rightarrow> pairing_file" where
  "retain_live_grants now f =
     f \<lparr> pf_grants := filter (is_live now) (pf_grants f),
         pf_front_door_grants := filter (front_door_live now) (pf_front_door_grants f) \<rparr>"

section \<open>Deployment and receipts\<close>

record pairing_cfg =
  owner_control_enabled :: bool
  local_owner_device :: bool
  second_device_enrollment :: bool
  owner_approval_key :: "bytes option"
  owner_signing_key :: "bytes option"
  device_authority_off :: "string option"

definition receipt_signed :: "pairing_ops \<Rightarrow> bytes \<Rightarrow> approval_receipt \<Rightarrow> bool" where
  "receipt_signed x owner r =
     (let op = ar_operation r; key = ar_approver r in
      case verify_owner_approval x owner
             (owner_approval_message (ao_node op) (dk_client_pubkey key) (dk_epoch key)
                (dk_public_key key)) (dk_owner_approval key) of
        Inl _ \<Rightarrow> False
      | Inr _ \<Rightarrow>
          (case parse_public_key x (dk_public_key key) of
             Inl _ \<Rightarrow> False
           | Inr public \<Rightarrow>
               if key_id_for x public \<noteq> dk_key_id key
                  \<or> client_id_from_pubkey x (dk_client_pubkey key) \<noteq> dk_client_id key
                  \<or> client_id_from_pubkey x (ao_client_pubkey op) \<noteq> ao_client_id op
               then False
               else \<not> isl (verify_p256 x public (ascii_bytes (approval_message op)) (ar_signature r))))"

definition receipt_verifies ::
  "pairing_ops \<Rightarrow> pairing_cfg \<Rightarrow> spend_grant \<Rightarrow> approval_receipt \<Rightarrow> bool" where
  "receipt_verifies x cfg grant r =
     (let op = ar_operation r; key = ar_approver r in
      case owner_approval_key cfg of
        None \<Rightarrow> False
      | Some owner \<Rightarrow>
          if \<not> receipt_signed x owner r \<or> ao_client_id op = dk_client_id key
             \<or> sg_client_id grant \<noteq> ao_client_id op \<or> sg_epoch grant \<noteq> ao_epoch op
             \<or> sg_identity_fingerprint grant \<noteq> ao_node op \<or> sg_op_id grant \<noteq> ao_op_id op
             \<or> sg_granted_by grant \<noteq> ''device:'' @ dk_key_id key \<or> sg_scopes grant \<noteq> [Spend]
             \<or> sg_granted_at grant \<ge> ao_expires_at op
             \<or> sg_granted_at grant < i64_wrap (ao_expires_at op - APPROVAL_TTL)
          then False
          else (case spend_terms (ao_request op) of
                  Inl _ \<Rightarrow> False
                | Inr terms \<Rightarrow>
                    (case sg_budget grant of
                       None \<Rightarrow> False
                     | Some budget \<Rightarrow>
                         i64_checked (sg_granted_at grant + gt_ttl_secs terms) = Some (sg_expires_at grant)
                         \<and> gb_budget_msat budget = gt_budget_msat terms
                         \<and> gb_per_call_max_msat budget = gt_per_call_max_msat terms
                         \<and> gb_breakers budget = gt_breakers terms
                         \<and> gb_payee_allowlist budget = gt_payee_allowlist terms
                         \<and> \<not> gb_allow_liquidity_fees budget
                         \<and> \<not> gb_recipients_only budget
                         \<and> list_all (\<lambda>(r, cap). case bt_get (gb_per_recipient_msat budget) r of
                                       None \<Rightarrow> False | Some actual \<Rightarrow> actual \<le> cap)
                             (gt_per_recipient_msat terms))))"

definition permits_spend_grant :: "pairing_ops \<Rightarrow> pairing_cfg \<Rightarrow> spend_grant \<Rightarrow> bool" where
  "permits_spend_grant x cfg grant =
     (case sg_owner_approval grant of
        Some receipt \<Rightarrow>
          (owner_control_enabled cfg \<or> local_owner_device cfg) \<and> device_authority_off cfg = None
          \<and> receipt_verifies x cfg grant receipt
      | None \<Rightarrow>
          owner_control_enabled cfg
          \<or> (local_owner_device cfg \<and> owner_approval_key cfg \<noteq> None
              \<and> strip_prefix ''device:'' (sg_granted_by grant) \<noteq> None
              \<and> (case sg_budget grant of None \<Rightarrow> False | Some b \<Rightarrow> gb_recipients_only b)))"

definition reset_terms_from_grant ::
  "pairing_ops \<Rightarrow> spend_grant \<Rightarrow> int \<Rightarrow> pairing_error + breaker_reset_terms" where
  "reset_terms_from_grant x grant now =
     (case sg_budget grant of
        None \<Rightarrow> Inl UnknownOperation
      | Some b \<Rightarrow>
          let tripped = reset_reasons b now in
          if tripped = [] then Inl (NotGrantable ''grant has no tripped breaker'')
          else Inr \<lparr> rt_tripped = tripped, rt_breakers = breaker_status b now,
                     rt_budget_msat = gb_budget_msat b, rt_remaining_msat = remaining_msat b,
                     rt_per_call_max_msat = gb_per_call_max_msat b,
                     rt_grant_expires_at = sg_expires_at grant,
                     rt_resets_last_day =
                       length (filter (\<lambda>r. dr_at r > i64_sat_sub now RESET_WINDOW)
                                 (gb_device_breaker_resets b)),
                     rt_state_digest = hex_encode x (blake3 x (budget_json x b)) \<rparr>)"

end
