(* ===== verification/Pairing_Store.thy ===== *)
theory Pairing_Store
  imports Pairing_Types
begin

text \<open>
  How the pairing file of \<open>konsensus-api/src/pairing.rs\<close> reaches the disk: the loop of
  \<open>persist_with_clock\<close>, which rewrites the file until no grant in it has died during the
  write, and the cleanup of expired grants. The loop returns, and a save changes nothing of
  the file but its grants.
\<close>

section \<open>Replacing the file on disk\<close>

text \<open>
  What the environment does in one pass of the loop: the three readings of the clock, and
  the error of the write, the rename and the directory sync, if any. The contents of the
  disk are the list of versions that a restart may find: a rename adds one, and a
  successful sync leaves that one only. Encoding the file never fails.
\<close>

record save_attempt =
  sv_clock_start :: int
  sv_write :: "string option"
  sv_clock_written :: int
  sv_rename :: "string option"
  sv_fsync :: "string option"
  sv_clock_published :: int

type_synonym disk = "pairing_file list"

partial_function (option) persist_loop ::
  "(nat \<Rightarrow> save_attempt) \<Rightarrow> nat \<Rightarrow> pairing_file \<Rightarrow> disk
   \<Rightarrow> ((pairing_error + pairing_file) \<times> disk) option" where
  "persist_loop env n candidate d =
     (let a = env n; candidate = retain_live_grants (sv_clock_start a) candidate in
      case sv_write a of
        Some e \<Rightarrow> Some (Inl (Io e), d)
      | None \<Rightarrow>
          if has_dead_grant (sv_clock_written a) candidate then persist_loop env (Suc n) candidate d
          else (case sv_rename a of
                  Some e \<Rightarrow> Some (Inl (Io e), d)
                | None \<Rightarrow>
                    (case sv_fsync a of
                       Some e \<Rightarrow> Some (Inl (Io e), candidate # d)
                     | None \<Rightarrow>
                         if has_dead_grant (sv_clock_published a) candidate
                         then persist_loop env (Suc n) candidate [candidate]
                         else Some (Inr candidate, [candidate]))))"

definition persist ::
  "(nat \<Rightarrow> save_attempt) \<Rightarrow> pairing_file \<Rightarrow> disk
   \<Rightarrow> ((pairing_error + unit) \<times> pairing_file \<times> disk) option" where
  "persist env f d =
     (case persist_loop env 0 (f \<lparr> pf_version := PAIRING_FILE_VERSION \<rparr>) d of
        None \<Rightarrow> None
      | Some (Inl e, d') \<Rightarrow> Some (Inl e, f, d')
      | Some (Inr candidate, d') \<Rightarrow> Some (Inr (), candidate, d'))"

definition prune_expired_locked ::
  "(nat \<Rightarrow> save_attempt) \<Rightarrow> int \<Rightarrow> pairing_file \<Rightarrow> disk
   \<Rightarrow> ((pairing_error + nat) \<times> pairing_file \<times> disk) option" where
  "prune_expired_locked env now f d =
     (let before = length (pf_grants f) + length (pf_front_door_grants f) in
      if has_dead_grant now f
      then (case persist env f d of
              None \<Rightarrow> None
            | Some (Inl e, f', d') \<Rightarrow> Some (Inl e, f', d')
            | Some (Inr _, f', d') \<Rightarrow>
                Some (Inr (before - length (pf_grants f') - length (pf_front_door_grants f')), f', d'))
      else Some (Inr 0, f, d))"

definition same_registry :: "pairing_file \<Rightarrow> pairing_file \<Rightarrow> bool" where
  "same_registry f g \<longleftrightarrow>
     g = f \<lparr> pf_version := pf_version g, pf_grants := pf_grants g,
             pf_front_door_grants := pf_front_door_grants g \<rparr>
     \<and> set (pf_grants g) \<subseteq> set (pf_grants f)"

definition grant_count :: "pairing_file \<Rightarrow> nat" where
  "grant_count f = length (pf_grants f) + length (pf_front_door_grants f)"

definition live_count :: "int \<Rightarrow> pairing_file \<Rightarrow> nat" where
  "live_count now f = grant_count (retain_live_grants now f)"

definition readings_ascend :: "(nat \<Rightarrow> save_attempt) \<Rightarrow> bool" where
  "readings_ascend env \<longleftrightarrow>
     (\<forall>n. sv_clock_start (env n) \<le> sv_clock_written (env n)
        \<and> sv_clock_written (env n) \<le> sv_clock_published (env n)
        \<and> sv_clock_published (env n) \<le> sv_clock_start (env (Suc n)))"

definition saved_ok :: "(nat \<Rightarrow> save_attempt) \<Rightarrow> nat \<Rightarrow> pairing_file \<Rightarrow> disk
    \<Rightarrow> ((pairing_error + pairing_file) \<times> disk) option \<Rightarrow> bool" where
  "saved_ok env m candidate d r \<longleftrightarrow>
     (let c = retain_live_grants (sv_clock_start (env m)) candidate in
      r = Some (Inr c, [c]) \<and> \<not> has_dead_grant (sv_clock_published (env m)) c
      \<or> (\<exists>e d'. r = Some (Inl (Io e), d') \<and> (\<forall>g \<in> set d'. g \<in> set d \<or> same_registry candidate g)))"

definition framed :: "pairing_file \<Rightarrow> disk \<Rightarrow> (pairing_error + pairing_file) \<times> disk \<Rightarrow> bool" where
  "framed c d res \<longleftrightarrow> (\<forall>g \<in> set (snd res). g \<in> set d \<or> same_registry c g)
     \<and> (\<forall>f. fst res = Inr f \<longrightarrow> same_registry c f \<and> snd res = [f])"

definition sample_env :: "nat \<Rightarrow> save_attempt" where
  "sample_env n =
     \<lparr> sv_clock_start = 1000 + int n, sv_write = None, sv_clock_written = 1000 + int n,
       sv_rename = None, sv_fsync = None, sv_clock_published = 1001 + int n \<rparr>"

definition sample_door :: "int \<Rightarrow> front_door_grant" where
  "sample_door t =
     \<lparr> fd_op_id = ''op'', fd_client_id = ''c'', fd_granted_at = 900, fd_expires_at = t,
       fd_identity_fingerprint = ''id'', fd_epoch = 1, fd_granted_by = ''cli'', fd_revoked = False \<rparr>"

section \<open>Facts\<close>

lemma same_registry_refl [simp]: "same_registry f f"
  by (simp add: same_registry_def)

lemma same_registry_trans: "same_registry f g \<Longrightarrow> same_registry g h \<Longrightarrow> same_registry f h"
  by (cases f; cases g; cases h) (auto simp: same_registry_def)

lemma same_registry_retain [simp]: "same_registry f (retain_live_grants now f)"
  by (auto simp: same_registry_def retain_live_grants_def)

lemma same_registry_version [simp]: "same_registry f (f \<lparr> pf_version := v \<rparr>)"
  by (simp add: same_registry_def)

lemma same_registry_fields:
  assumes "same_registry f g"
  shows "pf_clients g = pf_clients f" "pf_last_epoch g = pf_last_epoch f"
    "pf_device_keys g = pf_device_keys f" "pf_pending_device_keys g = pf_pending_device_keys f"
    "pf_registered_ops g = pf_registered_ops f" "pf_call_spend_grants g = pf_call_spend_grants f"
    "set (pf_grants g) \<subseteq> set (pf_grants f)"
  using assms by (cases f; cases g; auto simp: same_registry_def)+

lemma is_live_mono: "is_live t g \<Longrightarrow> s \<le> t \<Longrightarrow> is_live s g"
  by (simp add: is_live_def)

lemma front_door_live_mono: "front_door_live t g \<Longrightarrow> s \<le> t \<Longrightarrow> front_door_live s g"
  by (simp add: front_door_live_def)

lemma has_dead_mono: "has_dead_grant s f \<Longrightarrow> s \<le> t \<Longrightarrow> has_dead_grant t f"
  by (auto simp: has_dead_grant_def list_ex_iff dest: is_live_mono front_door_live_mono)

lemma filter_filter_imp: "(\<And>x. P x \<Longrightarrow> Q x) \<Longrightarrow> filter P (filter Q xs) = filter P xs"
  by (induction xs) auto

lemma retain_retain: "s \<le> t \<Longrightarrow> retain_live_grants t (retain_live_grants s f) = retain_live_grants t f"
  by (simp add: retain_live_grants_def filter_filter_imp [of _ "is_live s"]
      filter_filter_imp [of _ "front_door_live s"] is_live_mono front_door_live_mono del: filter_filter)

lemma retain_no_dead [simp]: "\<not> has_dead_grant t (retain_live_grants t f)"
  by (auto simp: has_dead_grant_def retain_live_grants_def list_ex_iff)

lemma length_filter_drop: "list_ex (\<lambda>x. \<not> P x) xs \<Longrightarrow> length (filter P xs) < length xs"
  by (induction xs) (auto simp: less_Suc_eq_le)

lemma retain_drops:
  assumes "has_dead_grant t f" shows "live_count t f < grant_count f"
proof -
  let ?g = "pf_grants f" and ?d = "pf_front_door_grants f"
  have "length (filter (is_live t) ?g) < length ?g \<or> length (filter (front_door_live t) ?d) < length ?d"
    using assms length_filter_drop [of "is_live t" ?g] length_filter_drop [of "front_door_live t" ?d]
    by (auto simp: has_dead_grant_def)
  then show ?thesis by (auto simp: live_count_def grant_count_def retain_live_grants_def
      intro: add_less_le_mono add_le_less_mono)
qed

lemma live_count_le: "live_count t f \<le> grant_count f"
  by (simp add: live_count_def grant_count_def retain_live_grants_def add_mono)

lemma live_count_mono: "s \<le> t \<Longrightarrow> live_count t f \<le> live_count s f"
  using live_count_le [of t "retain_live_grants s f"] by (simp add: live_count_def retain_retain)

lemma live_count_drops:
  assumes "s \<le> t" "t \<le> u" "has_dead_grant t (retain_live_grants s f)"
  shows "live_count u (retain_live_grants s f) < live_count s f"
  using retain_drops [OF assms(3)] live_count_mono [OF assms(2), of "retain_live_grants s f"]
  by (simp add: live_count_def)

lemma readings_ascendD:
  assumes "readings_ascend env"
  shows "sv_clock_start (env n) \<le> sv_clock_written (env n)"
    "sv_clock_written (env n) \<le> sv_clock_published (env n)"
    "sv_clock_published (env n) \<le> sv_clock_start (env (Suc n))"
  using assms by (auto simp: readings_ascend_def)

lemma readings_from: "readings_ascend env \<Longrightarrow> n \<le> m \<Longrightarrow> sv_clock_start (env n) \<le> sv_clock_start (env m)"
proof (induction m)
  case (Suc m)
  then show ?case using readings_ascendD [of env m] by (cases "n = Suc m") force+
qed simp

lemma saved_ok_weaken:
  assumes "saved_ok env m (retain_live_grants s c) d' r" "s \<le> sv_clock_start (env m)"
    "\<And>g. g \<in> set d' \<Longrightarrow> g \<in> set d \<or> same_registry c g"
  shows "saved_ok env m c d r"
proof -
  have wider: "g \<in> set d \<or> same_registry c g" if "g \<in> set d' \<or> same_registry (retain_live_grants s c) g" for g
    using that assms(3) same_registry_trans [OF same_registry_retain [of c s], of g] by blast
  show ?thesis using assms(1) wider unfolding saved_ok_def Let_def retain_retain [OF assms(2)] by blast
qed

lemma persist_loop_saves:
  assumes env: "readings_ascend env"
  shows "\<exists>m. n \<le> m \<and> m \<le> n + live_count (sv_clock_start (env n)) c \<and> saved_ok env m c d (persist_loop env n c d)"
proof (induction "live_count (sv_clock_start (env n)) c" arbitrary: n c d rule: less_induct)
  case less
  let ?a = "env n" let ?c = "retain_live_grants (sv_clock_start ?a) c"
  note clock = readings_ascendD [OF env, of n]
  have again: ?case if r: "persist_loop env n c d = persist_loop env (Suc n) ?c d'"
    and d': "\<And>g. g \<in> set d' \<Longrightarrow> g \<in> set d \<or> same_registry c g"
    and dead: "has_dead_grant t ?c" "sv_clock_start ?a \<le> t" "t \<le> sv_clock_start (env (Suc n))" for d' t
  proof -
    have drop: "live_count (sv_clock_start (env (Suc n))) ?c < live_count (sv_clock_start ?a) c"
      using live_count_drops dead by blast
    then obtain m where m: "Suc n \<le> m" "m \<le> Suc n + live_count (sv_clock_start (env (Suc n))) ?c"
      "saved_ok env m ?c d' (persist_loop env (Suc n) ?c d')" using less by blast
    have "saved_ok env m c d (persist_loop env n c d)" unfolding r
      using m(1) readings_from [OF env, of n m] d' by (intro saved_ok_weaken [OF m(3)]) auto
    then show ?case using m drop by (intro exI [of _ m]) auto
  qed
  have stop: "\<exists>m. n \<le> m \<and> m \<le> n + live_count (sv_clock_start ?a) c
      \<and> saved_ok env m c d (persist_loop env n c d)"
    if "saved_ok env n c d (persist_loop env n c d)" using that by (intro exI [of _ n]) simp
  show ?case
  proof (cases "sv_write ?a = None \<and> has_dead_grant (sv_clock_written ?a) ?c")
    case True
    then show ?thesis using clock by (intro again [of d "sv_clock_written ?a"])
        (auto simp: persist_loop.simps [of env n] Let_def)
  next
    case False
    show ?thesis
    proof (cases "sv_write ?a = None \<and> sv_rename ?a = None \<and> sv_fsync ?a = None
        \<and> has_dead_grant (sv_clock_published ?a) ?c")
      case True
      then show ?thesis using False clock by (intro again [of "[?c]" "sv_clock_published ?a"])
          (auto simp: persist_loop.simps [of env n] Let_def)
    next
      case False': False
      show ?thesis using False False' by (intro stop)
          (auto simp: persist_loop.simps [of env n] saved_ok_def Let_def split: option.splits)
    qed
  qed
qed

lemma framed_retain:
  assumes "framed (retain_live_grants s c) d0 res" "set d0 \<subseteq> insert (retain_live_grants s c) (set d)"
  shows "framed c d res"
  using assms same_registry_trans [OF same_registry_retain [of c s]] same_registry_retain [of c s]
  unfolding framed_def by blast

lemma framed_stop [simp]: "framed c d (Inl e, d)" "framed c d (Inl e, retain_live_grants s c # d)"
    "framed c d (Inr (retain_live_grants s c), [retain_live_grants s c])"
  by (auto simp: framed_def)

lemma persist_loop_framed:
  assumes "persist_loop env n c d = Some res" shows "framed c d res"
proof (rule persist_loop.raw_induct [where P = "\<lambda>env n c d res. framed c d res", OF _ assms])
  fix loop :: "(nat \<Rightarrow> save_attempt) \<Rightarrow> nat \<Rightarrow> pairing_file \<Rightarrow> disk
      \<Rightarrow> ((pairing_error + pairing_file) \<times> disk) option"
  fix env :: "nat \<Rightarrow> save_attempt" and n c d res
  assume IH: "\<And>env n c d res. loop env n c d = Some res \<Longrightarrow> framed c d res"
  let ?c = "retain_live_grants (sv_clock_start (env n)) c"
  have "framed c d res" if "loop env (Suc n) ?c d0 = Some res" "set d0 \<subseteq> insert ?c (set d)" for d0
    using framed_retain [OF IH [OF that(1)] that(2)] .
  note again = this [of d, OF _ subset_insertI] this [of "[?c]"]
  assume "(let a = env n; candidate = retain_live_grants (sv_clock_start a) c in
      case sv_write a of Some e \<Rightarrow> Some (Inl (Io e), d)
      | None \<Rightarrow>
          if has_dead_grant (sv_clock_written a) candidate then loop env (Suc n) candidate d
          else (case sv_rename a of Some e \<Rightarrow> Some (Inl (Io e), d)
                | None \<Rightarrow>
                    (case sv_fsync a of Some e \<Rightarrow> Some (Inl (Io e), candidate # d)
                     | None \<Rightarrow>
                         if has_dead_grant (sv_clock_published a) candidate
                         then loop env (Suc n) candidate [candidate]
                         else Some (Inr candidate, [candidate])))) = Some res"
  then show "framed c d res"
    by (auto simp: Let_def split: option.splits if_splits intro: again)
qed

lemma persist_frame:
  assumes "persist env f d = Some (r, f', d')"
  shows "same_registry f f'" "g \<in> set d' \<Longrightarrow> g \<in> set d \<or> same_registry f g"
    "r = Inr () \<Longrightarrow> d' = [f']" "r \<noteq> Inr () \<Longrightarrow> f' = f"
proof -
  let ?c = "f \<lparr> pf_version := PAIRING_FILE_VERSION \<rparr>"
  obtain r0 d0 where res: "persist_loop env 0 ?c d = Some (r0, d0)"
    using assms by (auto simp: persist_def split: option.splits)
  note fr = persist_loop_framed [OF res, unfolded framed_def fst_conv snd_conv]
  have up: "same_registry ?c h \<Longrightarrow> same_registry f h" for h
    by (rule same_registry_trans [OF same_registry_version])
  have eq: "d' = d0" "r0 = Inl e \<Longrightarrow> r = Inl e \<and> f' = f" "r0 = Inr h \<Longrightarrow> r = Inr () \<and> f' = h" for e h
    using assms res by (auto simp: persist_def split: sum.splits)
  show "g \<in> set d' \<Longrightarrow> g \<in> set d \<or> same_registry f g" using fr up eq(1) by blast
  show "same_registry f f'" by (cases r0) (use fr up eq in auto)
  show "r = Inr () \<Longrightarrow> d' = [f']" "r \<noteq> Inr () \<Longrightarrow> f' = f" by (cases r0; use fr eq in auto)+
qed

lemma prune_cases:
  assumes "prune_expired_locked env now f d = Some (r, f', d')"
  shows "(f' = f \<and> d' = d) \<or> (\<exists>r'. persist env f d = Some (r', f', d'))"
proof (cases "persist env f d")
  case None
  then show ?thesis using assms by (simp add: prune_expired_locked_def Let_def split: if_splits)
next
  case (Some p)
  obtain q g e where p: "p = (q, g, e)" by (cases p)
  show ?thesis using assms Some p
    by (cases q) (simp_all add: prune_expired_locked_def Let_def split: if_splits)
qed

lemma prune_frame:
  assumes "prune_expired_locked env now f d = Some (r, f', d')"
  shows "same_registry f f'" "g \<in> set d' \<Longrightarrow> g \<in> set d \<or> same_registry f g"
  using prune_cases [OF assms] persist_frame(1,2) [of env f d _ f' d'] by (blast intro: same_registry_refl)+

text \<open>
  (C39) Saving the pairing file returns. Provided the clock does not go back during the save,
  the loop stops after at most one pass more than there are grants, whatever the disk does; a
  save that succeeds leaves exactly the grants that were still live, in memory and as the one
  version a restart can find, none of them dead at the last reading of the clock, and a save
  that fails leaves the state in memory as it was.
\<close>

theorem persist_returns:
  assumes "readings_ascend env"
  shows "\<exists>m \<le> grant_count f.
    (let c = retain_live_grants (sv_clock_start (env m)) (f \<lparr> pf_version := PAIRING_FILE_VERSION \<rparr>) in
     persist env f d = Some (Inr (), c, [c]) \<and> \<not> has_dead_grant (sv_clock_published (env m)) c)
    \<or> (\<exists>e d'. persist env f d = Some (Inl (Io e), f, d'))"
proof -
  let ?c = "f \<lparr> pf_version := PAIRING_FILE_VERSION \<rparr>"
  obtain m where m: "m \<le> 0 + live_count (sv_clock_start (env 0)) ?c"
    "saved_ok env m ?c d (persist_loop env 0 ?c d)"
    using persist_loop_saves [OF assms, of 0 ?c d] by blast
  have "m \<le> grant_count f" using m(1) live_count_le [of "sv_clock_start (env 0)" ?c]
    by (simp add: grant_count_def)
  then show ?thesis using m(2) by (intro exI [of _ m]) (auto simp: saved_ok_def persist_def Let_def)
qed

theorem persist_returns_witness:
  "let f = pairing_file_new \<lparr> pf_front_door_grants := [sample_door 950, sample_door 1001, sample_door 2000] \<rparr> in
   \<exists>m \<le> grant_count f.
    (let c = retain_live_grants (sv_clock_start (sample_env m)) (f \<lparr> pf_version := PAIRING_FILE_VERSION \<rparr>) in
     persist sample_env f [f] = Some (Inr (), c, [c]) \<and> \<not> has_dead_grant (sv_clock_published (sample_env m)) c)
    \<or> (\<exists>e d'. persist sample_env f [f] = Some (Inl (Io e), f, d'))"
proof -
  have "readings_ascend sample_env" by (simp add: readings_ascend_def sample_env_def)
  from persist_returns [OF this] show ?thesis unfolding Let_def .
qed

text \<open>
  The cap on the lifetime of a grant does not hold for every file: with a negative grant time
  the difference wraps, and the grant is live until the end of time.
\<close>

lemma wrapped_grant_never_expires:
  "now < i64_max \<Longrightarrow>
   front_door_live now ((sample_door i64_max) \<lparr> fd_granted_at := - 1 \<rparr>)"
  by (simp add: front_door_live_def sample_door_def i64_wrap_def i64_max_def MAX_SPEND_GRANT_TTL_SECS_def)

end
