(* ===== verification/Auth_Token.thy ===== *)
theory Auth_Token
  imports Pairing_Types
begin

text \<open>
  The compact HS256 tokens of \<open>konsensus-api/src/auth.rs\<close>: minting, the checks of
  \<open>validate_token\<close> in their order, and the pairing binding a token claims. A token this node
  minted is read back as the claims it was minted with, and an accepted token carries the
  code of the secret over its own header and claims.
\<close>

section \<open>Tokens\<close>

datatype token_error =
    MalformedToken | InvalidHeader | UnsupportedAlgorithm | InvalidTokenSignature
  | InvalidClaims | TokenExpired

fun token_error_text :: "token_error \<Rightarrow> string" where
  "token_error_text MalformedToken = ''malformed token''"
| "token_error_text InvalidHeader = ''invalid token header''"
| "token_error_text UnsupportedAlgorithm = ''unsupported token algorithm (only HS256 is accepted)''"
| "token_error_text InvalidTokenSignature = ''invalid token signature''"
| "token_error_text InvalidClaims = ''invalid token claims''"
| "token_error_text TokenExpired = ''token expired''"

definition MIN_JWT_SECRET_BYTES :: nat where "MIN_JWT_SECRET_BYTES = 32"

datatype secret_error = EmptySecret | ShortSecret nat

definition validate_jwt_secret :: "string \<Rightarrow> secret_error + unit" where
  "validate_jwt_secret secret =
     (if length secret = 0 then Inl EmptySecret
      else if length secret < MIN_JWT_SECRET_BYTES then Inl (ShortSecret (length secret))
      else Inr ())"

definition JWT_HEADER_JSON :: bytes where
  "JWT_HEADER_JSON =
     ascii_bytes (CHR 0x7B # CHR 0x22 # ''alg'' @ CHR 0x22 # CHR 0x3A # CHR 0x22 # ''HS256''
       @ CHR 0x22 # CHR 0x2C # CHR 0x22 # ''typ'' @ CHR 0x22 # CHR 0x3A # CHR 0x22 # ''JWT''
       @ [CHR 0x22, CHR 0x7D])"

definition mac_input :: "string \<Rightarrow> string \<Rightarrow> bytes" where
  "mac_input header_b64 payload_b64 =
     ascii_bytes header_b64 @ ascii_bytes ''.'' @ ascii_bytes payload_b64"

definition hs256_signature :: "pairing_ops \<Rightarrow> string \<Rightarrow> string \<Rightarrow> string \<Rightarrow> string" where
  "hs256_signature x header_b64 payload_b64 secret =
     b64url_encode x (hmac_sha256 x (ascii_bytes secret) (mac_input header_b64 payload_b64))"

definition sign_claims :: "pairing_ops \<Rightarrow> claims \<Rightarrow> string \<Rightarrow> token_error + string" where
  "sign_claims x c secret =
     (let header_b64 = b64url_encode x JWT_HEADER_JSON in
      case claims_to_json x c of
        None \<Rightarrow> Inl InvalidClaims
      | Some payload_json \<Rightarrow>
          let payload_b64 = b64url_encode x payload_json in
          Inr (header_b64 @ ''.'' @ payload_b64 @ ''.'' @ hs256_signature x header_b64 payload_b64 secret))"

definition TOKEN_VALIDITY_SECS :: int where "TOKEN_VALIDITY_SECS = 86400"
definition PAIRED_TOKEN_VALIDITY_SECS :: int where "PAIRED_TOKEN_VALIDITY_SECS = 600"

definition create_token ::
  "pairing_ops \<Rightarrow> int \<Rightarrow> string \<Rightarrow> string \<Rightarrow> scope list \<Rightarrow> token_error + string" where
  "create_token x now node_id_hex secret scopes =
     sign_claims x
       \<lparr> cl_sub = node_id_hex, cl_iat = now, cl_exp = now + TOKEN_VALIDITY_SECS, cl_scp = scopes,
         cl_cid = None, cl_epc = None, cl_idf = None, cl_bst = None \<rparr> secret"

definition create_paired_token ::
  "pairing_ops \<Rightarrow> int \<Rightarrow> string \<Rightarrow> string \<Rightarrow> scope list \<Rightarrow> string \<Rightarrow> u64 \<Rightarrow> string
   \<Rightarrow> token_error + string" where
  "create_paired_token x now subject secret scopes client_id epoch identity_fingerprint =
     sign_claims x
       \<lparr> cl_sub = subject, cl_iat = now, cl_exp = now + PAIRED_TOKEN_VALIDITY_SECS, cl_scp = scopes,
         cl_cid = Some client_id, cl_epc = Some epoch, cl_idf = Some identity_fingerprint,
         cl_bst = None \<rparr> secret"

definition create_bootstrap_token ::
  "pairing_ops \<Rightarrow> int \<Rightarrow> string \<Rightarrow> scope list \<Rightarrow> string \<Rightarrow> u64 \<Rightarrow> token_error + string" where
  "create_bootstrap_token x now secret scopes client_id epoch =
     sign_claims x
       \<lparr> cl_sub = ''bootstrap'', cl_iat = now, cl_exp = now + PAIRED_TOKEN_VALIDITY_SECS,
         cl_scp = scopes, cl_cid = Some client_id, cl_epc = Some epoch, cl_idf = Some [],
         cl_bst = Some True \<rparr> secret"

fun split_on :: "char \<Rightarrow> string \<Rightarrow> string list" where
  "split_on sep [] = [[]]"
| "split_on sep (c # cs) =
     (if c = sep then [] # split_on sep cs
      else case split_on sep cs of
             [] \<Rightarrow> [[c]]
           | w # ws \<Rightarrow> (c # w) # ws)"

definition validate_token :: "pairing_ops \<Rightarrow> int \<Rightarrow> string \<Rightarrow> string \<Rightarrow> token_error + claims" where
  "validate_token x now token secret =
     (case split_on (CHR ''.'') token of
        [header_b64, payload_b64, sig_b64] \<Rightarrow>
          if header_b64 = [] \<or> payload_b64 = [] \<or> sig_b64 = [] then Inl MalformedToken
          else (case b64url_decode x sig_b64 of
            None \<Rightarrow> Inl MalformedToken
          | Some sig \<Rightarrow>
              if hmac_sha256 x (ascii_bytes secret) (mac_input header_b64 payload_b64) \<noteq> sig
              then Inl InvalidTokenSignature
              else (case b64url_decode x header_b64 of
                None \<Rightarrow> Inl InvalidHeader
              | Some header_bytes \<Rightarrow>
                  (case header_from_json x header_bytes of
                    None \<Rightarrow> Inl InvalidHeader
                  | Some (alg, crit) \<Rightarrow>
                      if alg \<noteq> Some ''HS256'' then Inl UnsupportedAlgorithm
                      else if crit then Inl InvalidHeader
                      else (case b64url_decode x payload_b64 of
                        None \<Rightarrow> Inl InvalidClaims
                      | Some claims_bytes \<Rightarrow>
                          (case claims_from_json x claims_bytes of
                            None \<Rightarrow> Inl InvalidClaims
                          | Some c \<Rightarrow> if cl_exp c \<le> now then Inl TokenExpired else Inr c)))))
      | _ \<Rightarrow> Inl MalformedToken)"

fun binding_from_claims :: "claims \<Rightarrow> token_error + pairing_binding option" where
  "binding_from_claims c =
     (case (cl_cid c, cl_epc c, cl_idf c) of
        (None, None, None) \<Rightarrow> Inr None
      | (Some cid, Some epoch, Some idf) \<Rightarrow>
          if cid \<noteq> [] \<and> idf \<noteq> []
          then Inr (Some \<lparr> pb_client_id = cid, pb_epoch = epoch, pb_fingerprint = idf \<rparr>)
          else Inl InvalidClaims
      | _ \<Rightarrow> Inl InvalidClaims)"

section \<open>Samples\<close>

definition nibble_char :: "u8 \<Rightarrow> char" where "nibble_char w = char_of (97 + unat w)"
definition char_nibble :: "char \<Rightarrow> u8" where "char_nibble c = of_nat (of_char c - 97)"

fun sample_b64_encode :: "bytes \<Rightarrow> string" where
  "sample_b64_encode [] = []"
| "sample_b64_encode (b # bs) = nibble_char (b div 16) # nibble_char (b mod 16) # sample_b64_encode bs"

fun sample_b64_decode :: "string \<Rightarrow> bytes option" where
  "sample_b64_decode [] = Some []"
| "sample_b64_decode [_] = None"
| "sample_b64_decode (h # l # cs) = map_option ((#) (16 * char_nibble h + char_nibble l)) (sample_b64_decode cs)"

definition sample_claims :: claims where
  "sample_claims =
     \<lparr> cl_sub = ''node'', cl_iat = 1000, cl_exp = 1600, cl_scp = [Read, Receive],
       cl_cid = Some ''phone'', cl_epc = Some 1, cl_idf = Some ''id'', cl_bst = None \<rparr>"

definition sample_pairing_ops :: pairing_ops where
  "sample_pairing_ops =
     \<lparr> blake3 = pad_to 32, sha256 = pad_to 32,
       hex_encode = map byte_char, hex_decode = (\<lambda>s. Inr (map char_byte s)),
       uuid_parse = (\<lambda>s. Inr (pad_to 16 (map char_byte s))), uuid_to_string = map byte_char,
       json_strings = (\<lambda>ss. Inr (concat ss)), vk_from_bytes = Inr,
       verify_strict = (\<lambda>key msg sg. if sg = pad_to 64 msg then Inr () else Inl ''signature error''),
       ed25519_sign = (\<lambda>key msg. pad_to 64 msg),
       blake3_keyed = (\<lambda>key msg. pad_to 32 msg), sig_from_slice = Inr,
       p256_verify = (\<lambda>key msg sg. sg = pad_to 64 msg),
       b64url_encode = sample_b64_encode, b64url_decode = sample_b64_decode,
       hmac_sha256 = (\<lambda>key msg. pad_to 32 (key @ msg)), budget_json = (\<lambda>_. []),
       claims_to_json = (\<lambda>_. Some [1]), claims_from_json = (\<lambda>_. Some sample_claims),
       header_from_json = (\<lambda>b. if b = JWT_HEADER_JSON then Some (Some ''HS256'', False) else None),
       bip39_word = show_nat \<rparr>"

section \<open>Facts\<close>

lemma split_on_Nil [simp]: "split_on sep s \<noteq> []"
  by (induction s) (auto split: list.splits)

lemma split_on_word: "sep \<notin> set w \<Longrightarrow> split_on sep w = [w]"
  by (induction w) auto

lemma split_on_append: "sep \<notin> set w \<Longrightarrow> split_on sep (w @ sep # s) = w # split_on sep s"
  by (induction w) auto

lemma split_on_inverse: "split_on sep s = w # ws \<Longrightarrow> s = w @ concat (map ((#) sep) ws)"
proof (induction s arbitrary: w ws)
  case (Cons c cs)
  obtain v vs where v: "split_on sep cs = v # vs" using split_on_Nil [of sep cs] by (cases "split_on sep cs") auto
  from Cons.IH [OF v] have "cs = v @ concat (map ((#) sep) vs)" .
  with Cons.prems v show ?case by (cases "c = sep") auto
qed auto

lemma validate_token_Inr:
  assumes "validate_token x now token secret = Inr c"
  obtains h p s where "token = h @ ''.'' @ p @ ''.'' @ s"
    "b64url_decode x s = Some (hmac_sha256 x (ascii_bytes secret) (mac_input h p))"
    "Option.bind (b64url_decode x p) (claims_from_json x) = Some c" "now < cl_exp c"
proof -
  from assms obtain h p s where split: "split_on (CHR ''.'') token = [h, p, s]"
    by (auto simp: validate_token_def split: list.splits)
  then have token: "token = h @ ''.'' @ p @ ''.'' @ s" using split_on_inverse by fastforce
  with assms split show thesis
    by (intro that [OF token])
      (auto simp: validate_token_def split: option.splits if_splits prod.splits)
qed

lemma split_token:
  assumes "CHR ''.'' \<notin> set h" "CHR ''.'' \<notin> set p" "CHR ''.'' \<notin> set s"
  shows "split_on (CHR ''.'') (h @ ''.'' @ p @ ''.'' @ s) = [h, p, s]"
  using assms by (simp add: split_on_append split_on_word)

lemma sample_b64 [simp]: "sample_b64_decode (sample_b64_encode b) = Some b"
proof (induction b)
  case (Cons w b)
  have "w div 16 * 16 + w mod 16 = w" by (simp add: word_mod_div_equality)
  moreover have "unat (w div 16) < 16" "unat (w mod 16) < 16"
    using unat_lt_pow [of w] by (simp_all add: unat_div unat_mod)
  ultimately show ?case using Cons
    by (simp add: char_nibble_def nibble_char_def of_char_of mult.commute)
qed simp

lemma sample_b64_dot [simp]: "CHR ''.'' \<notin> set (sample_b64_encode b)"
proof (induction b)
  case (Cons w b)
  have "unat (w div 16) < 16" "unat (w mod 16) < 16"
    using unat_lt_pow [of w] by (simp_all add: unat_div unat_mod)
  then have "CHR ''.'' \<noteq> nibble_char (w div 16)" "CHR ''.'' \<noteq> nibble_char (w mod 16)"
    by (auto simp: nibble_char_def dest!: arg_cong [where f = "of_char :: char \<Rightarrow> nat"])
  with Cons show ?case by simp
qed simp

text \<open>
  (C40) A token this node mints is accepted by the same secret until it expires, and read back
  as exactly the claims it was minted with: given that base64url and the JSON encoding of the
  claims are inverted by their decoders, that base64url never writes a dot and never writes
  the empty text for a non-empty input, that the fixed header parses as HS256 without
  \<open>crit\<close>, and that the code is never empty. From its expiry on it is refused as expired.
\<close>

theorem token_roundtrip:
  assumes b64: "\<And>b. b64url_decode x (b64url_encode x b) = Some b" "\<And>b. CHR ''.'' \<notin> set (b64url_encode x b)"
      "\<And>b. b64url_encode x b = [] \<Longrightarrow> b = []"
    and json: "claims_to_json x c = Some j" "claims_from_json x j = Some c" "j \<noteq> []"
    and header: "header_from_json x JWT_HEADER_JSON = Some (Some ''HS256'', False)"
    and mac: "\<And>k m. hmac_sha256 x k m \<noteq> []"
    and token: "sign_claims x c secret = Inr token"
  shows "validate_token x now token secret = (if cl_exp c \<le> now then Inl TokenExpired else Inr c)"
proof -
  let ?h = "b64url_encode x JWT_HEADER_JSON" let ?p = "b64url_encode x j"
  let ?s = "hs256_signature x ?h ?p secret"
  have "token = ?h @ ''.'' @ ?p @ ''.'' @ ?s"
    using token json by (simp add: sign_claims_def Let_def)
  then have "split_on (CHR ''.'') token = [?h, ?p, ?s]"
    using b64(2) split_token [of ?h ?p ?s] by (simp add: hs256_signature_def)
  moreover have "?h \<noteq> []" "?p \<noteq> []" "?s \<noteq> []"
    using b64(3) json(3) mac by (auto simp: hs256_signature_def JWT_HEADER_JSON_def ascii_bytes_def)
  ultimately show ?thesis
    using b64(1) json(2) header by (simp add: validate_token_def hs256_signature_def)
qed

theorem token_roundtrip_witness:
  "validate_token sample_pairing_ops 1200 (projr (sign_claims sample_pairing_ops sample_claims ''secret'')) ''secret''
     = Inr sample_claims"
proof -
  let ?x = sample_pairing_ops
  have "sample_b64_encode b = [] \<Longrightarrow> b = []" for b by (cases b) auto
  moreover have "sign_claims ?x sample_claims ''secret'' = Inr (projr (sign_claims ?x sample_claims ''secret''))"
    by (simp add: sign_claims_def Let_def sample_pairing_ops_def)
  ultimately show ?thesis
    using token_roundtrip [of ?x sample_claims "[1]" "''secret''" _ 1200]
    by (simp add: sample_pairing_ops_def pad_to_def) (simp add: sample_claims_def)
qed

lemma sample_b64_Nil [simp]: "sample_b64_encode b = [] \<longleftrightarrow> b = []"
  by (cases b) auto

lemma sample_token:
  "sign_claims sample_pairing_ops c secret = Inr (sample_b64_encode JWT_HEADER_JSON @ ''.'' @ sample_b64_encode [1] @ ''.''
     @ sample_b64_encode (pad_to 32 (ascii_bytes secret
         @ mac_input (sample_b64_encode JWT_HEADER_JSON) (sample_b64_encode [1]))))"
  by (simp add: sign_claims_def Let_def sample_pairing_ops_def hs256_signature_def)

lemma sample_token_valid:
  "validate_token sample_pairing_ops 1000 (projr (sign_claims sample_pairing_ops c secret)) secret = Inr sample_claims"
proof -
  have "JWT_HEADER_JSON \<noteq> []" "pad_to 32 b \<noteq> []" for b
    by (auto simp: JWT_HEADER_JSON_def ascii_bytes_def pad_to_def)
  then show ?thesis unfolding sample_token sum.sel validate_token_def
    by (subst split_token) (simp_all add: sample_pairing_ops_def sample_claims_def del: sample_b64_encode.simps)
qed

end
