(* ===== verification/Pairing.thy ===== *)
theory Pairing
  imports Pairing_Store Auth_Token
begin

text \<open>
  The pairing service of \<open>konsensus-api/src/pairing.rs\<close> with the enrollment of second devices
  (\<open>pairing/second_device.rs\<close>) and the revocation of device keys (\<open>pairing/console.rs\<close>): the
  ceremony, token challenges, the check of a token's binding on every request, and every
  operation that changes the paired clients or their epochs. An operation takes the readings
  of the two clocks and the environments of the two saves it may make (the cleanup on taking
  the lock, and its own), and returns its result and the state, or \<open>None\<close> when a save does not
  return. Random bytes are arguments. The challenge files, the console and the audit sink are
  not part of the state.
\<close>

section \<open>State\<close>

record pending_pairing =
  pp_client_pubkey :: string
  pp_name :: string
  pp_challenge :: bytes
  pp_expires_at :: nat

record owner_confirmation =
  oc_phrase :: bytes
  oc_code :: "bytes option"
  oc_expires_at :: int
  oc_failures :: u8
  oc_approval_file :: bool

record provisional =
  pv_ticket_id :: string
  pv_ticket_commitment :: bytes
  pv_issuer :: string
  pv_deadline :: nat
  pv_expires_at :: int
  pv_failures :: u8

record used_ticket =
  ut_client_id :: string
  ut_epoch :: u64
  ut_public_key :: string
  ut_transport :: bytes
  ut_deadline :: nat
  ut_contested :: bool
  ut_contested_op :: "string option"

record contested_alert =
  al_client_id :: string
  al_name :: string
  al_event :: string

record second_state =
  s2_provisional :: "(string, provisional) btmap"
  s2_used :: "(string, used_ticket) btmap"
  s2_mismatches :: "nat list"
  s2_bad_signatures :: "(string, nat list) btmap"
  s2_alerts :: "contested_alert list"

record inner =
  in_file :: pairing_file
  in_pending :: "(string, pending_pairing) btmap"
  in_token_challenges :: "(string, string \<times> nat) btmap"
  in_local_challenge_proofs :: "(string \<times> int \<times> bytes) list"
  in_window_until :: "nat option"
  in_pairing_closed :: bool
  in_identity_fingerprint :: string
  in_owner_confirmations :: "(string, owner_confirmation) btmap"
  in_owner_code_failures :: u32
  in_sas_failures :: u8
  in_second_device :: second_state
  in_cancelled_ops :: "(string, string) btmap"

record node =
  nd_inner :: inner
  nd_disk :: disk

record world =
  w_unix :: int
  w_instant :: nat
  w_lock :: "nat \<Rightarrow> save_attempt"
  w_save :: "nat \<Rightarrow> save_attempt"

abbreviation nd_file :: "node \<Rightarrow> pairing_file" where
  "nd_file nd \<equiv> in_file (nd_inner nd)"

definition set_file :: "pairing_file \<Rightarrow> node \<Rightarrow> node" where
  "set_file f nd = nd \<lparr> nd_inner := (nd_inner nd) \<lparr> in_file := f \<rparr> \<rparr>"

definition set_inner :: "inner \<Rightarrow> node \<Rightarrow> node" where
  "set_inner i nd = nd \<lparr> nd_inner := i \<rparr>"

definition PENDING_PAIRING_TTL :: nat where "PENDING_PAIRING_TTL = 120"
definition MAX_PENDING_PAIRINGS :: nat where "MAX_PENDING_PAIRINGS = 32"
definition TOKEN_CHALLENGE_TTL :: nat where "TOKEN_CHALLENGE_TTL = 120"
definition MAX_LIVE_TOKEN_CHALLENGES :: nat where "MAX_LIVE_TOKEN_CHALLENGES = 128"
definition MAX_LIVE_TOKEN_CHALLENGES_PER_CLIENT :: nat where "MAX_LIVE_TOKEN_CHALLENGES_PER_CLIENT = 8"
definition MAX_LOCAL_CHALLENGE_PROOFS :: nat where "MAX_LOCAL_CHALLENGE_PROOFS = 4096"
definition MAX_LOCAL_CHALLENGE_PROOFS_PER_CLIENT :: nat where "MAX_LOCAL_CHALLENGE_PROOFS_PER_CLIENT = 128"
definition LOCAL_CHALLENGE_PROOF_WINDOW_SECS :: int where "LOCAL_CHALLENGE_PROOF_WINDOW_SECS = 30"
definition PAIRING_INACTIVITY_SECS :: int where "PAIRING_INACTIVITY_SECS = 180 * 24 * 3600"
definition PROVISIONAL_SECS :: nat where "PROVISIONAL_SECS = 900"

section \<open>The lock and the save\<close>

definition prune_owner_confirmations :: "int \<Rightarrow> inner \<Rightarrow> inner" where
  "prune_owner_confirmations now i =
     i \<lparr> in_owner_confirmations :=
           bt_retain (\<lambda>op_id c. oc_expires_at c > now
               \<and> (\<not> oc_approval_file c
                   \<or> list_ex (\<lambda>op. pe_op_id op = op_id) (pf_pending_elevations (in_file i))
                   \<or> list_ex (\<lambda>op. pd_op_id op = op_id) (pf_pending_device_keys (in_file i))))
             (in_owner_confirmations i) \<rparr>"

definition lock_node :: "world \<Rightarrow> node \<Rightarrow> node option" where
  "lock_node w nd =
     (let i = prune_owner_confirmations (w_unix w) (nd_inner nd) in
      case prune_expired_locked (w_lock w) (w_unix w) (in_file i) (nd_disk nd) of
        None \<Rightarrow> None
      | Some (_, f, d) \<Rightarrow> Some \<lparr> nd_inner = i \<lparr> in_file := f \<rparr>, nd_disk = d \<rparr>)"

definition save_node :: "world \<Rightarrow> node \<Rightarrow> ((pairing_error + unit) \<times> node) option" where
  "save_node w nd =
     (case persist (w_save w) (nd_file nd) (nd_disk nd) of
        None \<Rightarrow> None
      | Some (r, f, d) \<Rightarrow> Some (r, (set_file f nd) \<lparr> nd_disk := d \<rparr>))"

text \<open>
  The two ways an operation ends: \<open>persist\<close> with \<open>?\<close>, which keeps the change in memory when
  the save fails, and \<open>persist\<close> with the saved state put back.
\<close>

definition finish :: "world \<Rightarrow> node \<Rightarrow> 'a \<Rightarrow> ((pairing_error + 'a) \<times> node) option" where
  "finish w nd v =
     (case save_node w nd of
        None \<Rightarrow> None
      | Some (Inl e, nd') \<Rightarrow> Some (Inl e, nd')
      | Some (Inr _, nd') \<Rightarrow> Some (Inr v, nd'))"

definition commit :: "world \<Rightarrow> inner \<Rightarrow> node \<Rightarrow> 'a \<Rightarrow> ((pairing_error + 'a) \<times> node) option" where
  "commit w before nd v =
     (case save_node w nd of
        None \<Rightarrow> None
      | Some (Inl e, nd') \<Rightarrow> Some (Inl e, set_inner before nd')
      | Some (Inr _, nd') \<Rightarrow> Some (Inr v, nd'))"

section \<open>Names, keys and signatures\<close>

fun utf8_chars :: "string \<Rightarrow> string list" where
  "utf8_chars [] = []"
| "utf8_chars (c # cs) =
     (case utf8_chars cs of
        [] \<Rightarrow> [[c]]
      | ch # chs \<Rightarrow>
          if ch \<noteq> [] \<and> 128 \<le> (of_char (hd ch) :: nat) \<and> (of_char (hd ch) :: nat) < 192
          then (c # ch) # chs else [c] # ch # chs)"

definition char_is_control :: "string \<Rightarrow> bool" where
  "char_is_control ch =
     (case map of_char ch :: nat list of
        [b] \<Rightarrow> b < 32 \<or> b = 127
      | [a, b] \<Rightarrow> a = 194 \<and> 128 \<le> b \<and> b < 160
      | _ \<Rightarrow> False)"

definition sanitize_name :: "string \<Rightarrow> string" where
  "sanitize_name name =
     (let cleaned = trim (concat (take 64 (filter (\<lambda>c. \<not> char_is_control c) (utf8_chars name))))
      in if cleaned = [] then ''unnamed client'' else cleaned)"

definition parse_pubkey :: "pairing_ops \<Rightarrow> string \<Rightarrow> pairing_error + bytes" where
  "parse_pubkey x hex_key =
     (case hex_decode x hex_key of
        Inl e \<Rightarrow> Inl (Malformed (''client key is not hex: '' @ e))
      | Inr raw \<Rightarrow>
          if length raw \<noteq> 32 then Inl (Malformed ''client key must be 32 bytes'')
          else (case vk_from_bytes x raw of
                  Inl e \<Rightarrow> Inl (Malformed (''invalid client key: '' @ e))
                | Inr k \<Rightarrow> Inr k))"

definition parse_signature :: "pairing_ops \<Rightarrow> string \<Rightarrow> pairing_error + bytes" where
  "parse_signature x signature_hex =
     (case hex_decode x signature_hex of
        Inl e \<Rightarrow> Inl (Malformed (''invalid signature hex: '' @ e))
      | Inr raw \<Rightarrow>
          (case sig_from_slice x raw of
             Inl e \<Rightarrow> Inl (Malformed (''invalid signature: '' @ e))
           | Inr sig \<Rightarrow> Inr sig))"

definition check_signed :: "pairing_ops \<Rightarrow> string \<Rightarrow> bytes \<Rightarrow> bytes \<Rightarrow> pairing_error + unit" where
  "check_signed x pubkey_hex msg sig =
     (case parse_pubkey x pubkey_hex of
        Inl e \<Rightarrow> Inl e
      | Inr key \<Rightarrow> (case verify_strict x key msg sig of Inl _ \<Rightarrow> Inl BadProof | Inr _ \<Rightarrow> Inr ()))"

definition proof_message :: "string \<Rightarrow> string \<Rightarrow> bytes \<Rightarrow> bytes" where
  "proof_message pair_id client_pubkey_hex challenge =
     ascii_bytes pair_id @ ascii_bytes client_pubkey_hex @ challenge"

definition find_client :: "string \<Rightarrow> pairing_file \<Rightarrow> paired_client option" where
  "find_client cid f = find (\<lambda>c. pc_client_id c = cid) (pf_clients f)"

section \<open>Device authority\<close>

definition OWNER_KEY_UNAVAILABLE :: string where
  "OWNER_KEY_UNAVAILABLE = ''owner_key_unavailable''"

definition device_authority :: "pairing_cfg \<Rightarrow> pairing_error + bytes" where
  "device_authority cfg =
     (case device_authority_off cfg of
        Some why \<Rightarrow> Inl (DeviceApprovalsDisabled why)
      | None \<Rightarrow>
          (case owner_approval_key cfg of
             None \<Rightarrow> Inl (DeviceApprovalsDisabled OWNER_KEY_UNAVAILABLE)
           | Some k \<Rightarrow> Inr k))"

definition intent_key ::
  "pairing_ops \<Rightarrow> pairing_cfg \<Rightarrow> inner \<Rightarrow> string \<Rightarrow> u64 \<Rightarrow> string \<Rightarrow> pairing_error + device_key" where
  "intent_key x cfg i client_id epoch key_id =
     (case find_client client_id (in_file i) of
        None \<Rightarrow> Inl UnknownClient
      | Some client \<Rightarrow>
          if pc_epoch client \<noteq> epoch then Inl (PairingInvalid ''stale token epoch'')
          else (case find (\<lambda>k. dk_key_id k = key_id \<and> dk_client_id k = client_id \<and> dk_epoch k = epoch)
                       (pf_device_keys (in_file i)) of
            None \<Rightarrow> Inl (NotGrantable ''unknown or revoked device key'')
          | Some key \<Rightarrow>
              (case device_authority cfg of
                 Inl e \<Rightarrow> Inl e
               | Inr owner \<Rightarrow>
                   if dk_client_pubkey key \<noteq> pc_client_pubkey client
                      \<or> isl (verify_owner_approval x owner
                               (owner_approval_message (in_identity_fingerprint i) (dk_client_pubkey key)
                                  (dk_epoch key) (dk_public_key key)) (dk_owner_approval key))
                   then Inl (NotGrantable ''device key has no valid owner approval'')
                   else Inr key)))"

definition provenance_parent :: "string \<Rightarrow> string option" where
  "provenance_parent v =
     (case strip_prefix ''second_device:'' v of
        Some p \<Rightarrow> Some p
      | None \<Rightarrow> strip_prefix ''device:'' v)"

definition console_owner_count ::
  "pairing_ops \<Rightarrow> pairing_cfg \<Rightarrow> inner \<Rightarrow> string list \<Rightarrow> string list \<Rightarrow> nat" where
  "console_owner_count x cfg i removed clients =
     length (remdups (map dk_key_id
       (filter (\<lambda>k. dk_key_id k \<notin> set removed \<and> dk_client_id k \<notin> set clients
            \<and> (case parse_public_key x (dk_public_key k) of
                 Inl _ \<Rightarrow> False | Inr raw \<Rightarrow> key_id_for x raw = dk_key_id k)
            \<and> \<not> isl (intent_key x cfg i (dk_client_id k) (dk_epoch k) (dk_key_id k)))
          (pf_device_keys (in_file i)))))"

definition second_device_enrollment_enabled :: "pairing_cfg \<Rightarrow> bool" where
  "second_device_enrollment_enabled cfg = (second_device_enrollment cfg \<and> local_owner_device cfg)"

definition second_device_available :: "pairing_cfg \<Rightarrow> pairing_error + unit" where
  "second_device_available cfg =
     (if \<not> second_device_enrollment_enabled cfg \<or> owner_signing_key cfg = None
      then Inl OwnerChannelUnavailable else Inr ())"

definition guard_device_removal ::
  "pairing_ops \<Rightarrow> pairing_cfg \<Rightarrow> inner \<Rightarrow> (device_key \<Rightarrow> bool) \<Rightarrow> pairing_error + unit" where
  "guard_device_removal x cfg i affected =
     (let keys = pf_device_keys (in_file i);
          removed = map dk_key_id (filter affected keys) in
      if removed = [] then Inr ()
      else
        let has_approvals = list_ex (\<lambda>k. case provenance_parent (dk_enrolled_by k) of
                              None \<Rightarrow> False | Some parent \<Rightarrow> parent \<in> set removed) keys;
            owners_before = console_owner_count x cfg i [] [];
            loses_last_owner = (owners_before > 0 \<and> console_owner_count x cfg i removed [] = 0);
            unverifiable_owner = ((owner_approval_key cfg = None \<or> device_authority_off cfg \<noteq> None)
              \<and> list_ex (\<lambda>k. dk_key_id k \<in> set removed \<and> dk_owner_approval k \<noteq> []) keys)
        in if second_device_enrollment_enabled cfg \<or> has_approvals \<or> loses_last_owner \<or> unverifiable_owner
           then Inl (NotGrantable (''revocation requires owner review; use device revoke on the owner ''
                       @ ''console (preview and confirmation required)''))
           else Inr ())"

definition provisional_locked ::
  "pairing_cfg \<Rightarrow> world \<Rightarrow> inner \<Rightarrow> string \<Rightarrow> pairing_error + provisional" where
  "provisional_locked cfg w i client =
     (case second_device_available cfg of
        Inl e \<Rightarrow> Inl e
      | Inr _ \<Rightarrow>
          (case bt_get (s2_provisional (in_second_device i)) client of
             None \<Rightarrow> Inl (PairingInvalid ''provisional pairing required'')
           | Some p \<Rightarrow>
               if pv_deadline p \<le> w_instant w \<or> pv_expires_at p \<le> w_unix w then Inl Expired
               else if \<not> list_ex (\<lambda>c. pc_client_id c = client \<and> pc_scopes c = []) (pf_clients (in_file i))
               then Inl (PairingInvalid ''provisional pairing required'')
               else Inr p))"

section \<open>The ceremony\<close>

definition open_inner :: "nat \<Rightarrow> inner \<Rightarrow> bool" where
  "open_inner now i =
     (if in_pairing_closed i then False
      else if pf_clients (in_file i) = [] then True
      else (case in_window_until i of None \<Rightarrow> False | Some until \<Rightarrow> until > now))"

definition open_pairing_window :: "world \<Rightarrow> nat \<Rightarrow> node \<Rightarrow> (int \<times> node) option" where
  "open_pairing_window w secs nd =
     map_option (\<lambda>nd. (w_unix w + int secs,
                    set_inner ((nd_inner nd) \<lparr> in_window_until := Some (w_instant w + secs) \<rparr>) nd))
       (lock_node w nd)"

record pairing_request_outcome =
  po_pair_id :: string
  po_expires_at :: int
  po_short_code :: string

definition short_code_alphabet :: string where
  "short_code_alphabet = ''23456789ABCDEFGHJKLMNPQRSTUVWXYZ''"

definition short_code :: "pairing_ops \<Rightarrow> bytes \<Rightarrow> string" where
  "short_code x challenge =
     (let digest = blake3_keyed x (blake3 x (ascii_bytes ''bitsov-pair-shortcode-v1'')) challenge;
          cs = map (\<lambda>b. short_code_alphabet ! (unat b mod length short_code_alphabet)) (take 8 digest)
      in take 4 cs @ (if length cs > 4 then ''-'' else []) @ drop 4 cs)"

definition request_pairing ::
  "pairing_ops \<Rightarrow> world \<Rightarrow> string \<Rightarrow> string \<Rightarrow> bytes \<Rightarrow> bytes \<Rightarrow> string option \<Rightarrow> node
   \<Rightarrow> ((pairing_error + pairing_request_outcome) \<times> node) option" where
  "request_pairing x w name client_pubkey_hex challenge pair_id_bytes challenge_write nd =
     (case parse_pubkey x client_pubkey_hex of
        Inl e \<Rightarrow> Some (Inl e, nd)
      | Inr _ \<Rightarrow>
          Option.bind (lock_node w nd) (\<lambda>nd.
            let i = nd_inner nd; pair_id = hex_encode x pair_id_bytes in
            if \<not> open_inner (w_instant w) i then Some (Inl Closed, nd)
            else
              let pending = bt_retain (\<lambda>_ p. \<not> pp_expires_at p \<le> w_instant w) (in_pending i) in
              if length pending \<ge> MAX_PENDING_PAIRINGS
              then Some (Inl TooManyPending, set_inner (i \<lparr> in_pending := pending \<rparr>) nd)
              else
                let record = \<lparr> pp_client_pubkey = ascii_lowercase client_pubkey_hex,
                               pp_name = sanitize_name name, pp_challenge = challenge,
                               pp_expires_at = w_instant w + PENDING_PAIRING_TTL \<rparr>;
                    nd = set_inner (i \<lparr> in_pending := bt_insert pair_id record pending \<rparr>) nd
                in case challenge_write of
                     Some e \<Rightarrow> Some (Inl (Io e), nd)
                   | None \<Rightarrow> Some (Inr \<lparr> po_pair_id = pair_id,
                                        po_expires_at = w_unix w + int PENDING_PAIRING_TTL,
                                        po_short_code = short_code x challenge \<rparr>, nd)))"

text \<open>
  A confirmation takes the pending record under the lock, verifies the proof outside it, and
  takes the lock again to insert the client.
\<close>

definition confirm_take ::
  "world \<Rightarrow> string \<Rightarrow> node \<Rightarrow> ((pairing_error + pending_pairing) \<times> node) option" where
  "confirm_take w pair_id nd =
     Option.bind (lock_node w nd) (\<lambda>nd.
       let i = nd_inner nd in
       case bt_get (in_pending i) pair_id of
         None \<Rightarrow> Some (Inl UnknownPending, nd)
       | Some pending \<Rightarrow>
           let nd = set_inner (i \<lparr> in_pending := bt_remove pair_id (in_pending i) \<rparr>) nd in
           if pp_expires_at pending \<le> w_instant w then Some (Inl UnknownPending, nd)
           else Some (Inr pending, nd))"

definition epoch_floor :: "string \<Rightarrow> pairing_file \<Rightarrow> u64" where
  "epoch_floor cid f =
     max (bt_get_or 0 (pf_last_epoch f) cid) (case find_client cid f of None \<Rightarrow> 0 | Some c \<Rightarrow> pc_epoch c)"

definition replace_client :: "paired_client \<Rightarrow> pairing_file \<Rightarrow> pairing_file" where
  "replace_client r f =
     f \<lparr> pf_last_epoch := bt_insert (pc_client_id r) (pc_epoch r) (pf_last_epoch f),
         pf_clients := filter (\<lambda>c. pc_client_id c \<noteq> pc_client_id r) (pf_clients f) @ [r] \<rparr>"

definition confirm_insert ::
  "pairing_ops \<Rightarrow> pairing_cfg \<Rightarrow> world \<Rightarrow> pending_pairing \<Rightarrow> scope list \<Rightarrow> node
   \<Rightarrow> ((pairing_error + paired_client) \<times> node) option" where
  "confirm_insert x cfg w pending scopes nd =
     Option.bind (lock_node w nd) (\<lambda>nd.
       let i = nd_inner nd; f = in_file i; client_id = client_id_from_pubkey x (pp_client_pubkey pending) in
       if Identity \<in> set scopes \<and> in_identity_fingerprint i \<noteq> [] then Some (Inl Closed, nd)
       else case guard_device_removal x cfg i (\<lambda>k. dk_client_id k = client_id) of
         Inl e \<Rightarrow> Some (Inl e, nd)
       | Inr _ \<Rightarrow>
           let entry = epoch_floor client_id f in
           case checked_add entry 1 of
             None \<Rightarrow> Some (Inl Closed,
                       set_file (f \<lparr> pf_last_epoch := bt_insert client_id entry (pf_last_epoch f) \<rparr>) nd)
           | Some epoch \<Rightarrow>
               let record = \<lparr> pc_client_id = client_id, pc_name = pp_name pending,
                              pc_client_pubkey = pp_client_pubkey pending,
                              pc_remote_transport_pubkey = None, pc_scopes = scopes, pc_epoch = epoch,
                              pc_identity_fingerprint = in_identity_fingerprint i,
                              pc_created_at = w_unix w, pc_last_seen = None \<rparr>
               in finish w (set_file (replace_client record f) nd) record)"

definition confirm_pairing ::
  "pairing_ops \<Rightarrow> pairing_cfg \<Rightarrow> world \<Rightarrow> world \<Rightarrow> string \<Rightarrow> string \<Rightarrow> scope list \<Rightarrow> node
   \<Rightarrow> ((pairing_error + paired_client) \<times> node) option" where
  "confirm_pairing x cfg w w' pair_id signature_hex scopes nd =
     (case parse_signature x signature_hex of
        Inl e \<Rightarrow> Some (Inl e, nd)
      | Inr sig \<Rightarrow>
          Option.bind (confirm_take w pair_id nd) (\<lambda>(r, nd).
            case r of
              Inl e \<Rightarrow> Some (Inl e, nd)
            | Inr pending \<Rightarrow>
                (case check_signed x (pp_client_pubkey pending)
                        (proof_message pair_id (pp_client_pubkey pending) (pp_challenge pending)) sig of
                   Inl e \<Rightarrow> Some (Inl e, nd)
                 | Inr _ \<Rightarrow> confirm_insert x cfg w' pending scopes nd)))"

definition client_record ::
  "string \<Rightarrow> string \<Rightarrow> string \<Rightarrow> string \<Rightarrow> scope list \<Rightarrow> u64 \<Rightarrow> string \<Rightarrow> int \<Rightarrow> paired_client" where
  "client_record client_id name pubkey remote scopes epoch fingerprint now =
     \<lparr> pc_client_id = client_id, pc_name = sanitize_name name, pc_client_pubkey = pubkey,
       pc_remote_transport_pubkey = Some remote, pc_scopes = scopes, pc_epoch = epoch,
       pc_identity_fingerprint = fingerprint, pc_created_at = now, pc_last_seen = None \<rparr>"

text \<open>
  A new record under the next epoch of its client, as the ticket, remote and second-device
  paths allocate it.
\<close>

definition push_client :: "paired_client \<Rightarrow> pairing_file \<Rightarrow> pairing_file" where
  "push_client c f =
     f \<lparr> pf_last_epoch := bt_insert (pc_client_id c) (pc_epoch c) (pf_last_epoch f),
         pf_clients := pf_clients f @ [c] \<rparr>"

definition touch_epoch :: "string \<Rightarrow> pairing_file \<Rightarrow> pairing_file" where
  "touch_epoch cid f = f \<lparr> pf_last_epoch := bt_insert cid (bt_get_or 0 (pf_last_epoch f) cid) (pf_last_epoch f) \<rparr>"

definition create_bootstrap_ticket_pairing ::
  "pairing_ops \<Rightarrow> world \<Rightarrow> string \<Rightarrow> string \<Rightarrow> bytes \<Rightarrow> node
   \<Rightarrow> ((pairing_error + paired_client) \<times> node) option" where
  "create_bootstrap_ticket_pairing x w name client_pubkey_hex transport nd =
     (let pubkey = ascii_lowercase client_pubkey_hex in
      case parse_pubkey x pubkey of
        Inl e \<Rightarrow> Some (Inl e, nd)
      | Inr _ \<Rightarrow>
          Option.bind (lock_node w nd) (\<lambda>nd.
            let i = nd_inner nd; f = in_file i; client_id = client_id_from_pubkey x pubkey in
            if in_pairing_closed i \<or> in_identity_fingerprint i \<noteq> [] \<or> pf_clients f \<noteq> []
            then Some (Inl Closed, nd)
            else case checked_add (bt_get_or 0 (pf_last_epoch f) client_id) 1 of
              None \<Rightarrow> Some (Inl Closed, set_file (touch_epoch client_id f) nd)
            | Some epoch \<Rightarrow>
                let record = client_record client_id name pubkey (hex_encode x transport)
                               bootstrap_pairing_scopes epoch [] (w_unix w)
                in commit w i (set_file (push_client record f) nd) record))"

definition update_client :: "string \<Rightarrow> (paired_client \<Rightarrow> paired_client) \<Rightarrow> pairing_file \<Rightarrow> pairing_file" where
  "update_client cid g f =
     f \<lparr> pf_clients :=
           (case List.extract (\<lambda>c. pc_client_id c = cid) (pf_clients f) of
              None \<Rightarrow> pf_clients f
            | Some (before, c, after) \<Rightarrow> before @ g c # after) \<rparr>"

definition create_remote_pairing_locked ::
  "pairing_ops \<Rightarrow> world \<Rightarrow> string \<Rightarrow> string \<Rightarrow> bytes \<Rightarrow> bool \<Rightarrow> node
   \<Rightarrow> ((pairing_error + paired_client) \<times> node) option" where
  "create_remote_pairing_locked x w name client_pubkey_hex transport require_window nd =
     (let i = nd_inner nd; f = in_file i; pubkey = ascii_lowercase client_pubkey_hex in
      case parse_pubkey x pubkey of
        Inl e \<Rightarrow> Some (Inl e, nd)
      | Inr _ \<Rightarrow>
          let remote_hex = hex_encode x transport; client_id = client_id_from_pubkey x pubkey;
              is_open = (if require_window then open_inner (w_instant w) i else \<not> in_pairing_closed i);
              fingerprint = in_identity_fingerprint i in
          if \<not> is_open then Some (Inl Closed, nd)
          else if list_ex (\<lambda>c. pc_remote_transport_pubkey c = Some remote_hex \<and> pc_client_id c \<noteq> client_id)
                    (pf_clients f) then Some (Inl Closed, nd)
          else if fingerprint = []
          then Some (Inl (PairingInvalid ''remote access requires a live node identity''), nd)
          else case find_client client_id f of
            Some existing \<Rightarrow>
              if pc_identity_fingerprint existing \<noteq> fingerprint
              then Some (Inl (PairingInvalid ''identity fingerprint changed''), nd)
              else (case pc_remote_transport_pubkey existing of
                      Some bound \<Rightarrow> if bound = remote_hex then Some (Inr existing, nd)
                                    else Some (Inl Closed, nd)
                    | None \<Rightarrow>
                        let record = existing \<lparr> pc_remote_transport_pubkey := Some remote_hex \<rparr>
                        in commit w i (set_file (update_client client_id
                             (\<lambda>c. c \<lparr> pc_remote_transport_pubkey := Some remote_hex \<rparr>) f) nd) record)
          | None \<Rightarrow>
              (case checked_add (bt_get_or 0 (pf_last_epoch f) client_id) 1 of
                 None \<Rightarrow> Some (Inl Closed, set_file (touch_epoch client_id f) nd)
               | Some epoch \<Rightarrow>
                   let record = client_record client_id name pubkey remote_hex [Read, Receive] epoch
                                  fingerprint (w_unix w)
                   in commit w i (set_file (push_client record f) nd) record))"

definition create_remote_pairing ::
  "pairing_ops \<Rightarrow> world \<Rightarrow> string \<Rightarrow> string \<Rightarrow> bytes \<Rightarrow> bool \<Rightarrow> node
   \<Rightarrow> ((pairing_error + paired_client) \<times> node) option" where
  "create_remote_pairing x w name client_pubkey_hex transport require_window nd =
     Option.bind (lock_node w nd)
       (create_remote_pairing_locked x w name client_pubkey_hex transport require_window)"

definition provisional_ok :: "pairing_cfg \<Rightarrow> world \<Rightarrow> inner \<Rightarrow> paired_client \<Rightarrow> pairing_error + unit" where
  "provisional_ok cfg w i r =
     (if pc_scopes r = []
      then (case provisional_locked cfg w i (pc_client_id r) of Inl e \<Rightarrow> Inl e | Inr _ \<Rightarrow> Inr ())
      else Inr ())"

definition validate_remote_transport ::
  "pairing_ops \<Rightarrow> pairing_cfg \<Rightarrow> world \<Rightarrow> bytes \<Rightarrow> inner \<Rightarrow> pairing_error + paired_client" where
  "validate_remote_transport x cfg w transport i =
     (case find (\<lambda>c. pc_remote_transport_pubkey c = Some (hex_encode x transport)) (pf_clients (in_file i)) of
        None \<Rightarrow> Inl UnknownClient
      | Some record \<Rightarrow>
          (case provisional_ok cfg w i record of
             Inl e \<Rightarrow> Inl e
           | Inr _ \<Rightarrow>
               if pc_identity_fingerprint record \<noteq> in_identity_fingerprint i
               then Inl (PairingInvalid ''identity fingerprint changed'')
               else Inr record))"

definition validate_remote_authority ::
  "pairing_ops \<Rightarrow> pairing_cfg \<Rightarrow> world \<Rightarrow> string \<Rightarrow> u64 \<Rightarrow> bytes \<Rightarrow> string \<Rightarrow> inner
   \<Rightarrow> pairing_error + unit" where
  "validate_remote_authority x cfg w client_id epoch transport identity_fingerprint i =
     (case find_client client_id (in_file i) of
        None \<Rightarrow> Inl UnknownClient
      | Some record \<Rightarrow>
          (case provisional_ok cfg w i record of
             Inl e \<Rightarrow> Inl e
           | Inr _ \<Rightarrow>
               if pc_epoch record \<noteq> epoch
                  \<or> pc_remote_transport_pubkey record \<noteq> Some (hex_encode x transport)
                  \<or> pc_identity_fingerprint record \<noteq> identity_fingerprint
                  \<or> in_identity_fingerprint i \<noteq> identity_fingerprint
               then Inl (PairingInvalid ''remote tunnel authority changed'')
               else Inr ()))"

section \<open>Token challenges\<close>

definition oldest_challenge :: "string \<Rightarrow> (string, string \<times> nat) btmap \<Rightarrow> string option" where
  "oldest_challenge client_id m =
     (case filter (\<lambda>(_, owner, _). owner = client_id) m of
        [] \<Rightarrow> None
      | e # es \<Rightarrow> Some (fst (fold (\<lambda>b a. if snd (snd b) < snd (snd a) then b else a) es e)))"

definition issue_token_challenge_locked ::
  "pairing_ops \<Rightarrow> nat \<Rightarrow> bytes \<Rightarrow> string \<Rightarrow> inner \<Rightarrow> (pairing_error + string) \<times> inner" where
  "issue_token_challenge_locked x now nonce client_id i =
     (if \<not> list_ex (\<lambda>c. pc_client_id c = client_id) (pf_clients (in_file i)) then (Inl UnknownClient, i)
      else
        let live = bt_retain (\<lambda>_ (_, t). t > now) (in_token_challenges i);
            mine = length (filter (\<lambda>(_, owner, _). owner = client_id) live);
            challenge = ''bitsov-pair-token-v1:'' @ hex_encode x nonce in
        if mine < MAX_LIVE_TOKEN_CHALLENGES_PER_CLIENT \<and> length live \<ge> MAX_LIVE_TOKEN_CHALLENGES
        then (Inl TooManyPending, i \<lparr> in_token_challenges := live \<rparr>)
        else
          let kept = (if mine \<ge> MAX_LIVE_TOKEN_CHALLENGES_PER_CLIENT
                      then (case oldest_challenge client_id live of
                              None \<Rightarrow> live | Some c \<Rightarrow> bt_remove c live)
                      else live)
          in (Inr challenge, i \<lparr> in_token_challenges :=
                 bt_insert challenge (client_id, now + TOKEN_CHALLENGE_TTL) kept \<rparr>))"

definition issue_token_challenge ::
  "pairing_ops \<Rightarrow> world \<Rightarrow> bytes \<Rightarrow> string \<Rightarrow> node \<Rightarrow> ((pairing_error + string) \<times> node) option" where
  "issue_token_challenge x w nonce client_id nd =
     Option.bind (lock_node w nd) (\<lambda>nd.
       let (r, i) = issue_token_challenge_locked x (w_instant w) nonce client_id (nd_inner nd)
       in Some (r, set_inner i nd))"

definition i64_abs_diff :: "int \<Rightarrow> int \<Rightarrow> int" where "i64_abs_diff a b = \<bar>a - b\<bar>"

definition i64_sat_add :: "int \<Rightarrow> int \<Rightarrow> int" where
  "i64_sat_add a b = max i64_min (min i64_max (a + b))"

definition spend_challenge_proof ::
  "pairing_ops \<Rightarrow> world \<Rightarrow> bytes \<Rightarrow> string \<Rightarrow> int \<Rightarrow> bytes \<Rightarrow> inner \<Rightarrow> (pairing_error + string) \<times> inner" where
  "spend_challenge_proof x w nonce client_id timestamp signature i =
     (let proofs = filter (\<lambda>(_, t, _). i64_sat_add t LOCAL_CHALLENGE_PROOF_WINDOW_SECS \<ge> w_unix w)
                     (in_local_challenge_proofs i);
          proof = (client_id, timestamp, signature);
          i = i \<lparr> in_local_challenge_proofs := proofs \<rparr> in
      if proof \<in> set proofs then (Inl BadProof, i)
      else if length proofs \<ge> MAX_LOCAL_CHALLENGE_PROOFS
           \<or> length (filter (\<lambda>(c, _, _). c = client_id) proofs) \<ge> MAX_LOCAL_CHALLENGE_PROOFS_PER_CLIENT
      then (Inl TooManyPending, i)
      else (case issue_token_challenge_locked x (w_instant w) nonce client_id i of
              (Inl e, i) \<Rightarrow> (Inl e, i)
            | (Inr challenge, i) \<Rightarrow> (Inr challenge, i \<lparr> in_local_challenge_proofs := proof # proofs \<rparr>)))"

definition issue_verified_local_token_challenge ::
  "pairing_ops \<Rightarrow> world \<Rightarrow> bytes \<Rightarrow> paired_client \<Rightarrow> int \<Rightarrow> bytes \<Rightarrow> node
   \<Rightarrow> ((pairing_error + string) \<times> node) option" where
  "issue_verified_local_token_challenge x w nonce verified timestamp signature nd =
     Option.bind (lock_node w nd) (\<lambda>nd.
       let i = nd_inner nd in
       if i64_abs_diff (w_unix w) timestamp > LOCAL_CHALLENGE_PROOF_WINDOW_SECS
          \<or> in_identity_fingerprint i \<noteq> pc_identity_fingerprint verified
          \<or> \<not> list_ex (\<lambda>c. pc_client_id c = pc_client_id verified
                 \<and> pc_client_pubkey c = pc_client_pubkey verified \<and> pc_epoch c = pc_epoch verified
                 \<and> pc_identity_fingerprint c = pc_identity_fingerprint verified) (pf_clients (in_file i))
       then Some (Inl BadProof, nd)
       else let (r, i) = spend_challenge_proof x w nonce (pc_client_id verified) timestamp signature i
            in Some (r, set_inner i nd))"

definition issue_local_token_challenge ::
  "pairing_ops \<Rightarrow> world \<Rightarrow> world \<Rightarrow> bytes \<Rightarrow> string \<Rightarrow> int \<Rightarrow> string \<Rightarrow> node
   \<Rightarrow> ((pairing_error + string) \<times> node) option" where
  "issue_local_token_challenge x w w' nonce client_id timestamp signature_hex nd =
     (if i64_abs_diff (w_unix w) timestamp > LOCAL_CHALLENGE_PROOF_WINDOW_SECS then Some (Inl BadProof, nd)
      else case hex_decode x signature_hex of
        Inl _ \<Rightarrow> Some (Inl BadProof, nd)
      | Inr signature \<Rightarrow>
          if length signature \<noteq> 64 then Some (Inl BadProof, nd)
          else Option.bind (lock_node w nd) (\<lambda>nd.
            case find_client client_id (nd_file nd) of
              None \<Rightarrow> Some (Inl BadProof, nd)
            | Some client \<Rightarrow>
                (case check_signed x (pc_client_pubkey client)
                        (ascii_bytes (''bitsov-pair-challenge-v1:'' @ client_id @ '':'' @ show_int timestamp))
                        signature of
                   Inl e \<Rightarrow> Some (Inl e, nd)
                 | Inr _ \<Rightarrow>
                     issue_verified_local_token_challenge x w' nonce client timestamp signature nd)))"

section \<open>Scopes and tokens\<close>

definition grant_matches :: "inner \<Rightarrow> paired_client \<Rightarrow> int \<Rightarrow> spend_grant \<Rightarrow> bool" where
  "grant_matches i r now g =
     (sg_client_id g = pc_client_id r \<and> is_live now g \<and> sg_epoch g = pc_epoch r
      \<and> sg_identity_fingerprint g = in_identity_fingerprint i)"

definition front_door_matches :: "inner \<Rightarrow> paired_client \<Rightarrow> int \<Rightarrow> front_door_grant \<Rightarrow> bool" where
  "front_door_matches i r now g =
     (fd_client_id g = pc_client_id r \<and> front_door_live now g \<and> fd_epoch g = pc_epoch r
      \<and> fd_identity_fingerprint g = in_identity_fingerprint i)"

definition add_scope :: "pairing_ops \<Rightarrow> pairing_cfg \<Rightarrow> spend_grant \<Rightarrow> scope \<Rightarrow> scope list \<Rightarrow> scope list" where
  "add_scope x cfg grant s scopes =
     (if s \<notin> set scopes
         \<and> (owner_control_enabled cfg \<or> (s = Spend \<and> permits_spend_grant x cfg grant))
      then scopes @ [s] else scopes)"

definition effective_scopes ::
  "pairing_ops \<Rightarrow> pairing_cfg \<Rightarrow> inner \<Rightarrow> paired_client \<Rightarrow> int \<Rightarrow> scope list" where
  "effective_scopes x cfg i r now =
     (if pc_scopes r = [] then []
      else
        let base = (if \<not> owner_control_enabled cfg
                    then filter (\<lambda>s. s \<notin> set grantable_scopes) (pc_scopes r) else pc_scopes r);
            scopes = fold (\<lambda>g acc. if grant_matches i r now g
                                   then fold (add_scope x cfg g) (sg_scopes g) acc else acc)
                       (pf_grants (in_file i)) base;
            front_door = (owner_control_enabled cfg
              \<and> list_ex (front_door_matches i r now) (pf_front_door_grants (in_file i)))
        in if front_door \<and> FrontDoor \<notin> set scopes then scopes @ [FrontDoor] else scopes)"

datatype token_kind = Live string | Bootstrap

record issued_token =
  it_token :: string
  it_expires_at :: int
  it_scopes :: "scope list"

definition last_activity :: "paired_client \<Rightarrow> int" where
  "last_activity r = (case pc_last_seen r of Some t \<Rightarrow> t | None \<Rightarrow> pc_created_at r)"

definition mint_token ::
  "pairing_ops \<Rightarrow> token_kind \<Rightarrow> int \<Rightarrow> string \<Rightarrow> scope list \<Rightarrow> string \<Rightarrow> u64 \<Rightarrow> string
   \<Rightarrow> token_error + string" where
  "mint_token x kind now jwt_secret scopes client_id epoch fingerprint =
     (case kind of
        Live subject \<Rightarrow> create_paired_token x now subject jwt_secret scopes client_id epoch fingerprint
      | Bootstrap \<Rightarrow> create_bootstrap_token x now jwt_secret scopes client_id epoch)"

definition issue_token_kind ::
  "pairing_ops \<Rightarrow> pairing_cfg \<Rightarrow> world \<Rightarrow> token_kind \<Rightarrow> string \<Rightarrow> string \<Rightarrow> string \<Rightarrow> string \<Rightarrow> node
   \<Rightarrow> ((pairing_error + issued_token) \<times> node) option" where
  "issue_token_kind x cfg w kind jwt_secret client_id challenge signature_hex nd =
     (case parse_signature x signature_hex of
        Inl e \<Rightarrow> Some (Inl e, nd)
      | Inr sig \<Rightarrow>
          Option.bind (lock_node w nd) (\<lambda>nd.
            let i = nd_inner nd in
            case bt_get (in_token_challenges i) challenge of
              None \<Rightarrow> Some (Inl UnknownPending, nd)
            | Some (owner, expires) \<Rightarrow>
                let i = i \<lparr> in_token_challenges := bt_remove challenge (in_token_challenges i) \<rparr>;
                    nd = set_inner i nd; fingerprint = in_identity_fingerprint i in
                if expires \<le> w_instant w \<or> owner \<noteq> client_id then Some (Inl UnknownPending, nd)
                else case find_client client_id (in_file i) of
                  None \<Rightarrow> Some (Inl UnknownClient, nd)
                | Some r \<Rightarrow>
                    (case provisional_ok cfg w i r of
                       Inl e \<Rightarrow> Some (Inl e, nd)
                     | Inr _ \<Rightarrow>
                         if pc_identity_fingerprint r \<noteq> fingerprint
                         then Some (Inl (PairingInvalid ''pairing was created against a different identity''), nd)
                         else if w_unix w - last_activity r > PAIRING_INACTIVITY_SECS
                         then Some (Inl (PairingInvalid (''pairing has been unused past its inactivity horizon ''
                                @ map char_of [226, 128, 148 :: nat] @ '' re-pair'')), nd)
                         else case check_signed x (pc_client_pubkey r) (ascii_bytes challenge) sig of
                           Inl e \<Rightarrow> Some (Inl e, nd)
                         | Inr _ \<Rightarrow>
                             let scopes = effective_scopes x cfg i r (w_unix w) in
                             case mint_token x kind (w_unix w) jwt_secret scopes client_id (pc_epoch r) fingerprint of
                               Inl e \<Rightarrow> Some (Inl (Io (token_error_text e)), nd)
                             | Inr token \<Rightarrow>
                                 finish w (set_file (update_client client_id
                                     (\<lambda>c. c \<lparr> pc_last_seen := Some (w_unix w) \<rparr>) (in_file i)) nd)
                                   \<lparr> it_token = token, it_expires_at = w_unix w + PAIRED_TOKEN_VALIDITY_SECS,
                                     it_scopes = scopes \<rparr>)))"

text \<open>The check on every request with a paired token, with the reason of each refusal.\<close>

definition refuse :: "pairing_error \<Rightarrow> (pairing_error \<times> string) + 'a" where
  "refuse e = Inl (e, refusal_reason e)"

definition check_binding ::
  "pairing_ops \<Rightarrow> pairing_cfg \<Rightarrow> world \<Rightarrow> string \<Rightarrow> u64 \<Rightarrow> string \<Rightarrow> scope list \<Rightarrow> inner
   \<Rightarrow> (pairing_error \<times> string) + unit" where
  "check_binding x cfg w client_id epoch fingerprint scopes i =
     (if in_identity_fingerprint i \<noteq> fingerprint
      then refuse (PairingInvalid ''token was issued against a different identity'')
      else case find_client client_id (in_file i) of
        None \<Rightarrow> refuse UnknownClient
      | Some r \<Rightarrow>
          (case provisional_ok cfg w i r of
             Inl e \<Rightarrow> Inl (e, ''provisional_session'')
           | Inr _ \<Rightarrow>
               if pc_epoch r \<noteq> epoch
               then Inl (PairingInvalid (''pairing epoch has been bumped '' @ map char_of [226, 128, 148 :: nat]
                           @ '' the token is revoked''), ''wrong_epoch'')
               else if pc_identity_fingerprint r \<noteq> fingerprint
               then refuse (PairingInvalid ''pairing is bound to a different identity'')
               else case find (\<lambda>s. s \<notin> set (effective_scopes x cfg i r (w_unix w))) scopes of
                 Some extra \<Rightarrow>
                   refuse (PairingInvalid (''token claims scope `'' @ scope_as_str extra
                             @ ''` the pairing does not hold in this deployment''))
               | None \<Rightarrow> Inr ()))"

definition verify_token_binding_with_reason ::
  "pairing_ops \<Rightarrow> pairing_cfg \<Rightarrow> world \<Rightarrow> string \<Rightarrow> u64 \<Rightarrow> string \<Rightarrow> scope list \<Rightarrow> node
   \<Rightarrow> (((pairing_error \<times> string) + unit) \<times> node) option" where
  "verify_token_binding_with_reason x cfg w client_id epoch fingerprint scopes nd =
     map_option (\<lambda>nd. (check_binding x cfg w client_id epoch fingerprint scopes (nd_inner nd), nd))
       (lock_node w nd)"

definition live_spend_grant_id ::
  "pairing_ops \<Rightarrow> pairing_cfg \<Rightarrow> world \<Rightarrow> pairing_binding \<Rightarrow> inner \<Rightarrow> string option" where
  "live_spend_grant_id x cfg w b i =
     (if in_identity_fingerprint i \<noteq> pb_fingerprint b
         \<or> \<not> list_ex (\<lambda>c. pc_client_id c = pb_client_id b \<and> pc_epoch c = pb_epoch b
                \<and> pc_identity_fingerprint c = pb_fingerprint b) (pf_clients (in_file i))
      then None
      else map_option sg_op_id
             (find (\<lambda>g. permits_spend_grant x cfg g \<and> sg_client_id g = pb_client_id b
                  \<and> sg_epoch g = pb_epoch b \<and> sg_identity_fingerprint g = pb_fingerprint b
                  \<and> Spend \<in> set (sg_scopes g) \<and> is_live (w_unix w) g) (pf_grants (in_file i))))"

section \<open>Revocation, rotation and rebinding\<close>

definition bump_file :: "string \<Rightarrow> u64 \<Rightarrow> pairing_file \<Rightarrow> pairing_file" where
  "bump_file cid epoch f =
     (update_client cid (\<lambda>c. c \<lparr> pc_epoch := epoch \<rparr>) f)
       \<lparr> pf_last_epoch := bt_insert cid epoch (pf_last_epoch f) \<rparr>"

definition bump_epoch ::
  "pairing_ops \<Rightarrow> pairing_cfg \<Rightarrow> world \<Rightarrow> string \<Rightarrow> node \<Rightarrow> ((pairing_error + u64) \<times> node) option" where
  "bump_epoch x cfg w client_id nd =
     Option.bind (lock_node w nd) (\<lambda>nd.
       let i = nd_inner nd; f = in_file i in
       case guard_device_removal x cfg i (\<lambda>k. dk_client_id k = client_id) of
         Inl e \<Rightarrow> Some (Inl e, nd)
       | Inr _ \<Rightarrow>
           (case find_client client_id f of
              None \<Rightarrow> Some (Inl UnknownClient, nd)
            | Some r \<Rightarrow>
                let epoch = pc_epoch r + 1;
                    f = snd (file_revoke_grants (Some client_id) (bump_file client_id epoch f))
                in finish w (set_file f nd) epoch))"

definition raise_epoch :: "string \<Rightarrow> u64 \<Rightarrow> pairing_file \<Rightarrow> pairing_file" where
  "raise_epoch cid e f =
     f \<lparr> pf_last_epoch := bt_insert cid (max (bt_get_or 0 (pf_last_epoch f) cid) e) (pf_last_epoch f) \<rparr>"

definition drop_client :: "string \<Rightarrow> pairing_file \<Rightarrow> pairing_file" where
  "drop_client cid f = f \<lparr> pf_clients := filter (\<lambda>c. pc_client_id c \<noteq> cid) (pf_clients f) \<rparr>"

definition revoke_file :: "string \<Rightarrow> u64 \<Rightarrow> pairing_file \<Rightarrow> pairing_file" where
  "revoke_file client_id epoch f =
     (let f = snd (file_revoke_grants (Some client_id) (drop_client client_id (raise_epoch client_id epoch f)));
          keys = filter (\<lambda>k. dk_client_id k \<noteq> client_id) (pf_device_keys f)
      in f \<lparr> pf_pending_elevations := filter (\<lambda>e. pe_client_id e \<noteq> client_id) (pf_pending_elevations f),
             pf_replacement_approvals := filter (\<lambda>a. ra_client_id a \<noteq> client_id) (pf_replacement_approvals f),
             pf_device_keys := keys,
             pf_pending_device_keys := filter (\<lambda>p. pd_client_id p \<noteq> client_id) (pf_pending_device_keys f),
             pf_registered_ops := bt_retain (\<lambda>_ k. k \<in> set (map dk_key_id keys)) (pf_registered_ops f) \<rparr>)"

definition drop_provisional :: "string \<Rightarrow> inner \<Rightarrow> inner" where
  "drop_provisional client_id i =
     i \<lparr> in_second_device := (in_second_device i)
           \<lparr> s2_provisional := bt_remove client_id (s2_provisional (in_second_device i)) \<rparr> \<rparr>"

definition revoke ::
  "pairing_ops \<Rightarrow> pairing_cfg \<Rightarrow> world \<Rightarrow> string \<Rightarrow> node \<Rightarrow> ((pairing_error + unit) \<times> node) option" where
  "revoke x cfg w client_id nd =
     Option.bind (lock_node w nd) (\<lambda>nd.
       let i = nd_inner nd in
       case guard_device_removal x cfg i (\<lambda>k. dk_client_id k = client_id) of
         Inl e \<Rightarrow> Some (Inl e, nd)
       | Inr _ \<Rightarrow>
           (case find_client client_id (in_file i) of
              None \<Rightarrow> Some (Inl UnknownClient, nd)
            | Some existing \<Rightarrow>
                let i' = i \<lparr> in_file := revoke_file client_id (pc_epoch existing) (in_file i),
                             in_token_challenges :=
                               bt_retain (\<lambda>_ (owner, _). owner \<noteq> client_id) (in_token_challenges i) \<rparr>
                in map_option (\<lambda>(r, nd). case r of
                       Inl e \<Rightarrow> (Inl e, nd)
                     | Inr _ \<Rightarrow> (Inr (), set_inner (drop_provisional client_id (nd_inner nd)) nd))
                     (save_node w (set_inner i' nd))))"

definition rotate_file :: "string \<Rightarrow> u64 \<Rightarrow> paired_client \<Rightarrow> pairing_file \<Rightarrow> pairing_file" where
  "rotate_file client_id old_epoch rotated f =
     (let f = raise_epoch (pc_client_id rotated) (pc_epoch rotated) (raise_epoch client_id old_epoch f);
          f = drop_client (pc_client_id rotated) (drop_client client_id f);
          f = f \<lparr> pf_clients := pf_clients f @ [rotated],
                  pf_device_keys := filter (\<lambda>k. dk_client_id k \<noteq> client_id) (pf_device_keys f),
                  pf_pending_device_keys := filter (\<lambda>p. pd_client_id p \<noteq> client_id) (pf_pending_device_keys f) \<rparr>
      in snd (file_revoke_grants (Some client_id) f))"

definition rotate_client_key ::
  "pairing_ops \<Rightarrow> pairing_cfg \<Rightarrow> world \<Rightarrow> string \<Rightarrow> string \<Rightarrow> string \<Rightarrow> node
   \<Rightarrow> ((pairing_error + paired_client) \<times> node) option" where
  "rotate_client_key x cfg w client_id new_pubkey_hex signature_hex nd =
     (case parse_pubkey x new_pubkey_hex of
        Inl e \<Rightarrow> Some (Inl e, nd)
      | Inr _ \<Rightarrow>
          (case parse_signature x signature_hex of
             Inl e \<Rightarrow> Some (Inl e, nd)
           | Inr sig \<Rightarrow>
               Option.bind (lock_node w nd) (\<lambda>nd.
                 let i = nd_inner nd; f = in_file i in
                 case find_client client_id f of
                   None \<Rightarrow> Some (Inl UnknownClient, nd)
                 | Some old \<Rightarrow>
                     if pc_scopes old = [] then Some (Inl (PairingInvalid ''provisional''), nd)
                     else case check_signed x (pc_client_pubkey old)
                            (ascii_bytes (''bitsov-pair-rotate-v1:'' @ client_id @ '':'' @ new_pubkey_hex)) sig of
                       Inl e \<Rightarrow> Some (Inl e, nd)
                     | Inr _ \<Rightarrow>
                         let new_id = client_id_from_pubkey x (ascii_lowercase new_pubkey_hex) in
                         case guard_device_removal x cfg i
                                (\<lambda>k. dk_client_id k = client_id \<or> dk_client_id k = new_id) of
                           Inl e \<Rightarrow> Some (Inl e, nd)
                         | Inr _ \<Rightarrow>
                             (case checked_add (max (pc_epoch old) (epoch_floor new_id f)) 1 of
                               None \<Rightarrow> Some (Inl Closed, nd)
                             | Some rotated_epoch \<Rightarrow>
                                 let rotated = old \<lparr> pc_client_id := new_id,
                                       pc_client_pubkey := ascii_lowercase new_pubkey_hex,
                                       pc_remote_transport_pubkey := None, pc_epoch := rotated_epoch \<rparr>
                                 in finish w (set_file (rotate_file client_id (pc_epoch old) rotated f) nd)
                                      rotated))))"

definition rebind_to_identity ::
  "world \<Rightarrow> string \<Rightarrow> node \<Rightarrow> ((pairing_error + unit) \<times> node) option" where
  "rebind_to_identity w fingerprint nd =
     Option.bind (lock_node w nd) (\<lambda>nd.
       let i = nd_inner nd; f = in_file i;
           f = f \<lparr> pf_clients := map (\<lambda>c. c \<lparr> pc_identity_fingerprint := fingerprint,
                                           pc_scopes := default_pairing_scopes \<rparr>) (pf_clients f) \<rparr>;
           f = (snd (file_revoke_grants None f)) \<lparr> pf_pending_elevations := [],
                  pf_replacement_approvals := [], pf_device_keys := [], pf_pending_device_keys := [],
                  pf_registered_ops := [] \<rparr>;
           i = i \<lparr> in_file := f, in_identity_fingerprint := fingerprint, in_pending := [],
                  in_owner_confirmations := [] \<rparr>
       in finish w (set_inner i nd) ())"

definition revoke_grants ::
  "world \<Rightarrow> string option \<Rightarrow> node \<Rightarrow> ((pairing_error + nat) \<times> node) option" where
  "revoke_grants w client_id nd =
     Option.bind (lock_node w nd) (\<lambda>nd.
       let (removed, f) = file_revoke_grants client_id (nd_file nd) in finish w (set_file f nd) removed)"

end
