(* ===== verification/Enrollment.thy ===== *)
theory Enrollment
  imports Pairing
begin

text \<open>
  Enrollment of a second device under an owner's approval, \<open>pairing/second_device.rs\<close>, its
  short authentication string (\<open>sas.rs\<close>), and the revocation of device keys on the owner's
  console, \<open>pairing/console.rs\<close>: the walk over the keys that one key approved, the plan shown
  to the owner, and its commit.
\<close>

unbundle bit_operations_syntax

section \<open>Tickets and the authentication string\<close>

definition ticket_commitment :: "pairing_ops \<Rightarrow> string \<Rightarrow> bytes" where
  "ticket_commitment x code = blake3 x (ascii_bytes ''bitsov-second-device-ticket-v1'' @ ascii_bytes code)"

definition ticket_id :: "pairing_ops \<Rightarrow> string \<Rightarrow> string" where
  "ticket_id x code =
     hex_encode x (take 16 (blake3 x (ascii_bytes ''bitsov-ticket-id-v1'' @ ascii_bytes code)))"

definition ticket_hash :: "pairing_ops \<Rightarrow> string \<Rightarrow> string" where
  "ticket_hash x code = hex_encode x (blake3 x (ascii_bytes code))"

definition sas_transcript :: "string \<Rightarrow> noise_binding \<Rightarrow> bytes \<Rightarrow> bytes \<Rightarrow> bytes \<Rightarrow> bytes" where
  "sas_transcript domain b device nonce secret =
     ascii_bytes domain @ nb_handshake_hash b @ nb_box_public_key b @ nb_client_static b
     @ device @ nonce @ secret"

definition sas_digest :: "pairing_ops \<Rightarrow> noise_binding \<Rightarrow> bytes \<Rightarrow> bytes \<Rightarrow> bytes \<Rightarrow> bytes" where
  "sas_digest x b device nonce claim = blake3 x (sas_transcript ''bitsov-sas-v1'' b device nonce claim)"

definition sas_digest_v2 :: "pairing_ops \<Rightarrow> noise_binding \<Rightarrow> bytes \<Rightarrow> bytes \<Rightarrow> bytes \<Rightarrow> bytes" where
  "sas_digest_v2 x b device nonce ticket = blake3 x (sas_transcript ''bitsov-sas-v2'' b device nonce ticket)"

definition sas_words :: "pairing_ops \<Rightarrow> bytes \<Rightarrow> string list" where
  "sas_words x digest =
     (let bits = (from_be_bytes (take 6 digest @ [0, 0]) :: u64)
      in map (\<lambda>i. bip39_word x (unat (drop_bit (64 - 11 * (i + 1)) bits AND 2047))) [0..<4])"

definition SECOND_DEVICE_SAS_TTL_SECS :: int where "SECOND_DEVICE_SAS_TTL_SECS = 300"
definition ELEVATION_TTL_SECS :: int where "ELEVATION_TTL_SECS = 900"
definition MAX_DEVICE_KEYS_PER_CLIENT :: nat where "MAX_DEVICE_KEYS_PER_CLIENT = 4"

definition sas_ttl_secs :: "pending_device_key \<Rightarrow> int" where
  "sas_ttl_secs p = (if pd_sas_version p = Some 2 then SECOND_DEVICE_SAS_TTL_SECS else ELEVATION_TTL_SECS)"

definition require_sas_confirmed :: "nat \<Rightarrow> pending_device_key \<Rightarrow> pairing_error + unit" where
  "require_sas_confirmed now p =
     (if pd_sas_version p \<noteq> None
         \<and> \<not> (case pd_sas p of None \<Rightarrow> False
               | Some s \<Rightarrow> das_confirmed s \<and> int (now - das_created_at s) < sas_ttl_secs p)
      then Inl (NotGrantable ''SAS confirmation required; restart requires a new ceremony'')
      else Inr ())"

section \<open>Provisional pairings\<close>

definition drop_second_op :: "string \<Rightarrow> inner \<Rightarrow> inner" where
  "drop_second_op op i =
     (let f = in_file i;
          cancelled = (case find (\<lambda>p. pd_op_id p = op) (pf_pending_device_keys f) of
                         None \<Rightarrow> in_cancelled_ops i
                       | Some p \<Rightarrow> bt_insert op (pd_client_id p) (in_cancelled_ops i))
      in i \<lparr> in_cancelled_ops := cancelled,
             in_file := f \<lparr> pf_pending_device_keys :=
                              filter (\<lambda>p. pd_op_id p \<noteq> op) (pf_pending_device_keys f) \<rparr> \<rparr>)"

definition remove_provisional_locked :: "string \<Rightarrow> inner \<Rightarrow> inner" where
  "remove_provisional_locked client i =
     (let ops = map pd_op_id (filter (\<lambda>p. pd_client_id p = client) (pf_pending_device_keys (in_file i)));
          i = fold drop_second_op ops i
      in drop_provisional client (i \<lparr> in_file := drop_client client (in_file i) \<rparr>))"

definition commit_enrollment_cleanup :: "inner \<Rightarrow> inner" where
  "commit_enrollment_cleanup i =
     i \<lparr> in_owner_confirmations :=
           bt_retain (\<lambda>op _. \<not> bt_contains (in_cancelled_ops i) op) (in_owner_confirmations i),
         in_token_challenges :=
           bt_retain (\<lambda>_ (client, _). list_ex (\<lambda>c. pc_client_id c = client) (pf_clients (in_file i)))
             (in_token_challenges i) \<rparr>"

definition commit_cleanup :: "world \<Rightarrow> inner \<Rightarrow> node \<Rightarrow> 'a \<Rightarrow> ((pairing_error + 'a) \<times> node) option" where
  "commit_cleanup w before nd v =
     map_option (\<lambda>(r, nd). case r of
         Inl e \<Rightarrow> (Inl e, nd)
       | Inr v \<Rightarrow> (Inr v, set_inner (commit_enrollment_cleanup (nd_inner nd)) nd))
       (commit w before nd v)"

definition sweep_ids :: "world \<Rightarrow> inner \<Rightarrow> string list" where
  "sweep_ids w i =
     map pc_client_id
       (filter (\<lambda>c. pc_scopes c = []
            \<and> (case bt_get (s2_provisional (in_second_device i)) (pc_client_id c) of
                 None \<Rightarrow> True
               | Some p \<Rightarrow> pv_deadline p \<le> w_instant w \<or> pv_expires_at p \<le> w_unix w))
          (pf_clients (in_file i)))"

definition drop_used_tickets :: "nat \<Rightarrow> inner \<Rightarrow> inner" where
  "drop_used_tickets now i =
     i \<lparr> in_second_device := (in_second_device i)
           \<lparr> s2_used := bt_retain (\<lambda>_ t. ut_deadline t > now) (s2_used (in_second_device i)) \<rparr> \<rparr>"

definition sweep_provisional_pairings ::
  "world \<Rightarrow> node \<Rightarrow> ((pairing_error + nat) \<times> node) option" where
  "sweep_provisional_pairings w nd =
     Option.bind (lock_node w nd) (\<lambda>nd.
       let i = nd_inner nd; ids = sweep_ids w i in
       if ids = [] then Some (Inr 0, set_inner (drop_used_tickets (w_instant w) i) nd)
       else map_option (\<lambda>(r, nd). case r of
                Inl e \<Rightarrow> (Inl e, nd)
              | Inr n \<Rightarrow> (Inr n, set_inner (drop_used_tickets (w_instant w) (nd_inner nd)) nd))
              (commit_cleanup w i (set_inner (fold remove_provisional_locked ids i) nd) (length ids)))"

definition charge_second_failure ::
  "world \<Rightarrow> pending_device_key \<Rightarrow> bool \<Rightarrow> node \<Rightarrow> ((pairing_error + unit) \<times> node) option" where
  "charge_second_failure w op mismatch nd =
     (let i0 = nd_inner nd; s2 = in_second_device i0;
          i = (if mismatch
               then i0 \<lparr> in_second_device := s2 \<lparr> s2_mismatches := s2_mismatches s2 @ [w_instant w] \<rparr> \<rparr>
               else i0);
          i = drop_second_op (pd_op_id op) i;
          i = (case bt_get (s2_provisional (in_second_device i)) (pd_client_id op) of
                 None \<Rightarrow> i
               | Some p \<Rightarrow>
                   let p = p \<lparr> pv_failures := sat_add (pv_failures p) 1 \<rparr>;
                       i = i \<lparr> in_second_device := (in_second_device i)
                             \<lparr> s2_provisional := bt_insert (pd_client_id op) p
                                  (s2_provisional (in_second_device i)) \<rparr> \<rparr>
                   in if pv_failures p \<ge> 3 then remove_provisional_locked (pd_client_id op) i else i)
      in commit_cleanup w i0 (set_inner i nd) ())"

definition second_request_rate :: "nat \<Rightarrow> inner \<Rightarrow> (pairing_error + unit) \<times> inner" where
  "second_request_rate now i =
     (let s2 = in_second_device i; recent = filter (\<lambda>t. now - t < 3600) (s2_mismatches s2);
          i = i \<lparr> in_second_device := s2 \<lparr> s2_mismatches := recent \<rparr> \<rparr>
      in if length recent \<ge> 10 then (Inl TooManyPending, i) else (Inr (), i))"

definition mark_ticket :: "string \<Rightarrow> (used_ticket \<Rightarrow> used_ticket) \<Rightarrow> second_state \<Rightarrow> second_state" where
  "mark_ticket hash g s2 =
     (case bt_get (s2_used s2) hash of
        None \<Rightarrow> s2
      | Some t \<Rightarrow> s2 \<lparr> s2_used := bt_insert hash (g t) (s2_used s2) \<rparr>)"

definition push_alert :: "contested_alert \<Rightarrow> second_state \<Rightarrow> second_state" where
  "push_alert a s2 =
     (let alerts = s2_alerts s2 @ [a]
      in s2 \<lparr> s2_alerts := (if length alerts > 64 then tl alerts else alerts) \<rparr>)"

definition contested :: "pairing_error" where "contested = PairingInvalid ''contested''"

definition rescan_locked ::
  "pairing_ops \<Rightarrow> world \<Rightarrow> string \<Rightarrow> string \<Rightarrow> bytes \<Rightarrow> node \<Rightarrow> ((pairing_error + unit) \<times> node) option" where
  "rescan_locked x w code public_key transport nd =
     (let i = drop_used_tickets (w_instant w) (nd_inner nd); nd = set_inner i nd; f = in_file i;
          s2 = in_second_device i; hash = ticket_hash x code in
      case bt_get (s2_used s2) hash of
        None \<Rightarrow> Some (Inr (), nd)
      | Some used \<Rightarrow>
          if ut_public_key used = public_key \<and> ut_transport used = transport
          then Some (Inl BadProof, nd)
          else if (case bt_get (s2_provisional s2) (ut_client_id used) of
                     None \<Rightarrow> False | Some p \<Rightarrow> pv_ticket_id p = ticket_id x code)
               \<and> list_ex (\<lambda>c. pc_client_id c = ut_client_id used \<and> pc_epoch c = ut_epoch used \<and> pc_scopes c = [])
                   (pf_clients f)
          then
            let contested_op = map_option pd_op_id
                  (find (\<lambda>op. pd_client_id op = ut_client_id used \<and> pd_sas_version op = Some 2)
                     (pf_pending_device_keys f));
                i' = remove_provisional_locked (ut_client_id used) i;
                i' = i' \<lparr> in_second_device := mark_ticket hash
                       (\<lambda>t. t \<lparr> ut_contested := True, ut_contested_op := contested_op \<rparr>) (in_second_device i') \<rparr>
            in map_option (\<lambda>(r, nd). case r of Inl e \<Rightarrow> (Inl e, nd) | Inr _ \<Rightarrow> (Inl contested, nd))
                 (commit_cleanup w i (set_inner i' nd) ())
          else if \<not> ut_contested used
          then (case find (\<lambda>k. dk_client_id k = ut_client_id used \<and> dk_epoch k = ut_epoch used)
                       (pf_device_keys f) of
                  None \<Rightarrow> Some (Inl contested, nd)
                | Some key \<Rightarrow>
                    let alert = \<lparr> al_client_id = ut_client_id used, al_name = dk_name key,
                                  al_event = ''pair.second_device_contested_after_enroll'' \<rparr>
                    in Some (Inl contested, set_inner (i \<lparr> in_second_device :=
                         mark_ticket hash (\<lambda>t. t \<lparr> ut_contested := True \<rparr>) (push_alert alert s2) \<rparr>) nd))
          else Some (Inl contested, nd))"

definition provisional_record :: "pairing_ops \<Rightarrow> world \<Rightarrow> string \<Rightarrow> string \<Rightarrow> provisional" where
  "provisional_record x w code issuer =
     \<lparr> pv_ticket_id = ticket_id x code, pv_ticket_commitment = ticket_commitment x code,
       pv_issuer = issuer, pv_deadline = w_instant w + PROVISIONAL_SECS,
       pv_expires_at = w_unix w + int PROVISIONAL_SECS, pv_failures = 0 \<rparr>"

definition create_second_device_locked ::
  "pairing_ops \<Rightarrow> pairing_cfg \<Rightarrow> world \<Rightarrow> world \<Rightarrow> string \<Rightarrow> string \<Rightarrow> string \<Rightarrow> bytes \<Rightarrow> string \<Rightarrow> node
   \<Rightarrow> ((pairing_error + paired_client) \<times> node) option" where
  "create_second_device_locked x cfg w w' code name public_key transport issuer nd =
     (case second_device_available cfg of
        Inl e \<Rightarrow> Some (Inl e, nd)
      | Inr _ \<Rightarrow>
          Option.bind (rescan_locked x w' code public_key transport nd) (\<lambda>(r, nd).
            let i = nd_inner nd; f = in_file i; s2 = in_second_device i;
                pubkey = ascii_lowercase public_key; remote = hex_encode x transport;
                client_id = client_id_from_pubkey x pubkey in
            case r of
              Inl e \<Rightarrow> Some (Inl e, nd)
            | Inr _ \<Rightarrow>
                if \<not> list_ex (\<lambda>k. \<not> isl (intent_key x cfg i (dk_client_id k) (dk_epoch k) (dk_key_id k)))
                      (pf_device_keys f) then Some (Inl (PairingInvalid ''no_owner_device''), nd)
                else (case parse_pubkey x pubkey of
                  Inl e \<Rightarrow> Some (Inl e, nd)
                | Inr _ \<Rightarrow>
                    if list_ex (\<lambda>c. pc_client_pubkey c = pubkey \<or> pc_remote_transport_pubkey c = Some remote)
                         (pf_clients f) then Some (Inl (PairingInvalid ''already_paired''), nd)
                    else if length (filter (\<lambda>(_, p). pv_deadline p > w_instant w \<and> pv_expires_at p > w_unix w)
                                      (s2_provisional s2)) \<ge> 2 then Some (Inl TooManyPending, nd)
                    else if in_pairing_closed i \<or> in_identity_fingerprint i = [] then Some (Inl Closed, nd)
                    else (case checked_add (bt_get_or 0 (pf_last_epoch f) client_id) 1 of
                      None \<Rightarrow> Some (Inl Closed, set_file (touch_epoch client_id f) nd)
                    | Some epoch \<Rightarrow>
                        let record = client_record client_id name pubkey remote [] epoch
                                       (in_identity_fingerprint i) (w_unix w);
                            used = \<lparr> ut_client_id = client_id, ut_epoch = epoch, ut_public_key = pubkey,
                                     ut_transport = transport, ut_deadline = w_instant w + PROVISIONAL_SECS,
                                     ut_contested = False, ut_contested_op = None \<rparr>;
                            i' = i \<lparr> in_file := push_client record f,
                                     in_second_device := s2
                                       \<lparr> s2_provisional := bt_insert client_id (provisional_record x w code issuer)
                                                            (s2_provisional s2),
                                         s2_used := bt_insert (ticket_hash x code) used (s2_used s2) \<rparr> \<rparr>
                        in commit w i (set_inner i' nd) record))))"

definition create_second_device_pairing ::
  "pairing_ops \<Rightarrow> pairing_cfg \<Rightarrow> world \<Rightarrow> world \<Rightarrow> string \<Rightarrow> string \<Rightarrow> string \<Rightarrow> bytes \<Rightarrow> string \<Rightarrow> node
   \<Rightarrow> ((pairing_error + paired_client) \<times> node) option" where
  "create_second_device_pairing x cfg w w' code name public_key transport issuer nd =
     Option.bind (lock_node w nd)
       (create_second_device_locked x cfg w w' code name public_key transport issuer)"

section \<open>The owner's decision\<close>

definition validate_second_op ::
  "pairing_ops \<Rightarrow> pairing_cfg \<Rightarrow> world \<Rightarrow> inner \<Rightarrow> pending_device_key \<Rightarrow> pairing_error + unit" where
  "validate_second_op x cfg w i op =
     (case pd_sas op of
        None \<Rightarrow> Inl UnknownOperation
      | Some sas \<Rightarrow>
          if pd_sas_version op \<noteq> Some 2 then Inl UnknownOperation
          else if pd_expires_at op \<le> w_unix w
                  \<or> int (w_instant w - das_created_at sas) \<ge> SECOND_DEVICE_SAS_TTL_SECS then Inl Expired
          else (case require_sas_confirmed (w_instant w) op of
            Inl e \<Rightarrow> Inl e
          | Inr _ \<Rightarrow>
              (case provisional_locked cfg w i (pd_client_id op) of
                Inl e \<Rightarrow> Inl e
              | Inr _ \<Rightarrow>
                  if \<not> list_ex (\<lambda>c. pc_client_id c = pd_client_id op \<and> pc_epoch c = pd_epoch op
                            \<and> pc_client_pubkey c = pd_client_pubkey op) (pf_clients (in_file i))
                  then Inl (PairingInvalid ''pairing changed'')
                  else (case parse_public_key x (pd_public_key op) of
                    Inl e \<Rightarrow> Inl e
                  | Inr raw \<Rightarrow>
                      if key_id_for x raw \<noteq> pd_key_id op
                         \<or> list_ex (\<lambda>k. dk_key_id k = pd_key_id op) (pf_device_keys (in_file i))
                         \<or> length (filter (\<lambda>k. dk_client_id k = pd_client_id op \<and> dk_epoch k = pd_epoch op)
                              (pf_device_keys (in_file i))) \<ge> MAX_DEVICE_KEYS_PER_CLIENT
                      then Inl (NotGrantable ''device key already enrolled or pairing full'')
                      else Inr ()))))"

definition second_message_locked ::
  "pairing_ops \<Rightarrow> inner \<Rightarrow> string \<Rightarrow> u64 \<Rightarrow> string \<Rightarrow> pending_device_key \<Rightarrow> bool \<Rightarrow> pairing_error + string" where
  "second_message_locked x i client epoch key op reject =
     (case bt_get (s2_provisional (in_second_device i)) (pd_client_id op) of
        None \<Rightarrow> Inl UnknownOperation
      | Some p \<Rightarrow>
          (case pd_sas op of
             None \<Rightarrow> Inl UnknownOperation
           | Some sas \<Rightarrow>
               Inr ((if reject then ''bitsov-second-device-reject-v1'' else ''bitsov-second-device-approval-v1'')
                 @ line_field ''node'' (in_identity_fingerprint i) @ line_field ''approver_client'' client
                 @ line_field ''approver_epoch'' (show_word epoch) @ line_field ''approver_key'' key
                 @ line_field ''op_id'' (pd_op_id op) @ line_field ''nonce'' (pd_delegation_nonce op)
                 @ line_field ''client_pubkey'' (pd_client_pubkey op) @ line_field ''epoch'' (show_word (pd_epoch op))
                 @ line_field ''device_key'' (pd_public_key op) @ line_field ''device_name'' (pd_name op)
                 @ line_field ''noise_handshake_hash'' (hex_encode x (nb_handshake_hash (das_binding sas)))
                 @ line_field ''noise_client_static'' (hex_encode x (nb_client_static (das_binding sas)))
                 @ line_field ''box_transport_pubkey'' (hex_encode x (nb_box_public_key (das_binding sas)))
                 @ line_field ''ticket_id'' (pv_ticket_id p) @ line_field ''issuer'' (pv_issuer p)
                 @ line_field ''sas_version'' ''2'' @ line_field ''sas_digest'' (hex_encode x (das_digest sas))
                 @ line_field ''sas_words'' (join_with '' '' (sas_words x (das_digest sas)))
                 @ line_field ''expires_at'' (show_int (pd_expires_at op)))))"

definition complete_second_locked ::
  "pairing_ops \<Rightarrow> pairing_cfg \<Rightarrow> world \<Rightarrow> pending_device_key \<Rightarrow> string \<Rightarrow> string \<Rightarrow> node
   \<Rightarrow> ((pairing_error + device_key) \<times> node) option" where
  "complete_second_locked x cfg w op owner_approval enrolled_by nd =
     (let i = nd_inner nd; f = in_file i in
      case validate_second_op x cfg w i op of
        Inl e \<Rightarrow> Some (Inl e, nd)
      | Inr _ \<Rightarrow>
          let key = \<lparr> dk_key_id = pd_key_id op, dk_client_id = pd_client_id op, dk_public_key = pd_public_key op,
                      dk_name = pd_name op, dk_registered_at = w_unix w, dk_epoch = pd_epoch op,
                      dk_client_pubkey = pd_client_pubkey op, dk_owner_approval = owner_approval,
                      dk_enrolled_by = enrolled_by \<rparr>;
              f' = (update_client (pd_client_id op) (\<lambda>c. c \<lparr> pc_scopes := [Read, Receive] \<rparr>) f)
                     \<lparr> pf_device_keys := pf_device_keys f @ [key],
                       pf_pending_device_keys := filter (\<lambda>p. pd_op_id p \<noteq> pd_op_id op) (pf_pending_device_keys f),
                       pf_registered_ops := bt_insert (pd_op_id op) (pd_key_id op) (pf_registered_ops f) \<rparr>
          in map_option (\<lambda>(r, nd). case r of
                 Inl e \<Rightarrow> (Inl e, nd)
               | Inr k \<Rightarrow>
                   let i = drop_provisional (pd_client_id op) (nd_inner nd)
                   in (Inr k, set_inner (i \<lparr> in_owner_confirmations :=
                         bt_remove (pd_op_id op) (in_owner_confirmations i) \<rparr>) nd))
               (commit w i (set_file f' nd) key))"

definition prune_bad_signatures :: "nat \<Rightarrow> (string, nat list) btmap \<Rightarrow> (string, nat list) btmap" where
  "prune_bad_signatures now m =
     filter (\<lambda>(_, v). v \<noteq> []) (map (\<lambda>(k, v). (k, filter (\<lambda>t. now - t < 3600) v)) m)"

definition decide_second_device ::
  "pairing_ops \<Rightarrow> pairing_cfg \<Rightarrow> world \<Rightarrow> string \<Rightarrow> u64 \<Rightarrow> string \<Rightarrow> string \<Rightarrow> string \<Rightarrow> bool \<Rightarrow> node
   \<Rightarrow> ((pairing_error + device_key option) \<times> node) option" where
  "decide_second_device x cfg w client epoch op_id key_id signature reject nd =
     Option.bind (lock_node w nd) (\<lambda>nd.
       let i = nd_inner nd; s2 = in_second_device i; stop = (\<lambda>e. Some (Inl e, nd)) in
       case second_device_available cfg of
         Inl e \<Rightarrow> stop e
       | Inr _ \<Rightarrow>
           if bt_contains (s2_provisional s2) client then stop BadProof
           else (case intent_key x cfg i client epoch key_id of
             Inl e \<Rightarrow> stop e
           | Inr approver \<Rightarrow>
               if list_ex (\<lambda>(_, t). ut_contested_op t = Some op_id \<and> ut_deadline t > w_instant w) (s2_used s2)
               then stop contested
               else (case find (\<lambda>p. pd_op_id p = op_id) (pf_pending_device_keys (in_file i)) of
                 None \<Rightarrow> stop UnknownOperation
               | Some op \<Rightarrow>
                   if client = pd_client_id op \<or> dk_registered_at approver \<ge> pd_created_at op then stop BadProof
                   else (case validate_second_op x cfg w i op of
                     Inl e \<Rightarrow> stop e
                   | Inr _ \<Rightarrow>
                       let bad = prune_bad_signatures (w_instant w) (s2_bad_signatures s2);
                           i = i \<lparr> in_second_device := s2 \<lparr> s2_bad_signatures := bad \<rparr> \<rparr>;
                           nd = set_inner i nd in
                       if length (bt_get_or [] bad key_id) \<ge> 10 then Some (Inl TooManyPending, nd)
                       else (case second_message_locked x i client epoch key_id op reject of
                         Inl e \<Rightarrow> Some (Inl e, nd)
                       | Inr message \<Rightarrow>
                           (case parse_public_key x (dk_public_key approver) of
                             Inl e \<Rightarrow> Some (Inl e, nd)
                           | Inr public \<Rightarrow>
                               if isl (verify_p256 x public (ascii_bytes message) signature)
                               then Some (Inl BadProof, set_inner (i \<lparr> in_second_device := (in_second_device i)
                                      \<lparr> s2_bad_signatures := bt_insert key_id (bt_get_or [] bad key_id @ [w_instant w]) bad \<rparr> \<rparr>) nd)
                               else if reject
                               then commit_cleanup w i (set_inner (remove_provisional_locked (pd_client_id op) i) nd) None
                               else (case owner_signing_key cfg of
                                 None \<Rightarrow> Some (Inl OwnerChannelUnavailable, nd)
                               | Some signer \<Rightarrow>
                                   let approval = hex_encode x (ed25519_sign x signer (ascii_bytes
                                         (owner_approval_message (in_identity_fingerprint i) (pd_client_pubkey op)
                                            (pd_epoch op) (pd_public_key op))))
                                   in map_option (\<lambda>(r, nd). (map_sum id Some r, nd))
                                        (complete_second_locked x cfg w op approval (''second_device:'' @ key_id) nd))))))))"

section \<open>Revoking device keys on the console\<close>

record revoke_options =
  ro_root :: string
  ro_cascade :: bool
  ro_with_pairing :: bool
  ro_keep :: "string list"
  ro_allow_zero_owner :: bool

record revoke_key =
  rk_key_id :: string
  rk_client_id :: string
  rk_name :: string
  rk_enrolled_by :: string

record revoke_plan =
  rp_keys :: "revoke_key list"
  rp_descendants :: "revoke_key list"
  rp_pairings :: "string list"
  rp_owner_device_count :: nat
  rp_confirmation :: string

definition revoke_key_of :: "device_key \<Rightarrow> revoke_key" where
  "revoke_key_of k =
     \<lparr> rk_key_id = dk_key_id k, rk_client_id = dk_client_id k, rk_name = dk_name k,
       rk_enrolled_by = dk_enrolled_by k \<rparr>"

definition siblings_of :: "revoke_options \<Rightarrow> device_key list \<Rightarrow> string \<Rightarrow> device_key \<Rightarrow> string list" where
  "siblings_of opt keys kid key =
     (if (ro_cascade opt \<or> (ro_with_pairing opt \<and> kid = ro_root opt)) \<and> kid \<notin> set (ro_keep opt)
      then map dk_key_id (filter (\<lambda>k. dk_client_id k = dk_client_id key) keys) else [])"

definition approved_by :: "device_key list \<Rightarrow> string \<Rightarrow> string list" where
  "approved_by keys kid =
     map dk_key_id (filter (\<lambda>k. provenance_parent (dk_enrolled_by k) = Some kid) keys)"

definition walk_next :: "revoke_options \<Rightarrow> device_key list \<Rightarrow> string \<Rightarrow> string list" where
  "walk_next opt keys kid =
     (case find (\<lambda>k. dk_key_id k = kid) keys of
        None \<Rightarrow> [] | Some key \<Rightarrow> siblings_of opt keys kid key)
     @ approved_by keys kid"

function revoke_walk ::
  "revoke_options \<Rightarrow> device_key list \<Rightarrow> string list \<Rightarrow> string list \<Rightarrow> revoke_key list \<Rightarrow> revoke_key list" where
  "revoke_walk opt keys [] visited chain = chain"
| "revoke_walk opt keys (kid # queue) visited chain =
     (if kid \<in> set visited then revoke_walk opt keys queue visited chain
      else revoke_walk opt keys (queue @ walk_next opt keys kid) (kid # visited)
             (case find (\<lambda>k. dk_key_id k = kid) keys of
                None \<Rightarrow> chain | Some key \<Rightarrow> chain @ [revoke_key_of key]))"
  by pat_completeness auto

definition add_pairing_keys ::
  "string list \<Rightarrow> device_key list \<Rightarrow> string list \<Rightarrow> revoke_key list \<Rightarrow> pairing_error + revoke_key list" where
  "add_pairing_keys keep keys pairings plan_keys =
     (let on_pairing = filter (\<lambda>k. dk_client_id k \<in> set pairings) keys in
      if list_ex (\<lambda>k. dk_key_id k \<in> set keep) on_pairing
      then Inl (NotGrantable ''a kept key shares a pairing being revoked; keep every key on that pairing'')
      else Inr (fold (\<lambda>k acc. if dk_key_id k \<in> rk_key_id ` set acc then acc else acc @ [revoke_key_of k])
                  on_pairing plan_keys))"

definition revoke_plan_for ::
  "pairing_ops \<Rightarrow> pairing_cfg \<Rightarrow> revoke_options \<Rightarrow> inner \<Rightarrow> pairing_error + revoke_plan" where
  "revoke_plan_for x cfg opt i =
     (let dkeys = pf_device_keys (in_file i);
          chain = revoke_walk opt dkeys [ro_root opt] [] [];
          descendants = filter (\<lambda>k. rk_key_id k \<noteq> ro_root opt) chain;
          keys = filter (\<lambda>k. (ro_cascade opt \<or> rk_key_id k = ro_root opt) \<and> rk_key_id k \<notin> set (ro_keep opt)) chain in
      if keys = [] then Inl UnknownOperation
      else
        let pairings = (if ro_with_pairing opt \<or> ro_cascade opt
                        then fold insort_insert (map rk_client_id keys) [] else []) in
        case add_pairing_keys (ro_keep opt) dkeys pairings keys of
          Inl e \<Rightarrow> Inl e
        | Inr keys \<Rightarrow>
            Inr \<lparr> rp_keys = keys, rp_descendants = descendants, rp_pairings = pairings,
                  rp_owner_device_count = console_owner_count x cfg i (map rk_key_id keys) pairings,
                  rp_confirmation = [] \<rparr>)"

definition end_relation_grants :: "string \<Rightarrow> pairing_file \<Rightarrow> pairing_file" where
  "end_relation_grants client_id f =
     f \<lparr> pf_grants := map (\<lambda>g. if sg_client_id g = client_id
                                \<and> (case sg_budget g of None \<Rightarrow> False | Some b \<Rightarrow> gb_recipients_only b)
                             then g \<lparr> sg_budget := None \<rparr> else g) (pf_grants f) \<rparr>"

definition retire_pairing :: "string \<Rightarrow> pairing_file \<Rightarrow> pairing_file" where
  "retire_pairing client f =
     snd (file_revoke_grants (Some client)
       (case find_client client f of None \<Rightarrow> f | Some c \<Rightarrow> raise_epoch client (pc_epoch c) f))"

definition apply_revoke_plan :: "revoke_plan \<Rightarrow> pairing_file \<Rightarrow> pairing_file" where
  "apply_revoke_plan plan f =
     (let pairings = rp_pairings plan; removed = map rk_key_id (rp_keys plan);
          f = fold retire_pairing pairings f;
          f = fold (\<lambda>k. end_relation_grants (rk_client_id k)) (rp_keys plan) f
      in f \<lparr> pf_clients := filter (\<lambda>c. pc_client_id c \<notin> set pairings) (pf_clients f),
             pf_device_keys := filter (\<lambda>k. dk_key_id k \<notin> set removed) (pf_device_keys f),
             pf_registered_ops := bt_retain (\<lambda>_ k. k \<notin> set removed) (pf_registered_ops f),
             pf_pending_device_keys := filter (\<lambda>p. pd_client_id p \<notin> set pairings) (pf_pending_device_keys f),
             pf_pending_elevations := filter (\<lambda>p. pe_client_id p \<notin> set pairings) (pf_pending_elevations f),
             pf_replacement_approvals := filter (\<lambda>p. ra_client_id p \<notin> set pairings) (pf_replacement_approvals f) \<rparr>)"

text \<open>\<open>plan_json\<close> is \<open>serde_json\<close> on the options and the plan without its confirmation.\<close>

definition console_revoke_devices ::
  "pairing_ops \<Rightarrow> (revoke_options \<times> revoke_plan \<Rightarrow> bytes) \<Rightarrow> pairing_cfg \<Rightarrow> world \<Rightarrow> revoke_options
   \<Rightarrow> string option \<Rightarrow> node \<Rightarrow> ((pairing_error + revoke_plan) \<times> node) option" where
  "console_revoke_devices x plan_json cfg w opt confirmation nd =
     (if \<not> owner_control_enabled cfg then Some (Inl OwnerChannelUnavailable, nd)
      else if ro_root opt = [] \<or> (\<not> ro_cascade opt \<and> ro_keep opt \<noteq> [])
      then Some (Inl (NotGrantable ''invalid revocation options''), nd)
      else Option.bind (lock_node w nd) (\<lambda>nd.
        let i = nd_inner nd in
        case revoke_plan_for x cfg opt i of
          Inl e \<Rightarrow> Some (Inl e, nd)
        | Inr plan \<Rightarrow>
            let plan = plan \<lparr> rp_confirmation := hex_encode x (blake3 x (plan_json (opt, plan))) \<rparr> in
            case confirmation of
              None \<Rightarrow> Some (Inr plan, nd)
            | Some typed \<Rightarrow>
                if typed \<noteq> rp_confirmation plan
                then Some (Inl (NotGrantable ''revocation changed; review a fresh preview''), nd)
                else if rp_owner_device_count plan = 0 \<and> \<not> ro_allow_zero_owner opt
                then Some (Inl (NotGrantable
                       ''zero owner devices; use --allow-zero-owner for console-only recovery''), nd)
                else map_option (\<lambda>(r, nd). case r of
                         Inl e \<Rightarrow> (Inl e, nd)
                       | Inr p \<Rightarrow>
                           let i = fold drop_provisional (rp_pairings plan) (nd_inner nd)
                           in (Inr p, set_inner (i \<lparr> in_token_challenges :=
                                 bt_retain (\<lambda>_ (client, _). client \<notin> set (rp_pairings plan))
                                   (in_token_challenges i) \<rparr>) nd))
                       (commit w i (set_file (apply_revoke_plan plan (in_file i)) nd) plan)))"

definition revoke_device_key ::
  "pairing_ops \<Rightarrow> pairing_cfg \<Rightarrow> world \<Rightarrow> string \<Rightarrow> string option \<Rightarrow> node
   \<Rightarrow> ((pairing_error + unit) \<times> node) option" where
  "revoke_device_key x cfg w key_id only_client nd =
     Option.bind (lock_node w nd) (\<lambda>nd.
       let i = nd_inner nd; f = in_file i in
       case find (\<lambda>k. dk_key_id k = key_id \<and> for_client only_client (dk_client_id k)) (pf_device_keys f) of
         None \<Rightarrow> Some (Inl UnknownOperation, nd)
       | Some key \<Rightarrow>
           (case guard_device_removal x cfg i (\<lambda>k. dk_key_id k = key_id) of
              Inl e \<Rightarrow> Some (Inl e, nd)
            | Inr _ \<Rightarrow>
                finish w (set_file (end_relation_grants (dk_client_id key)
                    (f \<lparr> pf_device_keys := filter (\<lambda>k. dk_key_id k \<noteq> key_id) (pf_device_keys f),
                         pf_registered_ops := bt_retain (\<lambda>_ k. k \<noteq> key_id) (pf_registered_ops f) \<rparr>)) nd) ()))"

section \<open>Startup\<close>

definition fund_key :: "call_spend \<Rightarrow> string" where
  "fund_key call = ct_peer (cs_terms call) @ '':'' @ ct_call_id (cs_terms call)"

definition upgrade_funding :: "pairing_file \<Rightarrow> bool \<times> pairing_file" where
  "upgrade_funding f =
     (let m = fold (\<lambda>g m. fold (\<lambda>(_, call) m. if bt_contains m (fund_key call) then m
                                     else bt_insert (fund_key call) (sg_op_id g) m)
                           (case sg_budget g of None \<Rightarrow> [] | Some b \<Rightarrow> gb_call_reservations b) m)
                (pf_grants f) (pf_call_spend_grants f)
      in (m \<noteq> pf_call_spend_grants f, f \<lparr> pf_call_spend_grants := m \<rparr>))"

definition fresh_inner :: "pairing_file \<Rightarrow> string \<Rightarrow> inner" where
  "fresh_inner f identity_fingerprint =
     \<lparr> in_file = f, in_pending = [], in_token_challenges = [], in_local_challenge_proofs = [],
       in_window_until = None, in_pairing_closed = False,
       in_identity_fingerprint = identity_fingerprint, in_owner_confirmations = [],
       in_owner_code_failures = 0, in_sas_failures = 0,
       in_second_device = \<lparr> s2_provisional = [], s2_used = [], s2_mismatches = [],
                            s2_bad_signatures = [], s2_alerts = [] \<rparr>,
       in_cancelled_ops = [] \<rparr>"

text \<open>
  Startup on the version of the file found on disk. The three worlds are those of the save of
  the upgraded funding, of the cleanup and of the sweep; removing the temporary file and
  loading the transport key are not modelled.
\<close>

definition open_service ::
  "world \<Rightarrow> world \<Rightarrow> world \<Rightarrow> string \<Rightarrow> pairing_file \<Rightarrow> disk \<Rightarrow> ((pairing_error + node) \<times> disk) option" where
  "open_service w1 w2 w3 identity_fingerprint found d =
     (if pf_version found > PAIRING_FILE_VERSION
      then Some (Inl (Io ''pairing store was written by a newer node''), d)
      else
        let (upgraded, f) = upgrade_funding found;
            nd = \<lparr> nd_inner = fresh_inner f identity_fingerprint, nd_disk = d \<rparr> in
        Option.bind (if upgraded then save_node w1 nd else Some (Inr (), nd)) (\<lambda>(r, nd).
          case r of
            Inl e \<Rightarrow> Some (Inl e, nd_disk nd)
          | Inr _ \<Rightarrow>
              Option.bind (prune_expired_locked (w_save w2) (w_unix w2) (nd_file nd) (nd_disk nd)) (\<lambda>(r, f, d).
                case r of
                  Inl e \<Rightarrow> Some (Inl e, d)
                | Inr _ \<Rightarrow>
                    map_option (\<lambda>(r, nd). (case r of Inl e \<Rightarrow> Inl e | Inr _ \<Rightarrow> Inr nd, nd_disk nd))
                      (sweep_provisional_pairings w3 ((set_file f nd) \<lparr> nd_disk := d \<rparr>)))))"

section \<open>Facts\<close>

lemma walk_next_keys: "set (walk_next opt keys kid) \<subseteq> dk_key_id ` set keys"
  by (auto simp: walk_next_def siblings_of_def approved_by_def split: option.splits)

termination revoke_walk
proof (relation "measures [\<lambda>(opt, keys, queue, visited, chain).
      card ((dk_key_id ` set keys \<union> set queue) - set visited),
    \<lambda>(opt, keys, queue, visited, chain). length queue]", goal_cases)
  case (2 opt keys kid queue visited chain)
  have "card ((dk_key_id ` set keys \<union> set queue) - set visited)
      \<le> card ((dk_key_id ` set keys \<union> set (kid # queue)) - set visited)"
    by (intro card_mono) auto
  then show ?case by auto
next
  case (3 opt keys kid queue visited chain)
  have "(dk_key_id ` set keys \<union> set (queue @ walk_next opt keys kid)) - set (kid # visited)
      \<subset> (dk_key_id ` set keys \<union> set (kid # queue)) - set visited"
    using 3 walk_next_keys [of opt keys kid] by auto
  then show ?case by (simp add: psubset_card_mono)
qed simp

end
