(* ===== verification/Pairing_Steps.thy ===== *)
theory Pairing_Steps
  imports Enrollment
begin

text \<open>
  Runs of the pairing service, across crashes and restarts: every operation that changes the
  paired clients or their epochs is a step, and the rest of the service is one step that
  leaves both alone. An epoch that a revocation, a bump, a rotation or a new pairing has
  retired is never again the epoch of a paired client, in memory or in any version of the
  file a restart may find, so no token bound to it is accepted again.
\<close>

section \<open>Runs\<close>

datatype service = Up node | Down disk

text \<open>
  Every operation not listed below (grants, elevations, device keys, the spend ledger): none
  of them writes \<open>clients\<close> or \<open>last_epoch\<close>, starts a ceremony, or adds a token challenge or a
  challenge proof.
\<close>

definition outside :: "node \<Rightarrow> node \<Rightarrow> bool" where
  "outside nd nd' \<longleftrightarrow>
     pf_clients (nd_file nd') = pf_clients (nd_file nd) \<and> pf_last_epoch (nd_file nd') = pf_last_epoch (nd_file nd)
     \<and> (\<forall>g \<in> set (nd_disk nd'). g \<in> set (nd_disk nd)
          \<or> pf_clients g = pf_clients (nd_file nd) \<and> pf_last_epoch g = pf_last_epoch (nd_file nd))
     \<and> in_pending (nd_inner nd') = in_pending (nd_inner nd)
     \<and> (\<exists>Q. in_token_challenges (nd_inner nd') = filter Q (in_token_challenges (nd_inner nd)))
     \<and> in_local_challenge_proofs (nd_inner nd') = in_local_challenge_proofs (nd_inner nd)"

text \<open>
  The settings of the deployment may differ from step to step, as they may from start to
  start. The epoch of \<open>bump_epoch\<close> is not at its last value, where the addition would wrap.
\<close>

inductive service_step :: "pairing_ops \<Rightarrow> (revoke_options \<times> revoke_plan \<Rightarrow> bytes)
    \<Rightarrow> service \<Rightarrow> service \<Rightarrow> bool" for x pj where
  request: "request_pairing x w name key ch pid cw nd = Some (r, nd') \<Longrightarrow> service_step x pj (Up nd) (Up nd')"
| confirm_take: "confirm_take w pid nd = Some (r, nd') \<Longrightarrow> service_step x pj (Up nd) (Up nd')"
| confirm_insert: "confirm_insert x cfg w pending scopes nd = Some (r', nd') \<Longrightarrow> service_step x pj (Up nd) (Up nd')"
| bootstrap: "create_bootstrap_ticket_pairing x w name key t nd = Some (r', nd') \<Longrightarrow> service_step x pj (Up nd) (Up nd')"
| remote: "create_remote_pairing x w name key t win nd = Some (r', nd') \<Longrightarrow> service_step x pj (Up nd) (Up nd')"
| second: "create_second_device_pairing x cfg w w' code name key t issuer nd = Some (r', nd')
    \<Longrightarrow> service_step x pj (Up nd) (Up nd')"
| rescan: "lock_node w nd = Some nd0 \<Longrightarrow> rescan_locked x w code key t nd0 = Some (r'', nd')
    \<Longrightarrow> service_step x pj (Up nd) (Up nd')"
| decide: "decide_second_device x cfg w c e op kid sig reject nd = Some (rd, nd') \<Longrightarrow> service_step x pj (Up nd) (Up nd')"
| charge: "lock_node w nd = Some nd0 \<Longrightarrow> charge_second_failure w op mismatch nd0 = Some (r'', nd')
    \<Longrightarrow> service_step x pj (Up nd) (Up nd')"
| sweep: "sweep_provisional_pairings w nd = Some (rn, nd') \<Longrightarrow> service_step x pj (Up nd) (Up nd')"
| challenge: "issue_local_token_challenge x w w' nonce c ts sig nd = Some (rs, nd') \<Longrightarrow> service_step x pj (Up nd) (Up nd')"
| tunnel_challenge: "issue_token_challenge x w nonce c nd = Some (rs, nd') \<Longrightarrow> service_step x pj (Up nd) (Up nd')"
| token: "issue_token_kind x cfg w kind secret c ch sig nd = Some (ri, nd') \<Longrightarrow> service_step x pj (Up nd) (Up nd')"
| bump: "bump_epoch x cfg w c nd = Some (re, nd') \<Longrightarrow> \<forall>r. find_client c (nd_file nd) = Some r \<longrightarrow> pc_epoch r \<noteq> - 1
    \<Longrightarrow> service_step x pj (Up nd) (Up nd')"
| revoke: "revoke x cfg w c nd = Some (r'', nd') \<Longrightarrow> service_step x pj (Up nd) (Up nd')"
| rotate: "rotate_client_key x cfg w c key sig nd = Some (r', nd') \<Longrightarrow> service_step x pj (Up nd) (Up nd')"
| rebind: "rebind_to_identity w fp nd = Some (r'', nd') \<Longrightarrow> service_step x pj (Up nd) (Up nd')"
| console: "console_revoke_devices x pj cfg w opt typed nd = Some (rp, nd') \<Longrightarrow> service_step x pj (Up nd) (Up nd')"
| other: "outside nd nd' \<Longrightarrow> service_step x pj (Up nd) (Up nd')"
| crash: "service_step x pj (Up nd) (Down (nd_disk nd))"
| start: "found \<in> set d \<Longrightarrow> open_service w1 w2 w3 fp found d = Some (Inr nd', d')
    \<Longrightarrow> service_step x pj (Down d) (Up nd')"
| failed_start: "found \<in> set d \<Longrightarrow> open_service w1 w2 w3 fp found d = Some (Inl err, d')
    \<Longrightarrow> service_step x pj (Down d) (Down d')"

abbreviation service_run :: "pairing_ops \<Rightarrow> (revoke_options \<times> revoke_plan \<Rightarrow> bytes)
    \<Rightarrow> service \<Rightarrow> service \<Rightarrow> bool" where
  "service_run x pj \<equiv> (service_step x pj)\<^sup>*\<^sup>*"

definition retired :: "string \<Rightarrow> u64 \<Rightarrow> pairing_file \<Rightarrow> bool" where
  "retired c e f \<longleftrightarrow>
     e \<le> bt_get_or 0 (pf_last_epoch f) c \<and> (\<forall>r. find_client c f = Some r \<longrightarrow> e < pc_epoch r)"

definition disk_retired :: "string \<Rightarrow> u64 \<Rightarrow> disk \<Rightarrow> bool" where
  "disk_retired c e d \<longleftrightarrow> (\<forall>g \<in> set d. retired c e g)"

definition nd_retired :: "string \<Rightarrow> u64 \<Rightarrow> node \<Rightarrow> bool" where
  "nd_retired c e nd \<longleftrightarrow> retired c e (nd_file nd) \<and> disk_retired c e (nd_disk nd)"

fun sv_retired :: "string \<Rightarrow> u64 \<Rightarrow> service \<Rightarrow> bool" where
  "sv_retired c e (Up nd) = nd_retired c e nd"
| "sv_retired c e (Down d) = disk_retired c e d"

definition keeps :: "(node \<Rightarrow> bool) \<Rightarrow> ('a \<times> node) option \<Rightarrow> bool" where
  "keeps P res \<longleftrightarrow> (\<forall>r nd. res = Some (r, nd) \<longrightarrow> P nd)"

text \<open>The operations after which the current epoch of a client is over, when they succeed.\<close>

definition supersedes :: "pairing_ops \<Rightarrow> pairing_cfg \<Rightarrow> string \<Rightarrow> node \<Rightarrow> node \<Rightarrow> bool" where
  "supersedes x cfg c nd nd' \<longleftrightarrow>
     (\<exists>w. revoke x cfg w c nd = Some (Inr (), nd'))
     \<or> (\<exists>w v. bump_epoch x cfg w c nd = Some (Inr v, nd'))
     \<or> (\<exists>w key sig r. rotate_client_key x cfg w c key sig nd = Some (Inr r, nd'))
     \<or> (\<exists>w p scopes r. client_id_from_pubkey x (pp_client_pubkey p) = c
          \<and> confirm_insert x cfg w p scopes nd = Some (Inr r, nd'))"

section \<open>Samples\<close>

definition sample_world :: world where
  "sample_world = \<lparr> w_unix = 1000, w_instant = 10, w_lock = sample_env, w_save = sample_env \<rparr>"

definition sample_cfg :: pairing_cfg where
  "sample_cfg =
     \<lparr> owner_control_enabled = False, local_owner_device = False, second_device_enrollment = False,
       owner_approval_key = None, owner_signing_key = None, device_authority_off = None \<rparr>"

definition sample_phone :: string where
  "sample_phone = client_id_from_pubkey sample_pairing_ops ''k''"

definition sample_client :: "u64 \<Rightarrow> paired_client" where
  "sample_client epoch =
     \<lparr> pc_client_id = sample_phone, pc_name = ''phone'', pc_client_pubkey = ''k'',
       pc_remote_transport_pubkey = None, pc_scopes = [Read], pc_epoch = epoch,
       pc_identity_fingerprint = ''id'', pc_created_at = 1000, pc_last_seen = None \<rparr>"

definition sample_pairing_node :: "paired_client list \<Rightarrow> u64 \<Rightarrow> node" where
  "sample_pairing_node clients epoch =
     (let f = pairing_file_new \<lparr> pf_clients := clients, pf_last_epoch := [(sample_phone, epoch)] \<rparr>
      in \<lparr> nd_inner = fresh_inner f ''id'', nd_disk = [f] \<rparr>)"

definition sample_repair :: pending_pairing where
  "sample_repair = \<lparr> pp_client_pubkey = ''k'', pp_name = ''phone'', pp_challenge = [], pp_expires_at = 100 \<rparr>"

section \<open>Facts\<close>

lemma retired_cong:
  "pf_clients g = pf_clients f \<Longrightarrow> pf_last_epoch g = pf_last_epoch f \<Longrightarrow> retired c e g \<longleftrightarrow> retired c e f"
  by (simp add: retired_def find_client_def)

lemma retired_same: "same_registry f g \<Longrightarrow> retired c e g \<longleftrightarrow> retired c e f"
  by (rule retired_cong) (simp_all add: same_registry_fields)

lemma nd_retired_set [simp]:
  "nd_retired c e (set_inner i nd) \<longleftrightarrow> retired c e (in_file i) \<and> disk_retired c e (nd_disk nd)"
  "nd_retired c e (set_file f nd) \<longleftrightarrow> retired c e f \<and> disk_retired c e (nd_disk nd)"
  by (simp_all add: nd_retired_def set_inner_def set_file_def)

lemma set_simps [simp]:
  "nd_inner (set_inner i nd) = i" "nd_disk (set_inner i nd) = nd_disk nd"
  "nd_file (set_file f nd) = f" "nd_disk (set_file f nd) = nd_disk nd"
  by (simp_all add: set_inner_def set_file_def)

lemma lock_frame:
  assumes "lock_node w nd = Some nd'"
  shows "same_registry (nd_file nd) (nd_file nd')"
    "g \<in> set (nd_disk nd') \<Longrightarrow> g \<in> set (nd_disk nd) \<or> same_registry (nd_file nd) g"
proof -
  have pruned: "in_file (prune_owner_confirmations t i) = in_file i" for t i
    by (simp add: prune_owner_confirmations_def)
  from assms obtain r f d where
    p: "prune_expired_locked (w_lock w) (w_unix w) (nd_file nd) (nd_disk nd) = Some (r, f, d)"
    and nd': "nd_file nd' = f" "nd_disk nd' = d"
    by (auto simp: lock_node_def Let_def pruned split: option.splits)
  show "same_registry (nd_file nd) (nd_file nd')"
    "g \<in> set (nd_disk nd') \<Longrightarrow> g \<in> set (nd_disk nd) \<or> same_registry (nd_file nd) g"
    using prune_frame [OF p] nd' by auto
qed

lemma lock_retired: "lock_node w nd = Some nd' \<Longrightarrow> nd_retired c e nd \<Longrightarrow> nd_retired c e nd'"
  using lock_frame [of w nd nd'] retired_same unfolding nd_retired_def disk_retired_def by blast

lemma save_frame:
  assumes "save_node w nd = Some (r, nd')"
  shows "same_registry (nd_file nd) (nd_file nd')"
    "g \<in> set (nd_disk nd') \<Longrightarrow> g \<in> set (nd_disk nd) \<or> same_registry (nd_file nd) g"
    "r = Inr () \<Longrightarrow> nd_disk nd' = [nd_file nd']"
proof -
  from assms obtain f d where p: "persist (w_save w) (nd_file nd) (nd_disk nd) = Some (r, f, d)"
    and nd': "nd_file nd' = f" "nd_disk nd' = d"
    by (auto simp: save_node_def set_file_def split: option.splits)
  show "same_registry (nd_file nd) (nd_file nd')"
    "g \<in> set (nd_disk nd') \<Longrightarrow> g \<in> set (nd_disk nd) \<or> same_registry (nd_file nd) g"
    "r = Inr () \<Longrightarrow> nd_disk nd' = [nd_file nd']"
    using persist_frame(1-3) [OF p] nd' by auto
qed

lemma save_retired: "save_node w nd = Some (r, nd') \<Longrightarrow> nd_retired c e nd \<Longrightarrow> nd_retired c e nd'"
  using save_frame(1,2) [of w nd r nd'] retired_same unfolding nd_retired_def disk_retired_def by blast

lemma keeps_None [simp]: "keeps P None"
  by (simp add: keeps_def)

lemma keeps_Some [simp]: "keeps P (Some (r, nd)) \<longleftrightarrow> P nd"
  by (simp add: keeps_def)

text \<open>
  The interface between the operations and an invariant of the node: the cleanup of the lock
  and a save keep it, and so does putting back a state that had it. The operations are then
  followed one construct at a time.
\<close>

locale node_invariant =
  fixes P :: "node \<Rightarrow> bool"
  assumes lock_keeps: "lock_node w nd = Some nd' \<Longrightarrow> P nd \<Longrightarrow> P nd'"
    and save_keeps: "save_node w nd = Some (r, nd') \<Longrightarrow> P nd \<Longrightarrow> P nd'"
    and restore_keeps: "save_node w nd = Some (r, nd') \<Longrightarrow> P nd \<Longrightarrow> P (set_inner before nd) \<Longrightarrow> P (set_inner before nd')"
begin

lemma keeps_lock:
  "P nd \<Longrightarrow> (\<And>nd'. P nd' \<Longrightarrow> lock_node w nd = Some nd' \<Longrightarrow> keeps P (k nd'))
   \<Longrightarrow> keeps P (Option.bind (lock_node w nd) k)"
  by (cases "lock_node w nd") (auto dest: lock_keeps)

lemma keeps_bind:
  "keeps P m \<Longrightarrow> (\<And>r nd. P nd \<Longrightarrow> keeps P (k (r, nd))) \<Longrightarrow> keeps P (Option.bind m k)"
  by (cases m) auto

lemma keeps_map:
  "keeps P m \<Longrightarrow> (\<And>r nd. P nd \<Longrightarrow> keeps P (Some (h (r, nd)))) \<Longrightarrow> keeps P (map_option h m)"
  by (cases m) auto

lemma keeps_save: "P nd \<Longrightarrow> keeps P (save_node w nd)"
  by (auto simp: keeps_def dest: save_keeps)

lemma keeps_finish: "P nd \<Longrightarrow> keeps P (finish w nd v)"
  by (auto simp: keeps_def finish_def dest: save_keeps split: option.splits sum.splits)

lemma keeps_commit: "P (set_inner before nd) \<Longrightarrow> P nd \<Longrightarrow> keeps P (commit w before nd v)"
  by (auto simp: keeps_def commit_def dest: save_keeps restore_keeps split: option.splits sum.splits)

end

interpretation ret: node_invariant "nd_retired c e" for c e
proof
  show "nd_retired c e (set_inner before nd')"
    if "save_node w nd = Some (r, nd')" "nd_retired c e nd" "nd_retired c e (set_inner before nd)" for w nd r nd' before
    using save_retired [OF that(1,2)] that(3) by (simp add: nd_retired_def)
qed (fact lock_retired save_retired)+

lemma nd_retiredD: "nd_retired c e nd \<Longrightarrow> retired c e (nd_file nd)" "nd_retired c e nd \<Longrightarrow> disk_retired c e (nd_disk nd)"
  by (simp_all add: nd_retired_def)

lemma find_append: "find P (xs @ ys) = (case find P xs of None \<Rightarrow> find P ys | Some v \<Rightarrow> Some v)"
  by (induction xs) auto

lemma find_filter_other: "(\<And>v. P v \<Longrightarrow> Q v) \<Longrightarrow> find P (filter Q xs) = find P xs"
  by (induction xs) auto

lemma find_filter_none: "(\<And>v. P v \<Longrightarrow> \<not> Q v) \<Longrightarrow> find P (filter Q xs) = None"
  by (induction xs) auto

lemma find_map_same: "(\<And>v. P (h v) = P v) \<Longrightarrow> find P (map h xs) = map_option h (find P xs)"
  by (induction xs) auto

lemma epoch_next: "checked_add a 1 = Some b \<Longrightarrow> a < (b :: u64)"
  using checked_add_unat [of a 1 b] by (simp add: word_less_nat_alt)

lemma retired_push:
  assumes "retired c e f" "checked_add (bt_get_or 0 (pf_last_epoch f) (pc_client_id r)) 1 = Some (pc_epoch r)"
  shows "retired c e (push_client r f)"
  using assms epoch_next [OF assms(2)]
  by (auto simp: retired_def push_client_def find_client_def find_append bt_get_or_insert split: option.splits)

lemma retired_touch [simp]: "retired c e (touch_epoch cid f) \<longleftrightarrow> retired c e f"
  by (auto simp: retired_def touch_epoch_def find_client_def bt_get_or_insert)

lemma retired_raise: "retired c e f \<Longrightarrow> retired c e (raise_epoch cid v f)"
  by (auto simp: retired_def raise_epoch_def find_client_def bt_get_or_insert max_def)

lemma retired_drop: "retired c e f \<Longrightarrow> retired c e (drop_client cid f)"
proof (cases "c = cid")
  case True
  assume "retired c e f"
  with True show ?thesis
    by (simp add: retired_def drop_client_def find_client_def find_filter_none)
next
  case False
  assume "retired c e f"
  with False show ?thesis
    by (auto simp: retired_def drop_client_def find_client_def find_filter_other)
qed

lemma retired_revoke_grants [simp]: "retired c e (snd (file_revoke_grants cid f)) \<longleftrightarrow> retired c e f"
  by (rule retired_cong) (simp_all add: file_revoke_grants_def)

lemma find_update_client:
  assumes "\<And>r. pc_client_id r = cid \<Longrightarrow> pc_client_id (g r) = cid"
  shows "find_client c (update_client cid g f) = (if c = cid then map_option g (find_client c f) else find_client c f)"
proof (cases "List.extract (\<lambda>c. pc_client_id c = cid) (pf_clients f)")
  case None
  then have "find_client cid f = None" by (auto simp: find_client_def extract_None_iff find_None_iff)
  with None show ?thesis by (simp add: update_client_def find_client_def)
next
  case (Some t)
  obtain a r b where t: "t = (a, r, b)" by (cases t)
  from Some t have "pf_clients f = a @ r # b" "pc_client_id r = cid" "\<forall>q \<in> set a. pc_client_id q \<noteq> cid"
    by (auto simp: extract_Some_iff)
  moreover have "find (\<lambda>q. pc_client_id q = cid) a = None" using calculation by (simp add: find_None_iff)
  ultimately show ?thesis using Some t assms
    by (auto simp: update_client_def find_client_def find_append split: option.splits)
qed

lemma retired_update:
  assumes "\<And>r. pc_client_id (g r) = pc_client_id r" "\<And>r. pc_epoch (g r) = pc_epoch r" "retired c e f"
  shows "retired c e (update_client cid g f)"
proof -
  have "find_client c (update_client cid g f) = (if c = cid then map_option g (find_client c f) else find_client c f)"
    using assms(1) by (intro find_update_client) simp
  moreover have "pf_last_epoch (update_client cid g f) = pf_last_epoch f" by (simp add: update_client_def)
  ultimately show ?thesis using assms(2,3) by (auto simp: retired_def split: if_splits)
qed

lemmas keeps_splits = option.splits sum.splits if_splits prod.splits

lemma request_keeps: "nd_retired c e nd \<Longrightarrow> keeps (nd_retired c e) (request_pairing x w name key ch pid cw nd)"
  by (auto simp: request_pairing_def Let_def nd_retiredD intro!: ret.keeps_lock split: keeps_splits)

lemma confirm_take_keeps: "nd_retired c e nd \<Longrightarrow> keeps (nd_retired c e) (confirm_take w pid nd)"
  by (auto simp: confirm_take_def Let_def nd_retiredD intro!: ret.keeps_lock split: keeps_splits)

lemma retired_replace:
  assumes "retired c e f" "checked_add (epoch_floor (pc_client_id r) f) 1 = Some (pc_epoch r)"
  shows "retired c e (replace_client r f)"
  using assms epoch_next [OF assms(2)]
  by (auto simp: retired_def replace_client_def epoch_floor_def find_client_def find_append bt_get_or_insert
      find_filter_other find_filter_none split: option.splits)

lemma retired_entry:
  "retired c e f \<Longrightarrow> retired c e (f \<lparr> pf_last_epoch := bt_insert cid (epoch_floor cid f) (pf_last_epoch f) \<rparr>)"
  using retired_raise [of c e f cid] by (simp add: raise_epoch_def epoch_floor_def)

lemma confirm_insert_keeps: "nd_retired c e nd \<Longrightarrow> keeps (nd_retired c e) (confirm_insert x cfg w pending scopes nd)"
  unfolding confirm_insert_def Let_def
  by (rule ret.keeps_lock)
    (auto simp: nd_retiredD retired_entry intro!: ret.keeps_finish retired_replace split: keeps_splits)

lemma push_client_record:
  assumes "retired c e f" "checked_add (bt_get_or 0 (pf_last_epoch f) cid) 1 = Some v"
  shows "retired c e (push_client (client_record cid name key remote scopes v fp t) f)"
  using assms by (intro retired_push) (simp_all add: client_record_def)

lemma bootstrap_keeps: "nd_retired c e nd \<Longrightarrow> keeps (nd_retired c e) (create_bootstrap_ticket_pairing x w name key t nd)"
  by (auto simp: create_bootstrap_ticket_pairing_def Let_def nd_retiredD
      intro!: ret.keeps_lock ret.keeps_commit push_client_record split: keeps_splits)

lemma remote_keeps: "nd_retired c e nd \<Longrightarrow> keeps (nd_retired c e) (create_remote_pairing x w name key t win nd)"
  unfolding create_remote_pairing_def
  by (rule ret.keeps_lock)
    (auto simp: create_remote_pairing_locked_def Let_def nd_retiredD
      intro!: ret.keeps_commit push_client_record retired_update split: keeps_splits)

lemma in_file_inner [simp]:
  "in_file (drop_used_tickets t i) = in_file i" "in_file (drop_provisional cid i) = in_file i"
  "in_file (commit_enrollment_cleanup i) = in_file i"
  by (simp_all add: drop_used_tickets_def drop_provisional_def commit_enrollment_cleanup_def)

lemma retired_fields [simp]:
  "retired c e (f \<lparr> pf_pending_device_keys := p \<rparr>) \<longleftrightarrow> retired c e f"
  "retired c e (f \<lparr> pf_device_keys := k \<rparr>) \<longleftrightarrow> retired c e f"
  "retired c e (f \<lparr> pf_registered_ops := o' \<rparr>) \<longleftrightarrow> retired c e f"
  "retired c e (f \<lparr> pf_pending_elevations := l \<rparr>) \<longleftrightarrow> retired c e f"
  "retired c e (f \<lparr> pf_replacement_approvals := a \<rparr>) \<longleftrightarrow> retired c e f"
  "retired c e (f \<lparr> pf_grants := g \<rparr>) \<longleftrightarrow> retired c e f"
  "retired c e (f \<lparr> pf_call_spend_grants := m \<rparr>) \<longleftrightarrow> retired c e f"
  by (simp_all add: retired_def find_client_def)

lemma drop_second_op_retired [simp]: "retired c e (in_file (drop_second_op op i)) \<longleftrightarrow> retired c e (in_file i)"
  by (simp add: drop_second_op_def Let_def)

lemma fold_drop_second_op: "retired c e (in_file (fold drop_second_op ops i)) \<longleftrightarrow> retired c e (in_file i)"
  by (induction ops arbitrary: i) simp_all

lemma remove_provisional_retired: "retired c e (in_file i) \<Longrightarrow> retired c e (in_file (remove_provisional_locked cid i))"
  by (simp add: remove_provisional_locked_def Let_def fold_drop_second_op retired_drop)

lemma fold_remove_provisional:
  "retired c e (in_file i) \<Longrightarrow> retired c e (in_file (fold remove_provisional_locked ids i))"
  by (induction ids arbitrary: i) (simp_all add: remove_provisional_retired)

lemma keeps_cleanup:
  "retired c e (in_file before) \<Longrightarrow> nd_retired c e nd \<Longrightarrow> keeps (nd_retired c e) (commit_cleanup w before nd v)"
  unfolding commit_cleanup_def
  by (rule ret.keeps_map [OF ret.keeps_commit]) (auto simp: nd_retiredD split: sum.splits)

lemma sweep_keeps: "nd_retired c e nd \<Longrightarrow> keeps (nd_retired c e) (sweep_provisional_pairings w nd)"
  unfolding sweep_provisional_pairings_def Let_def
  by (rule ret.keeps_lock) (auto simp: nd_retiredD fold_remove_provisional
      intro!: ret.keeps_map keeps_cleanup split: sum.splits)

lemma charge_keeps: "nd_retired c e nd \<Longrightarrow> keeps (nd_retired c e) (charge_second_failure w op m nd)"
  unfolding charge_second_failure_def Let_def
  by (rule keeps_cleanup) (auto simp: nd_retiredD intro!: remove_provisional_retired split: option.splits)

lemma rescan_keeps: "nd_retired c e nd \<Longrightarrow> keeps (nd_retired c e) (rescan_locked x w code key t nd)"
  unfolding rescan_locked_def Let_def
  by (auto simp: nd_retiredD intro!: ret.keeps_map keeps_cleanup remove_provisional_retired split: keeps_splits)

lemma second_keeps: "nd_retired c e nd \<Longrightarrow> keeps (nd_retired c e) (create_second_device_pairing x cfg w w' code name key t issuer nd)"
  unfolding create_second_device_pairing_def
proof (rule ret.keeps_lock)
  fix nd' assume "nd_retired c e nd'"
  then show "keeps (nd_retired c e) (create_second_device_locked x cfg w w' code name key t issuer nd')"
    unfolding create_second_device_locked_def Let_def
    by (auto simp: nd_retiredD intro!: ret.keeps_bind rescan_keeps ret.keeps_commit push_client_record split: keeps_splits)
qed simp

lemma complete_keeps: "nd_retired c e nd \<Longrightarrow> keeps (nd_retired c e) (complete_second_locked x cfg w op oa by_arg nd)"
proof -
  assume nd: "nd_retired c e nd"
  have "retired c e (update_client (pd_client_id op) (\<lambda>c. c \<lparr> pc_scopes := [Read, Receive] \<rparr>) (nd_file nd))"
    using nd by (intro retired_update) (simp_all add: nd_retiredD)
  then show ?thesis using nd unfolding complete_second_locked_def Let_def
    by (auto simp: nd_retiredD intro!: ret.keeps_map ret.keeps_commit split: keeps_splits)
qed

lemma challenge_file: "issue_token_challenge_locked x t nonce cid i = (r, i') \<Longrightarrow> in_file i' = in_file i"
  by (auto simp: issue_token_challenge_locked_def Let_def split: if_splits)

lemma proof_file: "spend_challenge_proof x w nonce cid ts sg i = (r, i') \<Longrightarrow> in_file i' = in_file i"
  by (auto simp: spend_challenge_proof_def Let_def dest!: challenge_file split: if_splits prod.splits sum.splits)

lemma challenge_keeps: "nd_retired c e nd \<Longrightarrow> keeps (nd_retired c e) (issue_local_token_challenge x w w' nonce cid ts sig nd)"
proof -
  have verified: "keeps (nd_retired c e) (issue_verified_local_token_challenge x w' nonce r ts sg nd)" if "nd_retired c e nd" for nd r sg
    using that unfolding issue_verified_local_token_challenge_def Let_def
    by (auto simp: nd_retiredD dest!: proof_file intro!: ret.keeps_lock split: keeps_splits)
  assume "nd_retired c e nd"
  then show ?thesis unfolding issue_local_token_challenge_def
    by (auto intro!: ret.keeps_lock verified split: keeps_splits)
qed

lemma tunnel_challenge_keeps: "nd_retired c e nd \<Longrightarrow> keeps (nd_retired c e) (issue_token_challenge x w nonce cid nd)"
  unfolding issue_token_challenge_def
  by (auto simp: nd_retiredD dest!: challenge_file intro!: ret.keeps_lock split: prod.splits)

lemma token_keeps: "nd_retired c e nd \<Longrightarrow> keeps (nd_retired c e) (issue_token_kind x cfg w kind secret cid ch sig nd)"
  unfolding issue_token_kind_def Let_def
  by (auto simp: nd_retiredD intro!: ret.keeps_lock ret.keeps_finish retired_update split: keeps_splits)

lemma decide_keeps: "nd_retired c e nd \<Longrightarrow> keeps (nd_retired c e) (decide_second_device x cfg w cl ep op kid sig rej nd)"
  unfolding decide_second_device_def Let_def
  by (auto simp: nd_retiredD intro!: ret.keeps_lock ret.keeps_map keeps_cleanup complete_keeps remove_provisional_retired
      split: keeps_splits)

lemma word_plus_one_less:
  assumes "(v :: u64) \<noteq> - 1" shows "v < v + 1"
proof -
  have "unat v \<noteq> unat (- 1 :: u64)" using assms by (simp only: word_unat_eq_iff not_False_eq_True)
  then have "unat v + unat (1 :: u64) < 2 ^ LENGTH(64)"
    using unat_lt_pow [of v] unat_minus_one_max [where 'a = 64] by simp
  from unat_add_small [OF this] show ?thesis by (simp add: word_less_nat_alt)
qed

lemma bump_file_find:
  "find_client c (bump_file cid v f) =
     (if c = cid then map_option (\<lambda>r. r \<lparr> pc_epoch := v \<rparr>) (find_client c f) else find_client c f)"
proof -
  have "find_client c (bump_file cid v f) = find_client c (update_client cid (\<lambda>c. c \<lparr> pc_epoch := v \<rparr>) f)"
    by (simp add: bump_file_def find_client_def)
  then show ?thesis by (simp add: find_update_client)
qed

lemma retired_bump:
  assumes "retired c e f" "find_client cid f = Some r" "pc_epoch r \<noteq> - 1"
  shows "retired c e (bump_file cid (pc_epoch r + 1) f)"
  using assms word_plus_one_less [OF assms(3)]
  by (auto simp: retired_def bump_file_find, auto simp: bump_file_def bt_get_or_insert)

lemma bump_keeps:
  assumes "nd_retired c e nd" "\<forall>r. find_client cid (nd_file nd) = Some r \<longrightarrow> pc_epoch r \<noteq> - 1"
  shows "keeps (nd_retired c e) (bump_epoch x cfg w cid nd)"
  unfolding bump_epoch_def
proof (rule ret.keeps_lock [OF assms(1)])
  fix nd' assume nd': "nd_retired c e nd'" "lock_node w nd = Some nd'"
  have "find_client cid (nd_file nd') = find_client cid (nd_file nd)"
    using same_registry_fields(1) [OF lock_frame(1) [OF nd'(2)]] by (simp add: find_client_def)
  with nd' assms(2) show "keeps (nd_retired c e) (let i = nd_inner nd'; f = in_file i in
       case guard_device_removal x cfg i (\<lambda>k. dk_client_id k = cid) of
         Inl e \<Rightarrow> Some (Inl e, nd')
       | Inr _ \<Rightarrow>
           (case find_client cid f of
              None \<Rightarrow> Some (Inl UnknownClient, nd')
            | Some r \<Rightarrow>
                let epoch = pc_epoch r + 1;
                    f = snd (file_revoke_grants (Some cid) (bump_file cid epoch f))
                in finish w (set_file f nd') epoch))"
    by (auto simp: Let_def nd_retiredD intro!: ret.keeps_finish retired_bump split: keeps_splits)
qed

lemma retired_revoke_file: "retired c e f \<Longrightarrow> retired c e (revoke_file cid v f)"
  by (simp add: revoke_file_def Let_def retired_drop retired_raise)

lemma revoke_keeps: "nd_retired c e nd \<Longrightarrow> keeps (nd_retired c e) (revoke x cfg w cid nd)"
  unfolding revoke_def Let_def
  by (auto simp: nd_retiredD retired_revoke_file intro!: ret.keeps_lock ret.keeps_map ret.keeps_save split: keeps_splits)

lemma retired_rotate_file:
  assumes "retired c e f" "bt_get_or 0 (pf_last_epoch f) (pc_client_id r) < pc_epoch r"
  shows "retired c e (rotate_file cid v r f)"
proof -
  let ?g = "drop_client (pc_client_id r) (drop_client cid
      (raise_epoch (pc_client_id r) (pc_epoch r) (raise_epoch cid v f)))"
  have g: "retired c e ?g" using assms(1) by (intro retired_drop retired_raise)
  have "e < pc_epoch r" if "c = pc_client_id r"
    using assms(1,2) that by (auto simp: retired_def)
  moreover have "find_client c (f \<lparr> pf_clients := pf_clients f @ [q] \<rparr>) =
      (case find_client c f of None \<Rightarrow> if pc_client_id q = c then Some q else None | Some p \<Rightarrow> Some p)" for f q
    by (auto simp: find_client_def find_append split: option.splits)
  ultimately have "retired c e (?g \<lparr> pf_clients := pf_clients ?g @ [r] \<rparr>)"
    using g by (auto simp: retired_def split: option.splits)
  then show ?thesis by (simp add: rotate_file_def Let_def)
qed

lemma rotate_keeps: "nd_retired c e nd \<Longrightarrow> keeps (nd_retired c e) (rotate_client_key x cfg w cid key sig nd)"
proof -
  have above: "bt_get_or 0 (pf_last_epoch f) k < v" if "checked_add (max a (epoch_floor k f)) 1 = Some v" for a k f v
    using epoch_next [OF that] by (simp add: epoch_floor_def)
  assume "nd_retired c e nd"
  then show ?thesis unfolding rotate_client_key_def Let_def
    by (auto simp: nd_retiredD intro!: ret.keeps_lock ret.keeps_finish retired_rotate_file split: keeps_splits)
      (erule above)
qed

lemma rebind_keeps: "nd_retired c e nd \<Longrightarrow> keeps (nd_retired c e) (rebind_to_identity w fp nd)"
proof -
  let ?h = "\<lambda>c. c \<lparr> pc_identity_fingerprint := fp, pc_scopes := default_pairing_scopes \<rparr>"
  have "retired c e (f \<lparr> pf_clients := map ?h (pf_clients f) \<rparr>)" if "retired c e f" for f
    using that by (auto simp: retired_def find_client_def find_map_same)
  moreover assume "nd_retired c e nd"
  ultimately show ?thesis unfolding rebind_to_identity_def Let_def
    by (auto simp: nd_retiredD intro!: ret.keeps_lock ret.keeps_finish)
qed

lemma retired_end_relation [simp]: "retired c e (end_relation_grants cid f) \<longleftrightarrow> retired c e f"
  by (simp add: end_relation_grants_def)

lemma fold_end_relation:
  "retired c e (fold (\<lambda>k. end_relation_grants (rk_client_id k)) ks f) \<longleftrightarrow> retired c e f"
  by (induction ks arbitrary: f) simp_all

lemma fold_retire_pairing: "retired c e f \<Longrightarrow> retired c e (fold retire_pairing cs f)"
  by (induction cs arbitrary: f) (auto simp: retire_pairing_def retired_raise split: option.splits)

lemma retired_drop_set:
  assumes "retired c e f" shows "retired c e (f \<lparr> pf_clients := filter (\<lambda>q. pc_client_id q \<notin> S) (pf_clients f) \<rparr>)"
proof (cases "c \<in> S")
  case True
  then have "find (\<lambda>q. pc_client_id q = c) (filter (\<lambda>q. pc_client_id q \<notin> S) (pf_clients f)) = None"
    by (intro find_filter_none) simp
  then show ?thesis using assms by (simp add: retired_def find_client_def)
next
  case False
  then have "find (\<lambda>q. pc_client_id q = c) (filter (\<lambda>q. pc_client_id q \<notin> S) (pf_clients f))
      = find (\<lambda>q. pc_client_id q = c) (pf_clients f)"
    by (intro find_filter_other) simp
  then show ?thesis using assms by (simp add: retired_def find_client_def)
qed

lemma retired_apply_plan: "retired c e f \<Longrightarrow> retired c e (apply_revoke_plan plan f)"
  by (simp add: apply_revoke_plan_def Let_def retired_drop_set fold_end_relation fold_retire_pairing)

lemma fold_drop_provisional [simp]: "in_file (fold drop_provisional cs i) = in_file i"
  by (induction cs arbitrary: i) simp_all

lemma console_keeps: "nd_retired c e nd \<Longrightarrow> keeps (nd_retired c e) (console_revoke_devices x pj cfg w opt typed nd)"
  unfolding console_revoke_devices_def Let_def
  by (auto simp: nd_retiredD intro!: ret.keeps_lock ret.keeps_map ret.keeps_commit retired_apply_plan split: keeps_splits)

lemma open_keeps:
  assumes "open_service w1 w2 w3 fp found d = Some (r, d')" "retired c e found" "disk_retired c e d"
  shows "disk_retired c e d' \<and> (\<forall>nd. r = Inr nd \<longrightarrow> nd_retired c e nd)"
proof (cases "pf_version found > PAIRING_FILE_VERSION")
  case True
  then show ?thesis using assms by (auto simp: open_service_def)
next
  case False
  obtain up f where up: "upgrade_funding found = (up, f)" by fastforce
  have f: "retired c e f" using up assms(2) by (auto simp: upgrade_funding_def Let_def)
  let ?nd = "\<lparr> nd_inner = fresh_inner f fp, nd_disk = d \<rparr>"
  have nd0: "nd_retired c e ?nd" using f assms(3) by (simp add: nd_retired_def fresh_inner_def)
  obtain q nd1 where s1: "(if up then save_node w1 ?nd else Some (Inr (), ?nd)) = Some (q, nd1)"
    using assms(1) up False by (cases "if up then save_node w1 ?nd else Some (Inr (), ?nd)")
      (auto simp: open_service_def)
  have nd1: "nd_retired c e nd1" using s1 nd0 save_retired by (auto split: if_splits)
  have prune: "nd_retired c e ((set_file g nd1) \<lparr> nd_disk := d2 \<rparr>)" "disk_retired c e d2"
    if "prune_expired_locked env t (nd_file nd1) (nd_disk nd1) = Some (p, g, d2)" for env t p g d2
    using prune_frame [OF that] nd1 retired_same
    unfolding nd_retired_def disk_retired_def set_file_def by fastforce+
  have sweep: "nd_retired c e nd3" if "sweep_provisional_pairings w3 nd2 = Some (p, nd3)" "nd_retired c e nd2"
    for nd2 p nd3 using sweep_keeps [OF that(2), of w3] that(1) by (simp add: keeps_def)
  show ?thesis
  proof (cases "\<exists>err. q = Inl err")
    case True
    then show ?thesis using assms(1) up False s1 nd1 by (auto simp: open_service_def nd_retiredD)
  next
    case ok: False
    then obtain p g d2 where p: "prune_expired_locked (w_save w2) (w_unix w2) (nd_file nd1) (nd_disk nd1) = Some (p, g, d2)"
      using assms(1) up False s1 by (cases q; cases "prune_expired_locked (w_save w2) (w_unix w2) (nd_file nd1) (nd_disk nd1)")
        (auto simp: open_service_def)
    show ?thesis
    proof (cases "\<exists>err. p = Inl err")
      case True
      then show ?thesis using assms(1) up False s1 ok p prune(2) [OF p] by (cases q) (auto simp: open_service_def)
    next
      case swept: False
      let ?nd2 = "(set_file g nd1) \<lparr> nd_disk := d2 \<rparr>"
      obtain z nd3 where z: "sweep_provisional_pairings w3 ?nd2 = Some (z, nd3)"
        using assms(1) up False s1 ok p swept by (cases q; cases p) (auto simp: open_service_def)
      have "nd_retired c e nd3" using sweep [OF z prune(1) [OF p]] .
      then show ?thesis using assms(1) up False s1 ok p swept z
        by (cases q; cases p; cases z) (auto simp: open_service_def nd_retiredD)
    qed
  qed
qed

lemma keepsD: "keeps P res \<Longrightarrow> res = Some (r, nd) \<Longrightarrow> P nd"
  by (simp add: keeps_def)

lemmas kept_rules = keepsD [OF request_keeps] keepsD [OF confirm_take_keeps] keepsD [OF confirm_insert_keeps]
  keepsD [OF bootstrap_keeps] keepsD [OF remote_keeps] keepsD [OF second_keeps] keepsD [OF decide_keeps]
  keepsD [OF sweep_keeps] keepsD [OF challenge_keeps] keepsD [OF token_keeps] keepsD [OF tunnel_challenge_keeps]
  keepsD [OF revoke_keeps] keepsD [OF rotate_keeps] keepsD [OF rebind_keeps] keepsD [OF console_keeps]

lemma step_retired:
  assumes "service_step x pj s t" "sv_retired c e s" shows "sv_retired c e t"
  using assms
proof (induction rule: service_step.induct)
  case (other nd nd')
  note outside = other.hyps [unfolded outside_def]
  have "retired c e g" if "g \<in> set (nd_disk nd')" for g
    using outside that other.prems retired_cong [of g "nd_file nd" c e]
    by (auto simp: nd_retired_def disk_retired_def)
  then show ?case using outside other.prems retired_cong [of "nd_file nd'" "nd_file nd" c e]
    by (simp add: nd_retired_def disk_retired_def)
next
  case (rescan w nd nd0 code key t r'' nd')
  have "nd_retired c e nd0" using lock_retired [OF rescan(1)] rescan.prems by simp
  from keepsD [OF rescan_keeps [OF this] rescan(2)] show ?case by simp
next
  case (charge w nd nd0 op m r'' nd')
  have "nd_retired c e nd0" using lock_retired [OF charge(1)] charge.prems by simp
  from keepsD [OF charge_keeps [OF this] charge(2)] show ?case by simp
next
  case (bump cfg w ca nd re nd')
  have "nd_retired c e nd" using bump.prems by simp
  from keepsD [OF bump_keeps [OF this bump(2)] bump(1)] show ?case by simp
next
  case (start found d w1 w2 w3 fp nd' d')
  then show ?case using open_keeps [OF start(2), of c e] by (simp add: disk_retired_def)
next
  case (failed_start found d w1 w2 w3 fp err d')
  then show ?case using open_keeps [OF failed_start(2), of c e] by (simp add: disk_retired_def)
qed (simp_all only: sv_retired.simps nd_retiredD, (rule kept_rules, assumption, assumption)+)

lemma run_retired:
  assumes "service_run x pj s t" "sv_retired c e s" shows "sv_retired c e t"
  using assms by (induction rule: rtranclp_induct) (auto intro: step_retired)

lemma retired_not_bound:
  assumes "nd_retired c e nd" "verify_token_binding_with_reason x cfg w c e fp scopes nd = Some (r, nd')"
  shows "isl r"
proof -
  obtain nd1 where "lock_node w nd = Some nd1" "r = check_binding x cfg w c e fp scopes (nd_inner nd1)"
    using assms(2) by (auto simp: verify_token_binding_with_reason_def)
  moreover from this(1) have "nd_retired c e nd1" using assms(1) lock_retired by blast
  ultimately show ?thesis
    by (auto simp: check_binding_def refuse_def nd_retired_def retired_def split: option.splits sum.splits if_splits)
qed

lemma saved_retired: "save_node w nd = Some (Inr u, nd') \<Longrightarrow> retired c e (nd_file nd) \<Longrightarrow> nd_retired c e nd'"
  using save_frame(1,3) [of w nd "Inr u" nd'] retired_same [of "nd_file nd" "nd_file nd'" c e]
  by (simp add: nd_retired_def disk_retired_def)

lemma finished_retired: "finish w nd v = Some (Inr u, nd') \<Longrightarrow> retired c e (nd_file nd) \<Longrightarrow> nd_retired c e nd'"
  using saved_retired [of w nd _ nd' c e] by (auto simp: finish_def split: option.splits sum.splits)

lemma lock_find: "lock_node w nd = Some nd' \<Longrightarrow> find_client c (nd_file nd') = find_client c (nd_file nd)"
  using same_registry_fields(1) [OF lock_frame(1)] by (simp add: find_client_def)

lemma drop_find [simp]: "find_client c (drop_client c f) = None"
  by (simp add: find_client_def drop_client_def find_filter_none)

lemma revoke_file_retires:
  assumes "e \<le> v" shows "retired c e (revoke_file c v f)"
proof -
  have "retired c e (drop_client c (raise_epoch c v f))"
    using assms unfolding retired_def
    by (simp add: drop_client_def raise_epoch_def bt_get_or_insert find_client_def find_filter_none le_max_iff_disj)
  then show ?thesis by (simp add: revoke_file_def Let_def)
qed

lemma bump_file_retires:
  assumes "find_client c f = Some r" "pc_epoch r \<noteq> - 1" shows "retired c (pc_epoch r) (bump_file c (pc_epoch r + 1) f)"
  using assms word_plus_one_less [OF assms(2)]
  by (auto simp: retired_def bump_file_find) (auto simp: bump_file_def bt_get_or_insert)

lemma replace_retires:
  assumes "find_client (pc_client_id q) f = Some r" "checked_add (epoch_floor (pc_client_id q) f) 1 = Some (pc_epoch q)"
  shows "retired (pc_client_id q) (pc_epoch r) (replace_client q f)"
  using assms epoch_next [OF assms(2)]
  by (auto simp: retired_def replace_client_def epoch_floor_def find_client_def find_append bt_get_or_insert
      find_filter_none split: option.splits)

lemma rotate_file_retires:
  assumes "v < pc_epoch q" shows "retired c v (rotate_file c v q f)"
proof -
  let ?g = "drop_client (pc_client_id q) (drop_client c (raise_epoch (pc_client_id q) (pc_epoch q) (raise_epoch c v f)))"
  have "find_client c ?g = None" "v \<le> bt_get_or 0 (pf_last_epoch ?g) c"
    by (auto simp: find_client_def drop_client_def raise_epoch_def bt_get_or_insert find_None_iff le_max_iff_disj)
  then have "retired c v (?g \<lparr> pf_clients := pf_clients ?g @ [q] \<rparr>)"
    using assms by (auto simp: retired_def find_client_def find_append)
  then show ?thesis by (simp add: rotate_file_def Let_def)
qed

lemma revoke_done:
  assumes "revoke x cfg w c nd = Some (Inr u, nd')" "find_client c (nd_file nd) = Some r"
  shows "nd_retired c (pc_epoch r) nd'"
proof -
  obtain nd1 where lock: "lock_node w nd = Some nd1" using assms by (cases "lock_node w nd") (auto simp: revoke_def)
  note found = assms(2) [folded lock_find [OF lock]]
  let ?i = "(nd_inner nd1) \<lparr> in_file := revoke_file c (pc_epoch r) (nd_file nd1),
      in_token_challenges := bt_retain (\<lambda>_ (owner, _). owner \<noteq> c) (in_token_challenges (nd_inner nd1)) \<rparr>"
  obtain s nd2 where s: "save_node w (set_inner ?i nd1) = Some (s, nd2)"
    using assms lock found by (cases "save_node w (set_inner ?i nd1)")
      (auto simp: revoke_def Let_def split: sum.splits)
  obtain k where "s = Inr k" "nd' = set_inner (drop_provisional c (nd_inner nd2)) nd2"
    using assms lock found s by (cases s) (auto simp: revoke_def Let_def split: sum.splits)
  with saved_retired [of w _ k nd2 c "pc_epoch r"] s revoke_file_retires [of "pc_epoch r" "pc_epoch r" c]
  show ?thesis by (simp add: nd_retiredD)
qed

lemma max_next: "checked_add (max v b) 1 = Some u \<Longrightarrow> v < (u :: u64)"
  using epoch_next [of "max v b" u] by simp

lemma replace_retires':
  "find_client c f = Some r \<Longrightarrow> checked_add (epoch_floor c f) 1 = Some (pc_epoch q) \<Longrightarrow> pc_client_id q = c
   \<Longrightarrow> retired c (pc_epoch r) (replace_client q f)"
  using replace_retires [of q f r] by simp

lemma supersedes_retires:
  assumes "supersedes x cfg c nd nd'" "find_client c (nd_file nd) = Some r" "pc_epoch r \<noteq> - 1"
  shows "nd_retired c (pc_epoch r) nd'"
  using assms(1) unfolding supersedes_def
proof (elim disjE exE conjE)
  fix w assume "revoke x cfg w c nd = Some (Inr (), nd')"
  then show ?thesis using revoke_done assms(2) by fastforce
next
  fix w v assume "bump_epoch x cfg w c nd = Some (Inr v, nd')"
  then show ?thesis using assms(2,3) lock_find [of w nd _ c]
    by (auto simp: bump_epoch_def Let_def split: option.splits sum.splits bind_splits
        dest!: finished_retired [of _ _ _ _ _ c "pc_epoch r"] intro: bump_file_retires)
next
  fix w key sig q assume "rotate_client_key x cfg w c key sig nd = Some (Inr q, nd')"
  then show ?thesis using assms(2) lock_find [of w nd _ c]
    by (auto simp: rotate_client_key_def Let_def split: option.splits sum.splits bind_splits if_splits
        dest!: finished_retired [of _ _ _ _ _ c "pc_epoch r"] intro!: rotate_file_retires) (erule max_next)
next
  fix w p scopes q assume "client_id_from_pubkey x (pp_client_pubkey p) = c"
    "confirm_insert x cfg w p scopes nd = Some (Inr q, nd')"
  then show ?thesis using assms(2) lock_find [of w nd _ c]
    by (auto simp: confirm_insert_def Let_def split: option.splits sum.splits bind_splits if_splits
        dest!: finished_retired [of _ _ _ _ _ c "pc_epoch r"] intro!: replace_retires')
qed

lemma retired_le: "nd_retired c v nd \<Longrightarrow> e \<le> v \<Longrightarrow> nd_retired c e nd"
  by (auto simp: nd_retired_def disk_retired_def retired_def intro: order_trans order_le_less_trans)

text \<open>
  (C35) A retired token stays dead. Once a revocation, an epoch bump, a key rotation or a new
  pairing of the same key has succeeded for a client, no token bound to that client at its
  old epoch or an earlier one passes the check made on every request: not after any later
  run of the service, whatever pairings, rotations, enrollments, sweeps and identity changes
  it contains, with any saves failing, and across any crashes and restarts on any version of
  the file the disk may hold.
\<close>

theorem retired_token_never_accepted:
  assumes "supersedes x cfg c nd nd'" "find_client c (nd_file nd) = Some r" "pc_epoch r \<noteq> - 1"
    and "e \<le> pc_epoch r" "service_run x pj (Up nd') (Up nd'')"
    and "verify_token_binding_with_reason x cfg' w c e fp scopes nd'' = Some (res, nd3)"
  shows "isl res"
proof -
  have "sv_retired c e (Up nd')" using supersedes_retires [OF assms(1-3)] assms(4) retired_le by auto
  from run_retired [OF assms(5) this] show ?thesis using retired_not_bound assms(6) by auto
qed

lemma sample_persist:
  "pf_grants f = [] \<Longrightarrow> pf_front_door_grants f = [] \<Longrightarrow> pf_version f = PAIRING_FILE_VERSION
   \<Longrightarrow> persist sample_env f d = Some (Inr (), f, [f])"
  by (cases f) (simp add: persist_def persist_loop.simps [of sample_env] sample_env_def has_dead_grant_def
      retain_live_grants_def Let_def)

lemma sample_lock: "lock_node sample_world (sample_pairing_node cs v) = Some (sample_pairing_node cs v)"
  by (simp add: lock_node_def sample_pairing_node_def Let_def prune_owner_confirmations_def fresh_inner_def
      prune_expired_locked_def has_dead_grant_def pairing_file_new_def bt_retain_def)

lemma sample_save:
  "pf_grants (nd_file nd) = [] \<Longrightarrow> pf_front_door_grants (nd_file nd) = [] \<Longrightarrow> pf_version (nd_file nd) = PAIRING_FILE_VERSION
   \<Longrightarrow> save_node sample_world nd = Some (Inr (), nd \<lparr> nd_disk := [nd_file nd] \<rparr>)"
  by (cases nd) (simp add: save_node_def sample_world_def set_file_def sample_persist)

lemmas sample_node_simps = sample_pairing_node_def Let_def fresh_inner_def pairing_file_new_def
  guard_device_removal_def find_client_def set_inner_def set_file_def

lemma sample_revoke:
  "revoke sample_pairing_ops sample_cfg sample_world sample_phone (sample_pairing_node [sample_client 1] 1)
     = Some (Inr (), sample_pairing_node [] 1)"
proof -
  have "find_client sample_phone (nd_file (sample_pairing_node [sample_client 1] 1)) = Some (sample_client 1)"
    by (simp add: sample_node_simps sample_client_def)
  then show ?thesis unfolding revoke_def sample_lock bind.bind_lunit Let_def
    by (simp add: guard_device_removal_def sample_save revoke_file_def file_revoke_grants_def raise_epoch_def
        drop_client_def bt_get_or_def bt_retain_def drop_provisional_def bt_remove_def sample_node_simps sample_client_def)
qed

lemma sample_world_clock: "w_unix sample_world = 1000"
  by (simp add: sample_world_def)

lemma sample_confirm:
  "confirm_insert sample_pairing_ops sample_cfg sample_world sample_repair [Read] (sample_pairing_node [] 1)
     = Some (Inr (sample_client 2), sample_pairing_node [sample_client 2] 2)"
  unfolding confirm_insert_def sample_lock bind.bind_lunit Let_def
  by (simp add: sample_save sample_repair_def sample_phone_def [symmetric] epoch_floor_def replace_client_def
      finish_def bt_get_or_def checked_add_def sample_world_clock sample_node_simps sample_client_def)

theorem retired_token_never_accepted_witness:
  "isl (fst (the (verify_token_binding_with_reason sample_pairing_ops sample_cfg sample_world sample_phone 1 ''id'' []
     (sample_pairing_node [sample_client 2] 2))))"
proof -
  let ?ver = "verify_token_binding_with_reason sample_pairing_ops sample_cfg sample_world sample_phone 1 ''id'' []
     (sample_pairing_node [sample_client 2] 2)"
  have 1: "supersedes sample_pairing_ops sample_cfg sample_phone (sample_pairing_node [sample_client 1] 1) (sample_pairing_node [] 1)"
    using sample_revoke unfolding supersedes_def by blast
  have 2: "find_client sample_phone (nd_file (sample_pairing_node [sample_client 1] 1)) = Some (sample_client 1)"
    by (simp add: sample_node_simps sample_client_def)
  have 3: "service_run sample_pairing_ops (\<lambda>_. []) (Up (sample_pairing_node [] 1)) (Up (sample_pairing_node [sample_client 2] 2))"
    by (rule r_into_rtranclp, rule service_step.confirm_insert [OF sample_confirm])
  have 4: "?ver = Some (fst (the ?ver), snd (the ?ver))"
    by (simp add: verify_token_binding_with_reason_def sample_lock)
  show ?thesis
    by (rule retired_token_never_accepted [OF 1 2 _ _ 3 4]) (simp_all add: sample_client_def)
qed

end
