(* ===== verification/Auth.thy ===== *)
theory Auth
  imports Pairing_Steps
begin

text \<open>
  How a request is authenticated and authorised, \<open>konsensus-api/src/auth.rs\<close>: the bearer token
  is validated, its pairing binding is checked again under the pairing lock, and the scope a
  handler demands is compared with the scopes of the token. The text of a refusal is kept, the
  metrics and logs are not modelled.
\<close>

section \<open>Requests\<close>

record auth_user =
  au_node_id :: string
  au_scopes :: "scope list"
  au_pairing :: "pairing_binding option"

datatype rejection = Unauthorized string | Forbidden string

definition user_has :: "scope \<Rightarrow> auth_user \<Rightarrow> bool" where
  "user_has s u = (s \<in> set (au_scopes u))"

definition check_pairing_binding ::
  "pairing_ops \<Rightarrow> pairing_cfg \<Rightarrow> world \<Rightarrow> claims \<Rightarrow> node option
   \<Rightarrow> ((string + pairing_binding option) \<times> node option) option" where
  "check_pairing_binding x cfg w c pairing =
     (if cl_bst c = Some True then Some (Inl ''invalid_pairing'', pairing)
      else case binding_from_claims c of
        Inl _ \<Rightarrow> Some (Inl ''invalid_pairing'', pairing)
      | Inr None \<Rightarrow> Some (Inr None, pairing)
      | Inr (Some b) \<Rightarrow>
          (case pairing of
             None \<Rightarrow> Some (Inl ''pairing_unavailable'', pairing)
           | Some nd \<Rightarrow>
               map_option (\<lambda>(r, nd). (case r of Inl (_, why) \<Rightarrow> Inl why | Inr _ \<Rightarrow> Inr (Some b), Some nd))
                 (verify_token_binding_with_reason x cfg w (pb_client_id b) (pb_epoch b) (pb_fingerprint b)
                    (cl_scp c) nd)))"

definition auth_from_request ::
  "pairing_ops \<Rightarrow> pairing_cfg \<Rightarrow> world \<Rightarrow> string \<Rightarrow> string option \<Rightarrow> node option
   \<Rightarrow> ((rejection + auth_user) \<times> node option) option" where
  "auth_from_request x cfg w jwt_secret header pairing =
     (case header of
        None \<Rightarrow> Some (Inl (Unauthorized ''missing authorization header''), pairing)
      | Some h \<Rightarrow>
          (case strip_prefix ''Bearer '' h of
             None \<Rightarrow> Some (Inl (Unauthorized ''invalid authorization format''), pairing)
           | Some token \<Rightarrow>
               (case validate_token x (w_unix w) token jwt_secret of
                  Inl _ \<Rightarrow> Some (Inl (Unauthorized ''invalid token''), pairing)
                | Inr c \<Rightarrow>
                    map_option (\<lambda>(r, pairing). (case r of
                        Inl _ \<Rightarrow> Inl (Unauthorized ''invalid token'')
                      | Inr b \<Rightarrow> Inr \<lparr> au_node_id = cl_sub c, au_scopes = cl_scp c, au_pairing = b \<rparr>, pairing))
                      (check_pairing_binding x cfg w c pairing))))"

text \<open>The markers of \<open>auth::scoped\<close>: one scope, or the right to publish the front-door card.\<close>

datatype required_scope = Requires scope | FrontDoorWrite

fun marker_scope :: "required_scope \<Rightarrow> scope" where
  "marker_scope (Requires s) = s"
| "marker_scope FrontDoorWrite = FrontDoor"

fun marker_permits :: "required_scope \<Rightarrow> auth_user \<Rightarrow> bool" where
  "marker_permits (Requires s) u = user_has s u"
| "marker_permits FrontDoorWrite u = (user_has FrontDoor u \<or> user_has Admin u)"

definition scoped_auth ::
  "pairing_ops \<Rightarrow> pairing_cfg \<Rightarrow> world \<Rightarrow> string \<Rightarrow> required_scope \<Rightarrow> string option \<Rightarrow> node option
   \<Rightarrow> ((rejection + auth_user) \<times> node option) option" where
  "scoped_auth x cfg w jwt_secret marker header pairing =
     map_option (\<lambda>(r, pairing). (case r of
         Inl e \<Rightarrow> Inl e
       | Inr user \<Rightarrow>
           if \<not> marker_permits marker user
           then Inl (Forbidden (''token lacks required scope: '' @ scope_as_str (marker_scope marker)))
           else if marker_scope marker = Spend \<and> au_pairing user \<noteq> None
           then Inl (Forbidden (''a paired client's spend grant is budget-scoped and does not cover this ''
                  @ ''route; only metered paid paths (messages, files, pay, keysend) accept it''))
           else Inr user, pairing))
       (auth_from_request x cfg w jwt_secret header pairing)"

text \<open>
  The extractor of the enrollment routes: a token with \<open>read\<close>, or the provisional pairing
  itself on its own Noise session, named by the session's client and static key.
\<close>

definition enrollment_auth ::
  "pairing_ops \<Rightarrow> pairing_cfg \<Rightarrow> world \<Rightarrow> string \<Rightarrow> (string \<times> bytes) option \<Rightarrow> string option \<Rightarrow> node option
   \<Rightarrow> ((rejection + auth_user) \<times> node option) option" where
  "enrollment_auth x cfg w jwt_secret noise header pairing =
     Option.bind (auth_from_request x cfg w jwt_secret header pairing) (\<lambda>(r, pairing).
       case r of
         Inl e \<Rightarrow> Some (Inl e, pairing)
       | Inr user \<Rightarrow>
           if user_has Read user then Some (Inr user, pairing)
           else
             let refused = Inl (Forbidden ''enrollment authority required'') in
             case (au_pairing user, noise, pairing) of
               (Some b, Some (client_id, client_static), Some nd) \<Rightarrow>
                 if client_id \<noteq> pb_client_id b then Some (refused, pairing)
                 else Option.bind (lock_node w nd) (\<lambda>nd.
                   let i = nd_inner nd;
                       allowed = (\<not> isl (provisional_locked cfg w i (pb_client_id b))
                         \<or> (case validate_remote_transport x cfg w client_static i of
                              Inl _ \<Rightarrow> False
                            | Inr c \<Rightarrow> pc_client_id c = pb_client_id b \<and> pc_epoch c = pb_epoch b
                                       \<and> Read \<in> set (pc_scopes c)))
                   in Some (if allowed then Inr user else refused, Some nd))
             | _ \<Rightarrow> Some (refused, pairing))"

section \<open>What authorises a scope\<close>

text \<open>
  A pairing holds a scope when the owner paired it with that scope (the grantable ones count
  only where the owner has a console), when a live grant of the owner for this client, epoch
  and identity names it, or, for \<open>front_door\<close>, when a live front-door grant does.
\<close>

definition scope_held :: "pairing_ops \<Rightarrow> pairing_cfg \<Rightarrow> inner \<Rightarrow> paired_client \<Rightarrow> int \<Rightarrow> scope \<Rightarrow> bool" where
  "scope_held x cfg i r now s \<longleftrightarrow>
     pc_scopes r \<noteq> [] \<and>
     (s \<in> set (pc_scopes r) \<and> (owner_control_enabled cfg \<or> s \<notin> {Spend, FrontDoor})
      \<or> (\<exists>g \<in> set (pf_grants (in_file i)). grant_matches i r now g \<and> s \<in> set (sg_scopes g)
           \<and> (owner_control_enabled cfg \<or> (s = Spend \<and> permits_spend_grant x cfg g)))
      \<or> (s = FrontDoor \<and> owner_control_enabled cfg
           \<and> (\<exists>g \<in> set (pf_front_door_grants (in_file i)). front_door_matches i r now g)))"

definition bearer :: "string \<Rightarrow> string \<Rightarrow> string \<Rightarrow> string" where
  "bearer h p s = ''Bearer '' @ h @ ''.'' @ p @ ''.'' @ s"

definition sample_member :: paired_client where
  "sample_member =
     \<lparr> pc_client_id = ''phone'', pc_name = ''phone'', pc_client_pubkey = ''k'',
       pc_remote_transport_pubkey = None, pc_scopes = [Read, Receive], pc_epoch = 1,
       pc_identity_fingerprint = ''id'', pc_created_at = 1000, pc_last_seen = None \<rparr>"

definition sample_header :: string where
  "sample_header = ''Bearer '' @ projr (sign_claims sample_pairing_ops sample_claims ''secret'')"

section \<open>Facts\<close>

lemma fold_add_scope:
  "s \<in> set (fold (add_scope x cfg g) ss acc) \<longleftrightarrow>
     s \<in> set acc \<or> (s \<in> set ss \<and> (owner_control_enabled cfg \<or> (s = Spend \<and> permits_spend_grant x cfg g)))"
  by (induction ss arbitrary: acc) (auto simp: add_scope_def)

lemma fold_grants_scope:
  "s \<in> set (fold (\<lambda>g acc. if M g then fold (add_scope x cfg g) (sg_scopes g) acc else acc) gs acc) \<longleftrightarrow>
     s \<in> set acc \<or> (\<exists>g \<in> set gs. M g \<and> s \<in> set (sg_scopes g)
        \<and> (owner_control_enabled cfg \<or> (s = Spend \<and> permits_spend_grant x cfg g)))"
  by (induction gs arbitrary: acc) (auto simp: fold_add_scope)

lemma set_effective_scopes: "s \<in> set (effective_scopes x cfg i r now) \<longleftrightarrow> scope_held x cfg i r now s"
  by (auto simp: scope_held_def effective_scopes_def Let_def fold_grants_scope grantable_scopes_def list_ex_iff)

lemma check_binding_Inr:
  assumes "check_binding x cfg w c e fp scopes i = Inr u"
  obtains r where "find_client c (in_file i) = Some r" "pc_epoch r = e" "pc_identity_fingerprint r = fp"
    "in_identity_fingerprint i = fp" "\<forall>s \<in> set scopes. scope_held x cfg i r (w_unix w) s"
  using assms that
  by (auto simp: check_binding_def refuse_def find_None_iff set_effective_scopes
      split: if_splits option.splits sum.splits)

lemma check_pairing_Inr:
  assumes "check_pairing_binding x cfg w c (Some nd) = Some (Inr (Some b), nd')"
  shows "\<exists>nd1 r. lock_node w nd = Some nd1 \<and> find_client (pb_client_id b) (nd_file nd1) = Some r
    \<and> pc_epoch r = pb_epoch b \<and> pc_identity_fingerprint r = in_identity_fingerprint (nd_inner nd1)
    \<and> (\<forall>s \<in> set (cl_scp c). scope_held x cfg (nd_inner nd1) r (w_unix w) s)"
proof -
  obtain b0 where b0: "binding_from_claims c = Inr (Some b0)" and bst: "cl_bst c \<noteq> Some True"
    using assms by (auto simp: check_pairing_binding_def simp del: binding_from_claims.simps
        split: if_splits option.splits sum.splits)
  then obtain nd1 where lock: "lock_node w nd = Some nd1"
    using assms by (cases "lock_node w nd") (auto simp: check_pairing_binding_def verify_token_binding_with_reason_def
        simp del: binding_from_claims.simps)
  let ?chk = "check_binding x cfg w (pb_client_id b0) (pb_epoch b0) (pb_fingerprint b0) (cl_scp c) (nd_inner nd1)"
  have "b0 = b \<and> (\<exists>u. ?chk = Inr u)"
    using assms b0 bst lock by (cases ?chk) (auto simp: check_pairing_binding_def verify_token_binding_with_reason_def
        simp del: binding_from_claims.simps)
  then show ?thesis using lock by (auto elim!: check_binding_Inr)
qed

lemma scoped_auth_Inr:
  assumes "scoped_auth x cfg w secret marker header pairing = Some (Inr user, pairing')"
  shows "auth_from_request x cfg w secret header pairing = Some (Inr user, pairing')
    \<and> marker_permits marker user \<and> (marker_scope marker = Spend \<longrightarrow> au_pairing user = None)"
proof -
  obtain r q where rq: "auth_from_request x cfg w secret header pairing = Some (r, q)"
    using assms by (auto simp: scoped_auth_def)
  with assms show ?thesis by (cases r) (auto simp: scoped_auth_def split: if_splits)
qed

lemma auth_from_request_Inr:
  assumes "auth_from_request x cfg w secret header pairing = Some (Inr user, pairing')"
  shows "\<exists>token c. header = Some (''Bearer '' @ token) \<and> validate_token x (w_unix w) token secret = Inr c
    \<and> check_pairing_binding x cfg w c pairing = Some (Inr (au_pairing user), pairing') \<and> au_scopes user = cl_scp c"
proof -
  obtain token c where t: "header = Some (''Bearer '' @ token)" "validate_token x (w_unix w) token secret = Inr c"
    using assms by (auto simp: auth_from_request_def strip_prefix_Some split: option.splits sum.splits)
  obtain r q where rq: "check_pairing_binding x cfg w c pairing = Some (r, q)"
    using assms t by (auto simp: auth_from_request_def)
  with assms t show ?thesis by (cases r) (auto simp: auth_from_request_def)
qed


lemma sample_effective: "effective_scopes sample_pairing_ops sample_cfg (nd_inner (sample_pairing_node [sample_member] 1)) sample_member t
    = [Read, Receive]"
  by (simp add: effective_scopes_def sample_node_simps sample_member_def grantable_scopes_def sample_cfg_def)

lemma sample_scoped_auth:
  "scoped_auth sample_pairing_ops sample_cfg sample_world ''secret'' (Requires Read) (Some sample_header)
     (Some (sample_pairing_node [sample_member] 1))
   = Some (Inr \<lparr> au_node_id = ''node'', au_scopes = [Read, Receive],
       au_pairing = Some \<lparr> pb_client_id = ''phone'', pb_epoch = 1, pb_fingerprint = ''id'' \<rparr> \<rparr>,
      Some (sample_pairing_node [sample_member] 1))"
proof -
  let ?i = "nd_inner (sample_pairing_node [sample_member] 1)"
  have "find_client ''phone'' (in_file ?i) = Some sample_member" "in_identity_fingerprint ?i = ''id''"
    by (simp_all add: sample_node_simps sample_member_def)
  moreover have "pc_scopes sample_member \<noteq> []" "pc_epoch sample_member = 1" "pc_identity_fingerprint sample_member = ''id''"
    by (simp_all add: sample_member_def)
  ultimately have "check_binding sample_pairing_ops sample_cfg sample_world ''phone'' 1 ''id'' [Read, Receive] ?i = Inr ()"
    by (simp add: check_binding_def provisional_ok_def sample_effective)
  then have "verify_token_binding_with_reason sample_pairing_ops sample_cfg sample_world ''phone'' 1 ''id'' [Read, Receive]
      (sample_pairing_node [sample_member] 1) = Some (Inr (), sample_pairing_node [sample_member] 1)"
    by (simp add: verify_token_binding_with_reason_def sample_lock)
  then have "check_pairing_binding sample_pairing_ops sample_cfg sample_world sample_claims
      (Some (sample_pairing_node [sample_member] 1)) =
    Some (Inr (Some \<lparr> pb_client_id = ''phone'', pb_epoch = 1, pb_fingerprint = ''id'' \<rparr>),
      Some (sample_pairing_node [sample_member] 1))"
    by (simp add: check_pairing_binding_def sample_claims_def)
  moreover have "cl_sub sample_claims = ''node''" "cl_scp sample_claims = [Read, Receive]"
    by (simp_all add: sample_claims_def)
  ultimately have "auth_from_request sample_pairing_ops sample_cfg sample_world ''secret'' (Some sample_header)
      (Some (sample_pairing_node [sample_member] 1)) =
    Some (Inr \<lparr> au_node_id = ''node'', au_scopes = [Read, Receive],
       au_pairing = Some \<lparr> pb_client_id = ''phone'', pb_epoch = 1, pb_fingerprint = ''id'' \<rparr> \<rparr>,
      Some (sample_pairing_node [sample_member] 1))"
    by (simp add: auth_from_request_def sample_header_def sample_world_clock sample_token_valid)
  then show ?thesis by (simp add: scoped_auth_def user_has_def)
qed


end
