(* ===== verification/Pairing_Bounds.thy ===== *)
theory Pairing_Bounds
  imports Pairing_Steps
begin

text \<open>
  The state the pairing service keeps in memory stays well formed and bounded, whatever is
  asked of it: ceremonies, token challenges and challenge proofs each have a limit that no run
  exceeds, per client where the code has one, and the maps stay maps.
\<close>

section \<open>Well-formed states\<close>

definition challenges_of :: "string \<Rightarrow> (string, string \<times> nat) btmap \<Rightarrow> nat" where
  "challenges_of c m = length (filter (\<lambda>(_, owner, _). owner = c) m)"

definition proofs_of :: "string \<Rightarrow> (string \<times> int \<times> bytes) list \<Rightarrow> nat" where
  "proofs_of c ps = length (filter (\<lambda>(owner, _, _). owner = c) ps)"

definition challenges_wf :: "(string, string \<times> nat) btmap \<Rightarrow> bool" where
  "challenges_wf m \<longleftrightarrow> bt_wf m \<and> length m \<le> MAX_LIVE_TOKEN_CHALLENGES
     \<and> (\<forall>c. challenges_of c m \<le> MAX_LIVE_TOKEN_CHALLENGES_PER_CLIENT)"

definition proofs_wf :: "(string \<times> int \<times> bytes) list \<Rightarrow> bool" where
  "proofs_wf ps \<longleftrightarrow> distinct ps \<and> length ps \<le> MAX_LOCAL_CHALLENGE_PROOFS
     \<and> (\<forall>c. proofs_of c ps \<le> MAX_LOCAL_CHALLENGE_PROOFS_PER_CLIENT)"

definition pending_wf :: "(string, pending_pairing) btmap \<Rightarrow> bool" where
  "pending_wf m \<longleftrightarrow> bt_wf m \<and> length m \<le> MAX_PENDING_PAIRINGS"

definition inner_wf :: "inner \<Rightarrow> bool" where
  "inner_wf i \<longleftrightarrow> pending_wf (in_pending i) \<and> challenges_wf (in_token_challenges i)
     \<and> proofs_wf (in_local_challenge_proofs i)"

definition nd_wf :: "node \<Rightarrow> bool" where "nd_wf nd = inner_wf (nd_inner nd)"

fun sv_wf :: "service \<Rightarrow> bool" where
  "sv_wf (Up nd) = nd_wf nd"
| "sv_wf (Down d) = True"

section \<open>Facts\<close>

lemma inner_wf_file [simp]:
  "inner_wf (i \<lparr> in_file := f \<rparr>) = inner_wf i" "inner_wf (i \<lparr> in_second_device := s \<rparr>) = inner_wf i"
  "inner_wf (i \<lparr> in_owner_confirmations := oc \<rparr>) = inner_wf i" "inner_wf (i \<lparr> in_cancelled_ops := co \<rparr>) = inner_wf i"
  "inner_wf (i \<lparr> in_identity_fingerprint := fp \<rparr>) = inner_wf i"
  by (simp_all add: inner_wf_def)

lemma nd_wf_set [simp]:
  "nd_wf (set_inner i nd) = inner_wf i" "nd_wf (set_file f nd) = nd_wf nd" "nd_wf (nd \<lparr> nd_disk := d \<rparr>) = nd_wf nd"
  by (simp_all add: nd_wf_def set_inner_def set_file_def)

lemma inner_wfD: "nd_wf nd \<Longrightarrow> inner_wf (nd_inner nd)"
  by (simp add: nd_wf_def)

interpretation wf: node_invariant nd_wf
proof
  fix w nd nd' assume "lock_node w nd = Some nd'" "nd_wf nd"
  then show "nd_wf nd'"
    by (auto simp: lock_node_def Let_def nd_wf_def prune_owner_confirmations_def split: option.splits)
next
  fix w nd r nd' before assume s: "save_node w nd = Some (r, nd')"
  then show "nd_wf nd \<Longrightarrow> nd_wf nd'" by (auto simp: save_node_def split: option.splits)
  show "nd_wf (set_inner before nd) \<Longrightarrow> nd_wf (set_inner before nd')" by simp
qed

lemma length_filter_le_of: "length (filter P (filter Q m)) \<le> length (filter P m)"
  by (induction m) auto

lemma filter_len: "length m \<le> n \<Longrightarrow> length (filter Q m) \<le> n"
  using length_filter_le [of Q m] by (rule order_trans)

lemma filter_filter_len: "length (filter P m) \<le> n \<Longrightarrow> length (filter P (filter Q m)) \<le> n"
  using length_filter_le_of [of P Q m] by (rule order_trans)

lemma challenges_wf_filter: "challenges_wf m \<Longrightarrow> challenges_wf (filter Q m)"
  by (simp add: challenges_wf_def challenges_of_def bt_wf_filter filter_len filter_filter_len del: filter_filter)

lemma challenges_wf_retain: "challenges_wf m \<Longrightarrow> challenges_wf (bt_retain Q m)"
  by (simp add: bt_retain_def challenges_wf_filter)

lemma challenges_wf_remove: "challenges_wf m \<Longrightarrow> challenges_wf (bt_remove k m)"
  by (simp add: bt_remove_def challenges_wf_filter)

lemma pending_wf_retain: "pending_wf m \<Longrightarrow> pending_wf (bt_retain Q m)"
  by (simp add: pending_wf_def bt_retain_def bt_wf_filter filter_len)

lemma pending_wf_remove: "pending_wf m \<Longrightarrow> pending_wf (bt_remove k m)"
  by (simp add: pending_wf_def bt_remove_def bt_wf_filter filter_len)

lemma length_bt_insert_le: "length (bt_insert k v m) \<le> Suc (length m)"
  by (induction m rule: bt_insert.induct) auto

lemma filter_bt_insert_le: "length (filter P (bt_insert k v m)) \<le> Suc (length (filter P m))"
  by (induction m rule: bt_insert.induct) auto

lemma filter_bt_insert_not: "\<not> P (k, v) \<Longrightarrow> length (filter P (bt_insert k v m)) \<le> length (filter P m)"
  by (induction m rule: bt_insert.induct) auto

lemma proofs_wf_filter: "proofs_wf ps \<Longrightarrow> proofs_wf (filter Q ps)"
  by (simp add: proofs_wf_def proofs_of_def filter_len filter_filter_len del: filter_filter)

lemma oldest_challenge_in:
  assumes "challenges_of c m > 0" obtains k t where "oldest_challenge c m = Some k" "(k, c, t) \<in> set m"
proof -
  let ?mine = "filter (\<lambda>(_, owner, _). owner = c) m"
  obtain e es where es: "?mine = e # es" using assms by (cases ?mine) (auto simp: challenges_of_def)
  have "fold (\<lambda>b a. if snd (snd b) < snd (snd a) then b else a) xs y \<in> insert y (set xs)"
    for xs :: "(string \<times> string \<times> nat) list" and y
  proof (induction xs arbitrary: y)
    case (Cons a xs)
    show ?case using Cons [of "if snd (snd a) < snd (snd y) then a else y"] by (auto split: if_splits)
  qed simp
  then have in_mine: "fold (\<lambda>b a. if snd (snd b) < snd (snd a) then b else a) es e \<in> set ?mine" using es by auto
  obtain k d t where f: "fold (\<lambda>b a. if snd (snd b) < snd (snd a) then b else a) es e = (k, d, t)" by (rule prod_cases3)
  have "oldest_challenge c m = Some k" using f by (simp add: oldest_challenge_def es)
  moreover have "(k, c, t) \<in> set m" using in_mine unfolding f by auto
  ultimately show thesis by (rule that)
qed

lemma challenges_wf_insert:
  assumes "challenges_wf m" "length m < MAX_LIVE_TOKEN_CHALLENGES" "challenges_of c m < MAX_LIVE_TOKEN_CHALLENGES_PER_CLIENT"
  shows "challenges_wf (bt_insert k (c, t) m)"
  unfolding challenges_wf_def
proof (intro conjI allI)
  show "bt_wf (bt_insert k (c, t) m)" using assms(1) by (simp add: challenges_wf_def)
  show "length (bt_insert k (c, t) m) \<le> MAX_LIVE_TOKEN_CHALLENGES"
    using assms(2) length_bt_insert_le [of k "(c, t)" m] by simp
  fix d show "challenges_of d (bt_insert k (c, t) m) \<le> MAX_LIVE_TOKEN_CHALLENGES_PER_CLIENT"
  proof (cases "d = c")
    case True
    then show ?thesis using assms(3) filter_bt_insert_le [of "\<lambda>(_, owner, _). owner = c" k "(c, t)" m]
      by (simp add: challenges_of_def)
  next
    case False
    then have "challenges_of d (bt_insert k (c, t) m) \<le> challenges_of d m"
      unfolding challenges_of_def by (intro filter_bt_insert_not) simp
    then show ?thesis using assms(1) by (meson challenges_wf_def order_trans)
  qed
qed

lemma evict_oldest:
  assumes "challenges_wf m" "challenges_of c m > 0"
  shows "\<exists>k. oldest_challenge c m = Some k \<and> length (bt_remove k m) < length m \<and> challenges_of c (bt_remove k m) < challenges_of c m"
proof -
  obtain k t where k: "oldest_challenge c m = Some k" "(k, c, t) \<in> set m" using oldest_challenge_in [OF assms(2)] .
  have shrink: "length (filter (\<lambda>e. P e \<and> Q e) m) < length (filter P m)" if "e \<in> set m" "P e" "\<not> Q e" for P Q e
  proof -
    have "list_ex (\<lambda>e. \<not> Q e) (filter P m)" using that unfolding list_ex_iff set_filter by blast
    from length_filter_drop [OF this] show ?thesis by (simp add: conj_commute)
  qed
  have "bt_remove k m = filter (\<lambda>e. True \<and> fst e \<noteq> k) m"
    by (auto simp: bt_remove_def intro!: filter_cong)
  moreover have "filter (\<lambda>(_, owner, _). owner = c) (bt_remove k m) = filter (\<lambda>e. (case e of (_, owner, _) \<Rightarrow> owner = c) \<and> fst e \<noteq> k) m"
    by (auto simp: bt_remove_def intro!: filter_cong)
  ultimately have "length (bt_remove k m) < length m" "challenges_of c (bt_remove k m) < challenges_of c m"
    using shrink [OF k(2), of "\<lambda>_. True" "\<lambda>e. fst e \<noteq> k"]
      shrink [OF k(2), of "\<lambda>(_, owner, _). owner = c" "\<lambda>e. fst e \<noteq> k"]
    unfolding challenges_of_def by simp_all
  with k(1) show ?thesis by blast
qed

lemma issue_wf:
  assumes "issue_token_challenge_locked x t nonce c i = (r, i')" "inner_wf i"
  shows "inner_wf i'"
proof -
  let ?live = "bt_retain (\<lambda>_ (_, u). u > t) (in_token_challenges i)"
  have live: "challenges_wf ?live" using assms(2) by (simp add: inner_wf_def challenges_wf_retain)
  have mine: "length (filter (\<lambda>(_, owner, _). owner = c) ?live) = challenges_of c ?live" by (simp add: challenges_of_def)
  have room: "challenges_wf (bt_insert k (c, u) (case oldest_challenge c ?live of None \<Rightarrow> ?live | Some d \<Rightarrow> bt_remove d ?live))"
    if full: "\<not> challenges_of c ?live < MAX_LIVE_TOKEN_CHALLENGES_PER_CLIENT" for k u
  proof -
    have "challenges_of c ?live > 0" using full by (simp add: MAX_LIVE_TOKEN_CHALLENGES_PER_CLIENT_def)
    from evict_oldest [OF live this] obtain d where d: "oldest_challenge c ?live = Some d"
      "length (bt_remove d ?live) < length ?live" "challenges_of c (bt_remove d ?live) < challenges_of c ?live" by blast
    have "length ?live \<le> MAX_LIVE_TOKEN_CHALLENGES" "challenges_of c ?live \<le> MAX_LIVE_TOKEN_CHALLENGES_PER_CLIENT"
      using live by (simp_all add: challenges_wf_def)
    with d live show ?thesis by (auto intro!: challenges_wf_insert challenges_wf_remove)
  qed
  show ?thesis using assms live room
    by (auto simp: issue_token_challenge_locked_def Let_def mine inner_wf_def not_less not_le
        intro!: challenges_wf_insert split: if_splits)
qed

lemma inner_wf_second [simp]:
  "inner_wf (drop_used_tickets t i) = inner_wf i" "inner_wf (drop_provisional cid i) = inner_wf i"
  "inner_wf (drop_second_op op i) = inner_wf i"
  by (simp_all add: drop_used_tickets_def drop_provisional_def drop_second_op_def Let_def)

lemma inner_wf_fold_drop [simp]: "inner_wf (fold drop_second_op ops i) = inner_wf i"
  by (induction ops arbitrary: i) simp_all

lemma inner_wf_remove [simp]: "inner_wf (remove_provisional_locked cid i) = inner_wf i"
  by (simp add: remove_provisional_locked_def Let_def)

lemma inner_wf_folds [simp]:
  "inner_wf (fold remove_provisional_locked ids i) = inner_wf i" "inner_wf (fold drop_provisional ids i) = inner_wf i"
  by (induction ids arbitrary: i) simp_all

lemma inner_wf_challenges:
  "inner_wf i \<Longrightarrow> inner_wf (i \<lparr> in_token_challenges := bt_retain Q (in_token_challenges i) \<rparr>)"
  "inner_wf i \<Longrightarrow> inner_wf (i \<lparr> in_token_challenges := bt_remove k (in_token_challenges i) \<rparr>)"
  by (simp_all add: inner_wf_def challenges_wf_retain challenges_wf_remove)

lemma cleanup_wf: "inner_wf i \<Longrightarrow> inner_wf (commit_enrollment_cleanup i)"
  by (simp add: commit_enrollment_cleanup_def inner_wf_def challenges_wf_retain)

lemma wf_cleanup: "inner_wf before \<Longrightarrow> nd_wf nd \<Longrightarrow> keeps nd_wf (commit_cleanup w before nd v)"
  unfolding commit_cleanup_def
  by (rule wf.keeps_map [OF wf.keeps_commit]) (auto simp: inner_wfD cleanup_wf split: sum.splits)

lemmas wf_rules = wf.keeps_lock wf.keeps_bind wf.keeps_map wf.keeps_save wf.keeps_finish wf.keeps_commit wf_cleanup

lemma request_wf: "nd_wf nd \<Longrightarrow> keeps nd_wf (request_pairing x w name key ch pid cw nd)"
proof -
  have "inner_wf (i \<lparr> in_pending := bt_insert k v (bt_retain Q (in_pending i)) \<rparr>)"
    if "inner_wf i" "\<not> MAX_PENDING_PAIRINGS \<le> length (bt_retain Q (in_pending i))" for i k v Q
    using that pending_wf_retain [of "in_pending i" Q] length_bt_insert_le [of k v "bt_retain Q (in_pending i)"]
    by (auto simp: inner_wf_def pending_wf_def)
  moreover have "inner_wf (i \<lparr> in_pending := bt_retain Q (in_pending i) \<rparr>)" if "inner_wf i" for i Q
    using that by (simp add: inner_wf_def pending_wf_retain)
  moreover assume "nd_wf nd"
  ultimately show ?thesis
    by (auto simp: request_pairing_def Let_def inner_wfD intro!: wf.keeps_lock split: keeps_splits)
qed

lemma confirm_take_wf: "nd_wf nd \<Longrightarrow> keeps nd_wf (confirm_take w pid nd)"
proof -
  have "inner_wf (i \<lparr> in_pending := bt_remove k (in_pending i) \<rparr>)" if "inner_wf i" for i k
    using that by (simp add: inner_wf_def pending_wf_remove)
  moreover assume "nd_wf nd"
  ultimately show ?thesis
    by (auto simp: confirm_take_def Let_def inner_wfD intro!: wf.keeps_lock split: keeps_splits)
qed

lemma confirm_insert_wf: "nd_wf nd \<Longrightarrow> keeps nd_wf (confirm_insert x cfg w pending scopes nd)"
  unfolding confirm_insert_def Let_def by (auto intro!: wf_rules split: keeps_splits)

lemma bootstrap_wf: "nd_wf nd \<Longrightarrow> keeps nd_wf (create_bootstrap_ticket_pairing x w name key t nd)"
  unfolding create_bootstrap_ticket_pairing_def Let_def by (auto simp: inner_wfD intro!: wf_rules split: keeps_splits)

lemma remote_wf: "nd_wf nd \<Longrightarrow> keeps nd_wf (create_remote_pairing x w name key t win nd)"
  unfolding create_remote_pairing_def
  by (rule wf.keeps_lock) (auto simp: create_remote_pairing_locked_def Let_def inner_wfD intro!: wf.keeps_commit split: keeps_splits)

lemma sweep_wf: "nd_wf nd \<Longrightarrow> keeps nd_wf (sweep_provisional_pairings w nd)"
  unfolding sweep_provisional_pairings_def Let_def
  by (rule wf.keeps_lock) (auto simp: inner_wfD intro!: wf.keeps_map wf_cleanup split: sum.splits)

lemma charge_wf: "nd_wf nd \<Longrightarrow> keeps nd_wf (charge_second_failure w op m nd)"
  unfolding charge_second_failure_def Let_def
  by (rule wf_cleanup) (auto simp: inner_wfD split: option.splits)

lemma rescan_wf: "nd_wf nd \<Longrightarrow> keeps nd_wf (rescan_locked x w code key t nd)"
  unfolding rescan_locked_def Let_def
  by (auto simp: inner_wfD intro!: wf.keeps_map wf_cleanup split: keeps_splits)

lemma second_wf: "nd_wf nd \<Longrightarrow> keeps nd_wf (create_second_device_pairing x cfg w w' code name key t issuer nd)"
  unfolding create_second_device_pairing_def
proof (rule wf.keeps_lock)
  fix nd' assume "nd_wf nd'"
  then show "keeps nd_wf (create_second_device_locked x cfg w w' code name key t issuer nd')"
    unfolding create_second_device_locked_def Let_def
    by (auto simp: inner_wfD intro!: wf.keeps_bind rescan_wf wf.keeps_commit split: keeps_splits)
qed simp

lemma complete_wf: "nd_wf nd \<Longrightarrow> keeps nd_wf (complete_second_locked x cfg w op oa by_arg nd)"
  unfolding complete_second_locked_def Let_def
  by (auto simp: inner_wfD intro!: wf.keeps_map wf.keeps_commit split: keeps_splits)

lemma decide_wf: "nd_wf nd \<Longrightarrow> keeps nd_wf (decide_second_device x cfg w cl ep op kid sig rej nd)"
  unfolding decide_second_device_def Let_def
  by (auto simp: inner_wfD intro!: wf.keeps_lock wf.keeps_map wf_cleanup complete_wf split: keeps_splits)

lemma tunnel_challenge_wf: "nd_wf nd \<Longrightarrow> keeps nd_wf (issue_token_challenge x w nonce cid nd)"
  unfolding issue_token_challenge_def
  by (auto intro: issue_wf [OF _ inner_wfD] intro!: wf.keeps_lock split: prod.splits)

lemma spend_proof_wf:
  assumes "spend_challenge_proof x w nonce c t s i = (r, i')" "inner_wf i"
  shows "inner_wf i'"
proof -
  define ps where "ps = filter (\<lambda>(_, t, _). i64_sat_add t LOCAL_CHALLENGE_PROOF_WINDOW_SECS \<ge> w_unix w)
      (in_local_challenge_proofs i)"
  have i0: "inner_wf (i \<lparr> in_local_challenge_proofs := ps \<rparr>)"
    using assms(2) by (simp add: inner_wf_def proofs_wf_filter ps_def)
  obtain q j where j: "issue_token_challenge_locked x (w_instant w) nonce c (i \<lparr> in_local_challenge_proofs := ps \<rparr>) = (q, j)"
    by (rule prod.exhaust)
  have ps: "proofs_wf ps" using i0 by (simp add: inner_wf_def)
  have "inner_wf (j \<lparr> in_local_challenge_proofs := (c, t, s) # ps \<rparr>)"
    if "(c, t, s) \<notin> set ps" "length ps < MAX_LOCAL_CHALLENGE_PROOFS" "proofs_of c ps < MAX_LOCAL_CHALLENGE_PROOFS_PER_CLIENT"
    using issue_wf [OF j i0] that ps by (auto simp: inner_wf_def proofs_wf_def proofs_of_def)
  then show ?thesis using assms(1) issue_wf [OF j i0] i0 j unfolding spend_challenge_proof_def Let_def ps_def [symmetric]
    by (auto simp: proofs_of_def not_le split: if_splits sum.splits)
qed

lemma verified_challenge_wf:
  "nd_wf nd \<Longrightarrow> keeps nd_wf (issue_verified_local_token_challenge x w nonce r ts sg nd)"
  unfolding issue_verified_local_token_challenge_def Let_def
  by (auto intro: spend_proof_wf [OF _ inner_wfD] intro!: wf.keeps_lock split: prod.splits)

lemma challenge_wf: "nd_wf nd \<Longrightarrow> keeps nd_wf (issue_local_token_challenge x w w' nonce cid ts sig nd)"
  unfolding issue_local_token_challenge_def
  by (auto intro!: wf.keeps_lock verified_challenge_wf split: keeps_splits)

lemma token_wf: "nd_wf nd \<Longrightarrow> keeps nd_wf (issue_token_kind x cfg w kind secret cid ch sig nd)"
  unfolding issue_token_kind_def Let_def
  by (auto simp: inner_wfD inner_wf_challenges intro!: wf.keeps_lock wf.keeps_finish split: keeps_splits)

lemma bump_wf: "nd_wf nd \<Longrightarrow> keeps nd_wf (bump_epoch x cfg w cid nd)"
  unfolding bump_epoch_def Let_def by (auto intro!: wf_rules split: keeps_splits)

lemma revoke_wf: "nd_wf nd \<Longrightarrow> keeps nd_wf (revoke x cfg w cid nd)"
proof -
  have "inner_wf (i \<lparr> in_file := f, in_token_challenges := bt_retain Q (in_token_challenges i) \<rparr>)" if "inner_wf i" for i f Q
    using that by (simp add: inner_wf_def challenges_wf_retain)
  moreover assume "nd_wf nd"
  ultimately show ?thesis unfolding revoke_def Let_def
    by (auto simp: inner_wfD intro!: wf.keeps_lock wf.keeps_map wf.keeps_save split: keeps_splits)
qed

lemma rotate_wf: "nd_wf nd \<Longrightarrow> keeps nd_wf (rotate_client_key x cfg w cid key sig nd)"
  unfolding rotate_client_key_def Let_def by (auto intro!: wf_rules split: keeps_splits)

lemma rebind_wf: "nd_wf nd \<Longrightarrow> keeps nd_wf (rebind_to_identity w fp nd)"
proof -
  have "inner_wf (i \<lparr> in_file := f, in_identity_fingerprint := fp, in_pending := [], in_owner_confirmations := [] \<rparr>)"
    if "inner_wf i" for i f using that by (simp add: inner_wf_def pending_wf_def)
  moreover assume "nd_wf nd"
  ultimately show ?thesis unfolding rebind_to_identity_def Let_def
    by (auto simp: inner_wfD intro!: wf.keeps_lock wf.keeps_finish)
qed

lemma console_wf: "nd_wf nd \<Longrightarrow> keeps nd_wf (console_revoke_devices x pj cfg w opt typed nd)"
  unfolding console_revoke_devices_def Let_def
  by (auto simp: inner_wfD inner_wf_challenges intro!: wf.keeps_lock wf.keeps_map wf.keeps_commit split: keeps_splits)

lemma open_wf:
  assumes "open_service w1 w2 w3 fp found d = Some (Inr nd', d')"
  shows "nd_wf nd'"
proof -
  have fresh: "inner_wf (fresh_inner f fp)" for f
    by (simp add: inner_wf_def fresh_inner_def pending_wf_def challenges_wf_def proofs_wf_def
        challenges_of_def proofs_of_def bt_wf_def)
  define nd0 where "nd0 = \<lparr> nd_inner = fresh_inner (snd (upgrade_funding found)) fp, nd_disk = d \<rparr>"
  have nd0: "nd_wf nd0" using fresh by (simp add: nd_wf_def nd0_def)
  note body = assms [unfolded open_service_def Let_def split_beta, folded nd0_def]
  obtain q nd1 where q: "(if fst (upgrade_funding found) then save_node w1 nd0 else Some (Inr (), nd0)) = Some (q, nd1)"
    using body by (auto simp: bind_eq_Some_conv split: if_splits)
  have nd1: "nd_wf nd1" using q nd0 wf.save_keeps [of w1 nd0 q nd1] by (auto split: if_splits)
  obtain p g d2 where p: "prune_expired_locked (w_save w2) (w_unix w2) (nd_file nd1) (nd_disk nd1) = Some (p, g, d2)"
    using body q by (cases q; cases "prune_expired_locked (w_save w2) (w_unix w2) (nd_file nd1) (nd_disk nd1)")
      (auto split: if_split_asm)
  obtain z nd3 where z: "sweep_provisional_pairings w3 ((set_file g nd1) \<lparr> nd_disk := d2 \<rparr>) = Some (z, nd3)" "nd3 = nd'"
    using body q p
    by (cases q; cases p; cases "sweep_provisional_pairings w3 ((set_file g nd1) \<lparr> nd_disk := d2 \<rparr>)")
      (auto split: sum.splits if_split_asm)
  have "nd_wf ((set_file g nd1) \<lparr> nd_disk := d2 \<rparr>)" using nd1 by simp
  from keepsD [OF sweep_wf [OF this] z(1)] z(2) show ?thesis by simp
qed

lemmas kept_wf = keepsD [OF request_wf] keepsD [OF confirm_take_wf] keepsD [OF confirm_insert_wf]
  keepsD [OF bootstrap_wf] keepsD [OF remote_wf] keepsD [OF second_wf] keepsD [OF decide_wf]
  keepsD [OF sweep_wf] keepsD [OF challenge_wf] keepsD [OF token_wf] keepsD [OF tunnel_challenge_wf]
  keepsD [OF revoke_wf] keepsD [OF rotate_wf] keepsD [OF rebind_wf] keepsD [OF console_wf] keepsD [OF bump_wf]

lemma step_wf:
  assumes "service_step x pj s t" "sv_wf s" shows "sv_wf t"
  using assms
proof (induction rule: service_step.induct)
  case (other nd nd')
  then show ?case by (auto simp: outside_def nd_wf_def inner_wf_def challenges_wf_filter)
next
  case (rescan w nd nd0 code key t r'' nd')
  have "nd_wf nd0" using wf.lock_keeps [OF rescan(1)] rescan.prems by simp
  from keepsD [OF rescan_wf [OF this] rescan(2)] show ?case by simp
next
  case (charge w nd nd0 op m r'' nd')
  have "nd_wf nd0" using wf.lock_keeps [OF charge(1)] charge.prems by simp
  from keepsD [OF charge_wf [OF this] charge(2)] show ?case by simp
next
  case (start found d w1 w2 w3 fp nd' d')
  then show ?case using open_wf [OF start(2)] by simp
next
  case (bump cfg w c nd re nd')
  have "nd_wf nd" using bump.prems by simp
  from keepsD [OF bump_wf [OF this] bump(1)] show ?case by simp
qed (simp_all only: sv_wf.simps, (rule kept_wf, assumption, assumption)+)

lemma run_wf:
  assumes "service_run x pj s t" "sv_wf s" shows "sv_wf t"
  using assms by (induction rule: rtranclp_induct) (auto intro: step_wf)

lemma sample_start:
  "open_service sample_world sample_world sample_world [] pairing_file_new [pairing_file_new]
   = Some (Inr \<lparr> nd_inner = fresh_inner pairing_file_new [], nd_disk = [pairing_file_new] \<rparr>, [pairing_file_new])"
  by (simp add: open_service_def upgrade_funding_def pairing_file_new_def PAIRING_FILE_VERSION_def
      prune_expired_locked_def has_dead_grant_def sweep_provisional_pairings_def lock_node_def sample_world_def
      fresh_inner_def set_file_def set_inner_def Let_def sweep_ids_def prune_owner_confirmations_def drop_used_tickets_def bt_retain_def)

text \<open>
  (C38) Once started, the service is never in a malformed state: after any sequence of
  requests, restarts and failures there are at most 32 pairing ceremonies, at most 128 token
  challenges and 8 of one client, and at most 4096 remembered challenge proofs and 128 of one
  client, no proof is remembered twice, and every map has one entry per key.
\<close>
theorem service_wellformed:
  assumes "service_run x pj (Down d) (Up nd)"
  shows "bt_wf (in_pending (nd_inner nd)) \<and> length (in_pending (nd_inner nd)) \<le> 32
    \<and> bt_wf (in_token_challenges (nd_inner nd)) \<and> length (in_token_challenges (nd_inner nd)) \<le> 128
    \<and> challenges_of c (in_token_challenges (nd_inner nd)) \<le> 8
    \<and> distinct (in_local_challenge_proofs (nd_inner nd)) \<and> length (in_local_challenge_proofs (nd_inner nd)) \<le> 4096
    \<and> proofs_of c (in_local_challenge_proofs (nd_inner nd)) \<le> 128"
proof -
  have "inner_wf (nd_inner nd)" using run_wf [OF assms] by (simp add: nd_wf_def)
  then show ?thesis
    by (simp add: inner_wf_def pending_wf_def challenges_wf_def proofs_wf_def MAX_PENDING_PAIRINGS_def
        MAX_LIVE_TOKEN_CHALLENGES_def MAX_LIVE_TOKEN_CHALLENGES_PER_CLIENT_def
        MAX_LOCAL_CHALLENGE_PROOFS_def MAX_LOCAL_CHALLENGE_PROOFS_PER_CLIENT_def)
qed

theorem service_wellformed_witness:
  "service_run sample_pairing_ops (\<lambda>_. []) (Down [pairing_file_new])
     (Up \<lparr> nd_inner = fresh_inner pairing_file_new [], nd_disk = [pairing_file_new] \<rparr>)
   \<and> bt_wf (in_pending (fresh_inner pairing_file_new []))"
proof -
  have "service_run sample_pairing_ops (\<lambda>_. []) (Down [pairing_file_new])
     (Up \<lparr> nd_inner = fresh_inner pairing_file_new [], nd_disk = [pairing_file_new] \<rparr>)"
    using service_step.start [OF _ sample_start] by (intro r_into_rtranclp) simp
  with service_wellformed [OF this] show ?thesis by simp
qed

end
