(* ===== verification/Cascade.thy ===== *)
theory Cascade
  imports Pairing_Steps
begin

text \<open>
  Revoking a device key on the console with everything it approved. The walk over the keys is
  compared with an inductive description of the devices that owe their authority to the root,
  and a confirmed cascade removes exactly those.
\<close>

section \<open>The devices that descend from a key\<close>

abbreviation key_of :: "device_key list \<Rightarrow> string \<Rightarrow> device_key option" where
  "key_of keys kid \<equiv> find (\<lambda>k. dk_key_id k = kid) keys"

text \<open>
  A device owes its authority to the root when a descendant approved it, or when its pairing
  goes because a descendant that is not kept is on that pairing.
\<close>

inductive descends :: "revoke_options \<Rightarrow> device_key list \<Rightarrow> string \<Rightarrow> bool" for opt keys where
  first: "descends opt keys (ro_root opt)"
| approved: "descends opt keys kid \<Longrightarrow> k \<in> set keys \<Longrightarrow> provenance_parent (dk_enrolled_by k) = Some kid
    \<Longrightarrow> descends opt keys (dk_key_id k)"
| same_pairing: "descends opt keys kid \<Longrightarrow> kid \<notin> set (ro_keep opt) \<Longrightarrow> key_of keys kid = Some k0
    \<Longrightarrow> k \<in> set keys \<Longrightarrow> dk_client_id k = dk_client_id k0 \<Longrightarrow> descends opt keys (dk_key_id k)"

definition cascaded :: "revoke_options \<Rightarrow> device_key list \<Rightarrow> string \<Rightarrow> bool" where
  "cascaded opt keys kid \<longleftrightarrow> descends opt keys kid \<and> kid \<notin> set (ro_keep opt)"

definition cascaded_client :: "revoke_options \<Rightarrow> device_key list \<Rightarrow> string \<Rightarrow> bool" where
  "cascaded_client opt keys cid \<longleftrightarrow>
     (\<exists>kid k. cascaded opt keys kid \<and> key_of keys kid = Some k \<and> dk_client_id k = cid)"

section \<open>Samples\<close>

definition sample_key :: "string \<Rightarrow> string \<Rightarrow> device_key" where
  "sample_key kid by_whom =
     \<lparr> dk_key_id = kid, dk_client_id = kid, dk_public_key = [], dk_name = ''phone'', dk_registered_at = 900,
       dk_epoch = 1, dk_client_pubkey = ''k'', dk_owner_approval = [], dk_enrolled_by = by_whom \<rparr>"

definition sample_keyed_node :: node where
  "sample_keyed_node =
     (let f = pairing_file_new \<lparr> pf_device_keys := [sample_key ''a'' ''console'', sample_key ''b'' ''device:a''] \<rparr>
      in \<lparr> nd_inner = fresh_inner f ''id'', nd_disk = [f] \<rparr>)"

definition sample_options :: revoke_options where
  "sample_options =
     \<lparr> ro_root = ''a'', ro_cascade = True, ro_with_pairing = True, ro_keep = [], ro_allow_zero_owner = True \<rparr>"

definition sample_typed :: string where
  "sample_typed = hex_encode sample_pairing_ops (blake3 sample_pairing_ops [])"

section \<open>Facts\<close>

lemma revoke_key_of_simps [simp]:
  "rk_key_id (revoke_key_of k) = dk_key_id k" "rk_client_id (revoke_key_of k) = dk_client_id k"
  by (simp_all add: revoke_key_of_def)

lemma key_of_SomeD: "key_of keys kid = Some k \<Longrightarrow> k \<in> set keys \<and> dk_key_id k = kid"
  by (auto simp: find_Some_iff)

lemma key_of_in: "k \<in> set keys \<Longrightarrow> \<exists>k'. key_of keys (dk_key_id k) = Some k'"
  by (cases "key_of keys (dk_key_id k)") (auto simp: find_None_iff)

lemma descends_next:
  "ro_cascade opt \<Longrightarrow> descends opt keys kid \<Longrightarrow> kid' \<in> set (walk_next opt keys kid) \<Longrightarrow> descends opt keys kid'"
  by (cases "key_of keys kid")
    (auto simp: walk_next_def siblings_of_def approved_by_def intro: descends.intros split: if_splits)

lemma closed_descends:
  assumes "ro_cascade opt" "ro_root opt \<in> V" "\<And>v. v \<in> V \<Longrightarrow> set (walk_next opt keys v) \<subseteq> V" "descends opt keys kid"
  shows "kid \<in> V"
  using assms(4)
proof induction
  case first then show ?case by (rule assms(2))
next
  case (approved kid k)
  then have "dk_key_id k \<in> set (walk_next opt keys kid)" by (auto simp: walk_next_def approved_by_def)
  then show ?case using assms(3) approved by blast
next
  case (same_pairing kid k0 k)
  then have "dk_key_id k \<in> set (walk_next opt keys kid)"
    using assms(1) by (auto simp: walk_next_def siblings_of_def)
  then show ?case using assms(3) same_pairing by blast
qed

lemma walk_invariant:
  assumes "ro_cascade opt" "\<forall>v \<in> set visited \<union> set queue. descends opt keys v"
    "ro_root opt \<in> set visited \<union> set queue"
    "\<forall>v \<in> set visited. set (walk_next opt keys v) \<subseteq> set visited \<union> set queue"
    "set chain = {revoke_key_of k | k v. v \<in> set visited \<and> key_of keys v = Some k}"
  shows "set (revoke_walk opt keys queue visited chain)
    = {revoke_key_of k | k v. descends opt keys v \<and> key_of keys v = Some k}"
  using assms
proof (induction opt keys queue visited chain rule: revoke_walk.induct)
  case (1 opt keys visited chain)
  then have "descends opt keys v \<longleftrightarrow> v \<in> set visited" for v
    using closed_descends [of opt "set visited" keys v] by auto
  then show ?case using 1 by simp
next
  case (2 opt keys kid queue visited chain)
  show ?case
  proof (cases "kid \<in> set visited")
    case True
    then show ?thesis using "2.IH"(1) "2.prems" by (simp add: insert_absorb)
  next
    case False
    let ?chain = "case key_of keys kid of None \<Rightarrow> chain | Some key \<Rightarrow> chain @ [revoke_key_of key]"
    have "set ?chain = {revoke_key_of k | k v. v \<in> set (kid # visited) \<and> key_of keys v = Some k}"
      using "2.prems"(5) by (auto split: option.splits)
    moreover have "\<forall>v \<in> set (kid # visited) \<union> set (queue @ walk_next opt keys kid). descends opt keys v"
      using "2.prems"(1,2) descends_next by auto
    moreover have "\<forall>v \<in> set (kid # visited).
        set (walk_next opt keys v) \<subseteq> set (kid # visited) \<union> set (queue @ walk_next opt keys kid)"
      using "2.prems"(4) by fastforce
    ultimately show ?thesis using "2.IH"(2) [OF False "2.prems"(1)] "2.prems"(3) False by auto
  qed
qed

text \<open>The walk of the code finds the descendants, in whatever order it meets them.\<close>

lemma walk_descends:
  "ro_cascade opt \<Longrightarrow> set (revoke_walk opt keys [ro_root opt] [] [])
     = {revoke_key_of k | k v. descends opt keys v \<and> key_of keys v = Some k}"
  by (rule walk_invariant) (auto intro: descends.first)

lemma fold_insort: "set (fold insort_insert xs ys) = set xs \<union> set ys"
  by (induction xs arbitrary: ys) (auto simp: set_insort_insert)

lemma fold_add_keys:
  "rk_key_id ` set (fold (\<lambda>k acc. if dk_key_id k \<in> rk_key_id ` set acc then acc else acc @ [revoke_key_of k]) ks acc)
   = rk_key_id ` set acc \<union> dk_key_id ` set ks"
  by (induction ks arbitrary: acc) auto

lemma plan_removes:
  assumes "revoke_plan_for x cfg opt i = Inr plan" "ro_cascade opt"
  shows "k \<in> set (pf_device_keys (in_file i))
      \<Longrightarrow> dk_key_id k \<in> rk_key_id ` set (rp_keys plan) \<longleftrightarrow> cascaded opt (pf_device_keys (in_file i)) (dk_key_id k)"
    and "cid \<in> set (rp_pairings plan) \<longleftrightarrow> cascaded_client opt (pf_device_keys (in_file i)) cid"
proof -
  let ?keys = "pf_device_keys (in_file i)"
  let ?keep = "\<lambda>k. (ro_cascade opt \<or> rk_key_id k = ro_root opt) \<and> rk_key_id k \<notin> set (ro_keep opt)"
  define ks where "ks = filter ?keep (revoke_walk opt ?keys [ro_root opt] [] [])"
  define ps where "ps = fold insort_insert (map rk_client_id ks) []"
  have ks: "set ks = {revoke_key_of k | k v. cascaded opt ?keys v \<and> key_of ?keys v = Some k}"
    unfolding ks_def set_filter walk_descends [OF assms(2)] cascaded_def using assms(2)
    by (auto dest: key_of_SomeD) (metis key_of_SomeD)
  have ps: "cid \<in> set ps \<longleftrightarrow> cascaded_client opt ?keys cid" for cid
    by (force simp: ps_def fold_insort ks cascaded_client_def)
  obtain out where out: "add_pairing_keys (ro_keep opt) ?keys ps ks = Inr out" "rp_keys plan = out" "rp_pairings plan = ps"
    using assms by (auto simp: revoke_plan_for_def Let_def ks_def ps_def split: if_splits sum.splits)
  let ?on = "filter (\<lambda>k. dk_client_id k \<in> set ps) ?keys"
  have on: "cascaded opt ?keys (dk_key_id k)" if "k \<in> set ?on" for k
    using that out(1) ps
    by (auto simp: add_pairing_keys_def Let_def list_ex_iff cascaded_client_def cascaded_def
        intro: descends.same_pairing split: if_splits)
  have ids: "rk_key_id ` set out = rk_key_id ` set ks \<union> dk_key_id ` set ?on"
    using out(1) fold_add_keys [of ?on ks] unfolding add_pairing_keys_def Let_def by (simp split: if_splits)
  have rk: "v \<in> rk_key_id ` set ks \<longleftrightarrow> cascaded opt ?keys v \<and> key_of ?keys v \<noteq> None" for v
  proof
    assume "v \<in> rk_key_id ` set ks"
    then obtain k u where "cascaded opt ?keys u" "key_of ?keys u = Some k" "v = dk_key_id k" by (auto simp: ks)
    then show "cascaded opt ?keys v \<and> key_of ?keys v \<noteq> None" by (auto dest: key_of_SomeD)
  next
    assume "cascaded opt ?keys v \<and> key_of ?keys v \<noteq> None"
    then obtain k where k: "key_of ?keys v = Some k" "revoke_key_of k \<in> set ks" unfolding ks by auto
    then show "v \<in> rk_key_id ` set ks" using key_of_SomeD [OF k(1)] by (auto intro!: image_eqI [of _ _ "revoke_key_of k"])
  qed
  show "cid \<in> set (rp_pairings plan) \<longleftrightarrow> cascaded_client opt ?keys cid" using ps out(3) by simp
  show "dk_key_id k \<in> rk_key_id ` set (rp_keys plan) \<longleftrightarrow> cascaded opt ?keys (dk_key_id k)" if "k \<in> set ?keys"
    using rk [of "dk_key_id k"] ids on key_of_in [OF that] out(2) by auto
qed

lemma retire_pairing_fields [simp]:
  "pf_clients (retire_pairing c f) = pf_clients f" "pf_device_keys (retire_pairing c f) = pf_device_keys f"
  by (auto simp: retire_pairing_def file_revoke_grants_def raise_epoch_def split: option.splits)

lemma fold_retire_fields [simp]:
  "pf_clients (fold retire_pairing cs f) = pf_clients f"
  "pf_device_keys (fold retire_pairing cs f) = pf_device_keys f"
  by (induction cs arbitrary: f) auto

lemma fold_relation_fields [simp]:
  "pf_clients (fold (\<lambda>k. end_relation_grants (rk_client_id k)) ks f) = pf_clients f"
  "pf_device_keys (fold (\<lambda>k. end_relation_grants (rk_client_id k)) ks f) = pf_device_keys f"
  "pf_last_epoch (fold (\<lambda>k. end_relation_grants (rk_client_id k)) ks f) = pf_last_epoch f"
  by (induction ks arbitrary: f) (auto simp: end_relation_grants_def)

lemma retire_pairing_epoch:
  "bt_get_or 0 (pf_last_epoch (retire_pairing c f)) d =
     (case find_client c f of None \<Rightarrow> bt_get_or 0 (pf_last_epoch f) d
      | Some r \<Rightarrow> if d = c then max (bt_get_or 0 (pf_last_epoch f) c) (pc_epoch r) else bt_get_or 0 (pf_last_epoch f) d)"
  by (simp add: retire_pairing_def file_revoke_grants_def raise_epoch_def bt_get_or_insert split: option.splits)

lemma fold_retire_mono: "bt_get_or 0 (pf_last_epoch f) d \<le> bt_get_or 0 (pf_last_epoch (fold retire_pairing cs f)) d"
proof (induction cs arbitrary: f)
  case (Cons c cs)
  have "bt_get_or 0 (pf_last_epoch f) d \<le> bt_get_or 0 (pf_last_epoch (retire_pairing c f)) d"
    by (simp add: retire_pairing_epoch split: option.splits)
  also have "\<dots> \<le> bt_get_or 0 (pf_last_epoch (fold retire_pairing (c # cs) f)) d" using Cons by simp
  finally show ?case .
qed simp

lemma fold_retire_epoch:
  "find_client d f = Some r \<Longrightarrow> d \<in> set cs \<Longrightarrow> pc_epoch r \<le> bt_get_or 0 (pf_last_epoch (fold retire_pairing cs f)) d"
proof (induction cs arbitrary: f)
  case (Cons c cs)
  have same: "find_client d (retire_pairing c f) = find_client d f" by (simp add: find_client_def)
  show ?case
  proof (cases "d = c")
    case True
    then have "pc_epoch r \<le> bt_get_or 0 (pf_last_epoch (retire_pairing c f)) d"
      using Cons.prems by (simp add: retire_pairing_epoch)
    then show ?thesis using fold_retire_mono [of "retire_pairing c f" d cs] by simp
  next
    case False then show ?thesis using Cons same by simp
  qed
qed simp

lemma plan_drops: "c \<in> set (rp_pairings plan) \<Longrightarrow> find_client c (apply_revoke_plan plan f) = None"
  by (auto simp: apply_revoke_plan_def Let_def find_client_def find_None_iff)

lemma plan_epoch:
  "pf_last_epoch (apply_revoke_plan plan f) = pf_last_epoch (fold retire_pairing (rp_pairings plan) f)"
  by (simp add: apply_revoke_plan_def Let_def)

lemma plan_retires:
  "find_client c f = Some r \<Longrightarrow> c \<in> set (rp_pairings plan) \<Longrightarrow> retired c (pc_epoch r) (apply_revoke_plan plan f)"
  by (simp add: retired_def plan_drops plan_epoch fold_retire_epoch)

lemma plan_fields:
  "pf_device_keys (apply_revoke_plan plan f) = filter (\<lambda>k. dk_key_id k \<notin> rk_key_id ` set (rp_keys plan)) (pf_device_keys f)"
  "pf_clients (apply_revoke_plan plan f) = filter (\<lambda>c. pc_client_id c \<notin> set (rp_pairings plan)) (pf_clients f)"
  by (simp_all add: apply_revoke_plan_def Let_def)

lemma confirmed_revocation:
  assumes "console_revoke_devices x pj cfg w opt (Some typed) nd = Some (Inr plan, nd')"
  obtains nd0 p where "lock_node w nd = Some nd0" "revoke_plan_for x cfg opt (nd_inner nd0) = Inr p"
    "same_registry (apply_revoke_plan p (nd_file nd0)) (nd_file nd')" "nd_disk nd' = [nd_file nd']"
proof -
  obtain nd0 where nd0: "lock_node w nd = Some nd0"
    using assms by (cases "lock_node w nd") (auto simp: console_revoke_devices_def split: if_splits)
  obtain p where p: "revoke_plan_for x cfg opt (nd_inner nd0) = Inr p"
    using assms nd0 by (cases "revoke_plan_for x cfg opt (nd_inner nd0)")
      (auto simp: console_revoke_devices_def Let_def split: if_splits)
  let ?p = "p \<lparr> rp_confirmation := hex_encode x (blake3 x (pj (opt, p))) \<rparr>"
  have same: "apply_revoke_plan ?p f = apply_revoke_plan p f" for f by (simp add: apply_revoke_plan_def)
  let ?nd1 = "set_file (apply_revoke_plan p (nd_file nd0)) nd0"
  obtain r nd2 where s: "save_node w ?nd1 = Some (r, nd2)"
    using assms nd0 p same by (cases "save_node w ?nd1")
      (auto simp: console_revoke_devices_def Let_def commit_def split: if_splits)
  have fold_in: "in_file (fold drop_provisional cs i) = in_file i" for cs i
    by (induction cs arbitrary: i) (auto simp: drop_provisional_def)
  have "r = Inr ()" "nd_file nd' = nd_file nd2" "nd_disk nd' = nd_disk nd2"
    using assms nd0 p same s by (cases r; auto simp: console_revoke_devices_def Let_def commit_def fold_in split: if_splits)+
  then show thesis using that nd0 p save_frame(1,3) [OF s] by simp
qed

text \<open>
  (C37) A confirmed revocation with cascade removes exactly the device keys that descend from
  the root and are not kept, and exactly the pairings those keys are on; the epochs of the
  removed pairings are retired, so their tokens never work again; and the file on disk is the
  new one.
\<close>
theorem cascade_removes_descendants:
  assumes "console_revoke_devices x pj cfg w opt (Some typed) nd = Some (Inr plan, nd')" "ro_cascade opt"
  defines "keys \<equiv> pf_device_keys (nd_file nd)"
  shows "pf_device_keys (nd_file nd') = filter (\<lambda>k. \<not> cascaded opt keys (dk_key_id k)) keys
    \<and> pf_clients (nd_file nd') = filter (\<lambda>c. \<not> cascaded_client opt keys (pc_client_id c)) (pf_clients (nd_file nd))
    \<and> (\<forall>c r. cascaded_client opt keys c \<and> find_client c (nd_file nd) = Some r \<longrightarrow> nd_retired c (pc_epoch r) nd')"
proof -
  obtain nd0 p where p: "lock_node w nd = Some nd0" "revoke_plan_for x cfg opt (nd_inner nd0) = Inr p"
    and f: "same_registry (apply_revoke_plan p (nd_file nd0)) (nd_file nd')" "nd_disk nd' = [nd_file nd']"
    using confirmed_revocation [OF assms(1)] .
  note lock = same_registry_fields [OF lock_frame(1) [OF p(1)]]
  note new = same_registry_fields [OF f(1)]
  have keys: "pf_device_keys (nd_file nd0) = keys" using lock by (simp add: keys_def)
  have "nd_retired c (pc_epoch r) nd'" if "cascaded_client opt keys c" "find_client c (nd_file nd) = Some r" for c r
    using that plan_retires [of c "nd_file nd0" r p] plan_removes(2) [OF p(2) assms(2)] keys f lock_find [OF p(1), of c]
      retired_same [OF f(1)] by (simp add: nd_retired_def disk_retired_def)
  then show ?thesis using new(1,3) lock(1,3) plan_removes [OF p(2) assms(2)] keys
    by (simp add: plan_fields cong: filter_cong)
qed

lemma sample_keyed_lock: "lock_node sample_world sample_keyed_node = Some sample_keyed_node"
  by (simp add: lock_node_def sample_keyed_node_def Let_def prune_owner_confirmations_def fresh_inner_def
      prune_expired_locked_def has_dead_grant_def pairing_file_new_def bt_retain_def)

lemma sample_plan:
  "\<exists>p. revoke_plan_for sample_pairing_ops cfg sample_options (nd_inner sample_keyed_node) = Inr p"
  by (simp add: revoke_plan_for_def sample_keyed_node_def sample_options_def sample_key_def fresh_inner_def Let_def
      walk_next_def siblings_of_def approved_by_def provenance_parent_def add_pairing_keys_def
      revoke_key_of_def insort_insert_key_def)

lemma plan_grants:
  assumes "pf_grants f = []" "pf_front_door_grants f = []" "pf_version f = v"
  shows "pf_grants (apply_revoke_plan p f) = []" "pf_front_door_grants (apply_revoke_plan p f) = []"
    "pf_version (apply_revoke_plan p f) = v"
proof -
  let ?none = "\<lambda>f. pf_grants f = [] \<and> pf_front_door_grants f = [] \<and> pf_version f = v"
  have pairings: "?none f \<Longrightarrow> ?none (fold retire_pairing cs f)" for cs f
    by (induction cs arbitrary: f)
      (auto simp: retire_pairing_def file_revoke_grants_def raise_epoch_def split: option.splits)
  have keys: "?none f \<Longrightarrow> ?none (fold (\<lambda>k. end_relation_grants (rk_client_id k)) ks f)" for ks f
    by (induction ks arbitrary: f) (auto simp: end_relation_grants_def)
  have "?none (apply_revoke_plan p f)" using keys [OF pairings [of f]] assms by (auto simp: apply_revoke_plan_def Let_def)
  then show "pf_grants (apply_revoke_plan p f) = []" "pf_front_door_grants (apply_revoke_plan p f) = []"
    "pf_version (apply_revoke_plan p f) = v" by auto
qed

lemma sample_cascade:
  "\<exists>plan nd'. console_revoke_devices sample_pairing_ops (\<lambda>_. []) (sample_cfg \<lparr> owner_control_enabled := True \<rparr>)
     sample_world sample_options (Some sample_typed) sample_keyed_node = Some (Inr plan, nd')"
proof -
  obtain p where "revoke_plan_for sample_pairing_ops (sample_cfg \<lparr> owner_control_enabled := True \<rparr>) sample_options
      (nd_inner sample_keyed_node) = Inr p" using sample_plan by blast
  moreover have "pf_grants (nd_file sample_keyed_node) = []" "pf_front_door_grants (nd_file sample_keyed_node) = []"
    "pf_version (nd_file sample_keyed_node) = PAIRING_FILE_VERSION"
    by (simp_all add: sample_keyed_node_def Let_def fresh_inner_def pairing_file_new_def)
  ultimately show ?thesis unfolding console_revoke_devices_def sample_keyed_lock bind.bind_lunit Let_def
    by (simp add: sample_options_def sample_typed_def commit_def sample_save plan_grants)
qed

theorem cascade_removes_descendants_witness:
  "\<exists>plan nd'. console_revoke_devices sample_pairing_ops (\<lambda>_. []) (sample_cfg \<lparr> owner_control_enabled := True \<rparr>)
      sample_world sample_options (Some sample_typed) sample_keyed_node = Some (Inr plan, nd')
    \<and> pf_device_keys (nd_file nd') = filter (\<lambda>k. \<not> cascaded sample_options (pf_device_keys (nd_file sample_keyed_node))
        (dk_key_id k)) (pf_device_keys (nd_file sample_keyed_node))"
proof -
  obtain plan nd' where run: "console_revoke_devices sample_pairing_ops (\<lambda>_. [])
      (sample_cfg \<lparr> owner_control_enabled := True \<rparr>) sample_world sample_options (Some sample_typed) sample_keyed_node
      = Some (Inr plan, nd')" using sample_cascade by blast
  moreover have "ro_cascade sample_options" by (simp add: sample_options_def)
  ultimately show ?thesis using cascade_removes_descendants [OF run] by blast
qed

end
