(* ===== verification/Call_Spend.thy ===== *)
theory Call_Spend
  imports Spend_Budget Kinds
begin

text \<open>
  Durable accounting for one call and its recoverable block payments,
  \<open>konsensus-api/src/spend_budget/calls.rs\<close>: the terms pinned when a call is held, the limits
  each of its payments obeys, and the transfer of funds between a hold, its draws and the
  grant. The readings of the wall clock inside one operation are one argument.
\<close>

section \<open>Terms\<close>

datatype call_payment = Media | Signal

definition call_payment_of_kind :: "u16 \<Rightarrow> call_payment option" where
  "call_payment_of_kind kind =
     (if kind = KIND_CALL_INVITE \<or> kind = KIND_CALL_BLOCK then Some Media
      else if kind = KIND_CALL_ANSWER \<or> kind = KIND_ICE_CANDIDATE \<or> kind = KIND_CALL_HANGUP then Some Signal
      else None)"

definition CALL_CLOSING_MSAT :: u64 where "CALL_CLOSING_MSAT = 1000"

definition call_overflow :: budget_refusal where
  "call_overflow = Unpriced ''call reservation overflow''"

definition with_closing_signal ::
  "u64 \<Rightarrow> u64 \<Rightarrow> call_spend_terms \<Rightarrow> budget_refusal + call_spend_terms" where
  "with_closing_signal price fee t =
     (case checked_add price fee of
        None \<Rightarrow> Inl call_overflow
      | Some amount \<Rightarrow>
          (case checked_add (ct_reserved_msat t) (max amount CALL_CLOSING_MSAT) of
             None \<Rightarrow> Inl call_overflow
           | Some reserved \<Rightarrow> Inr (t \<lparr> ct_reserved_msat := reserved, ct_closing_fee_msat := fee \<rparr>)))"

definition block_ceiling_msat :: "call_spend_terms \<Rightarrow> u64" where
  "block_ceiling_msat t = sat_add (ct_per_block_msat t) (ct_per_block_fee_msat t)"

definition closing_allowance_msat :: "call_spend_terms \<Rightarrow> u64" where
  "closing_allowance_msat t =
     sat_sub (ct_reserved_msat t) (sat_mul (block_ceiling_msat t) (ucast (ct_max_call_minutes t)))"

definition call_spend_terms_new ::
  "string \<Rightarrow> string \<Rightarrow> u64 \<Rightarrow> u64 \<Rightarrow> u16 \<Rightarrow> budget_refusal + call_spend_terms" where
  "call_spend_terms_new peer call_id price fee max_call_minutes =
     (if \<not> (1 \<le> max_call_minutes \<and> max_call_minutes \<le> 240)
      then Inl (Unpriced ''call duration must be between 1 and 240 minutes'')
      else
        (case Option.bind (checked_add price fee) (\<lambda>amount. checked_mul amount (ucast max_call_minutes)) of
           None \<Rightarrow> Inl call_overflow
         | Some reserved \<Rightarrow>
             Inr \<lparr> ct_peer = peer, ct_call_id = call_id, ct_per_block_msat = price,
                   ct_per_block_fee_msat = fee, ct_max_call_minutes = max_call_minutes,
                   ct_reserved_msat = reserved, ct_closing_fee_msat = 0, ct_direct = False \<rparr>))"

definition over_direct_channel :: "bool \<Rightarrow> call_spend_terms \<Rightarrow> call_spend_terms" where
  "over_direct_channel direct t = t \<lparr> ct_direct := direct \<rparr>"

section \<open>Holds\<close>

definition call_spend_new :: "call_spend_terms \<Rightarrow> call_spend" where
  "call_spend_new t =
     \<lparr> cs_terms = t, cs_spent_msat = 0, cs_released_msat = 0, cs_closed = False,
       cs_outcome_recorded = False, cs_payment_failed = False, cs_finished_at = None,
       cs_draws = [], cs_paid_sequences = [] \<rparr>"

record call_spend_status =
  st_max_call_minutes :: u16
  st_reserved_msat :: u64
  st_spent_msat :: u64
  st_remaining_msat :: u64
  st_per_block_msat :: u64
  st_per_block_fee_msat :: u64
  st_released_msat :: u64
  st_closed :: bool
  st_direct :: bool

definition call_status :: "call_spend \<Rightarrow> call_spend_status" where
  "call_status c =
     \<lparr> st_max_call_minutes = ct_max_call_minutes (cs_terms c),
       st_reserved_msat = ct_reserved_msat (cs_terms c), st_spent_msat = cs_spent_msat c,
       st_remaining_msat =
         sat_sub (sat_sub (ct_reserved_msat (cs_terms c)) (cs_spent_msat c)) (cs_released_msat c),
       st_per_block_msat = ct_per_block_msat (cs_terms c),
       st_per_block_fee_msat = ct_per_block_fee_msat (cs_terms c),
       st_released_msat = cs_released_msat c, st_closed = cs_closed c,
       st_direct = ct_direct (cs_terms c) \<rparr>"

section \<open>Limits of call payments\<close>

definition call_payment_limit :: "string \<Rightarrow> grant_budget \<Rightarrow> u64" where
  "call_payment_limit peer b =
     (if gb_recipients_only b then bt_get_or 0 (gb_per_act_max_by_recipient b) peer
      else gb_per_call_max_msat b)"

definition check_call_hold :: "call_spend_terms \<Rightarrow> grant_budget \<Rightarrow> budget_refusal option" where
  "check_call_hold t b =
     (let max_msat = call_payment_limit (ct_peer t) b
      in if block_ceiling_msat t > max_msat then Some (PerCall max_msat) else None)"

fun call_debit_limit :: "string \<Rightarrow> call_payment \<Rightarrow> grant_budget \<Rightarrow> u64" where
  "call_debit_limit peer Media b = call_payment_limit peer b"
| "call_debit_limit peer Signal b = min (call_payment_limit peer b) (messaging_per_call_max_msat b)"

definition check_call_closing :: "call_spend_terms \<Rightarrow> grant_budget \<Rightarrow> budget_refusal option" where
  "check_call_closing t b =
     (let closing = closing_allowance_msat t; max_msat = call_debit_limit (ct_peer t) Signal b
      in if closing > max_msat then Some (CallClosingAboveLimit closing max_msat) else None)"

fun check_call_debit :: "charge list \<Rightarrow> call_payment \<Rightarrow> grant_budget \<Rightarrow> budget_refusal option" where
  "check_call_debit [] purpose b = None"
| "check_call_debit (c # cs) purpose b =
     (let max_msat = call_debit_limit (ch_recipient c) purpose b
      in if ch_amount_msat c > max_msat then Some (PerCall max_msat)
         else check_call_debit cs purpose b)"

section \<open>Outcomes of a call\<close>

definition finished_call :: "call_spend \<Rightarrow> bool" where
  "finished_call c = (cs_closed c \<and> cs_draws c = [] \<and> cs_outcome_recorded c)"

text \<open>A receipt written before compaction existed is upgraded.\<close>

definition upgrade_receipt :: "int \<Rightarrow> call_spend \<Rightarrow> call_spend" where
  "upgrade_receipt now c =
     (if finished_call c
      then c \<lparr> cs_paid_sequences := [],
               cs_finished_at := Some (case cs_finished_at c of Some t \<Rightarrow> t | None \<Rightarrow> now) \<rparr>
      else c)"

text \<open>
  The finished receipts in the order of their end, ties by identity: the map is ordered by
  identity and the sort is stable.
\<close>

definition finished_ids :: "(string, call_spend) btmap \<Rightarrow> (int \<times> string) list" where
  "finished_ids m =
     sort_key fst [(the (cs_finished_at c), rid). (rid, c) \<leftarrow> m, finished_call c]"

definition prune_call_tombstones :: "int \<Rightarrow> grant_budget \<Rightarrow> grant_budget" where
  "prune_call_tombstones now b =
     (let upgraded = map (\<lambda>(rid, c). (rid, upgrade_receipt now c)) (gb_call_reservations b);
          finished = finished_ids upgraded;
          excess = length finished - 256;
          evicted = [rid. (i, (when, rid)) \<leftarrow> zip [0..<length finished] finished,
                         i < excess \<or> i64_sat_sub now when \<ge> 24 * 60 * 60]
      in b \<lparr> gb_call_reservations := fold bt_remove evicted upgraded \<rparr>)"

definition record_call_outcome :: "int \<Rightarrow> string \<Rightarrow> grant_budget \<Rightarrow> grant_budget" where
  "record_call_outcome now rid b =
     (case bt_get (gb_call_reservations b) rid of
        None \<Rightarrow> b
      | Some c \<Rightarrow>
          if cs_closed c \<and> cs_draws c = [] \<and> \<not> cs_outcome_recorded c
          then
            let c' = c \<lparr> cs_outcome_recorded := True, cs_finished_at := Some now,
                         cs_paid_sequences := [] \<rparr>;
                b1 = b \<lparr> gb_call_reservations := bt_insert rid c' (gb_call_reservations b) \<rparr>;
                b2 = (if cs_spent_msat c > 0 \<or> cs_payment_failed c
                      then record_outcome (ct_reserved_msat (cs_terms c)) (cs_spent_msat c) now b1
                      else b1)
            in prune_call_tombstones now b2
          else b)"

definition close_call :: "int \<Rightarrow> string \<Rightarrow> grant_budget \<Rightarrow> grant_budget" where
  "close_call now rid b =
     (case bt_get (gb_call_reservations b) rid of
        None \<Rightarrow> b
      | Some c \<Rightarrow>
          if cs_closed c then b
          else
            let peer = ct_peer (cs_terms c);
                unused = (case bt_get (gb_pending b) rid of
                            None \<Rightarrow> 0 | Some r \<Rightarrow> bt_get_or 0 r peer);
                c' = c \<lparr> cs_closed := True,
                         cs_released_msat := sat_add (cs_released_msat c) unused \<rparr>;
                b1 = b \<lparr> gb_pending := bt_remove rid (gb_pending b),
                         gb_call_reservations := bt_insert rid c' (gb_call_reservations b) \<rparr>
            in record_call_outcome now rid (resolve peer unused 0 b1))"

definition holds_over_limit ::
  "(string \<times> string) option \<Rightarrow> grant_budget \<Rightarrow> (string \<times> budget_refusal) list" where
  "holds_over_limit only b =
     [(rid, the (check_call_hold (cs_terms c) b)). (rid, c) \<leftarrow> gb_call_reservations b,
        \<not> cs_closed c,
        (case only of None \<Rightarrow> True
         | Some (peer, call_id) \<Rightarrow> ct_peer (cs_terms c) = peer \<and> ct_call_id (cs_terms c) = call_id),
        check_call_hold (cs_terms c) b \<noteq> None]"

definition close_holds_over_limit ::
  "int \<Rightarrow> (string \<times> string) option \<Rightarrow> grant_budget \<Rightarrow> budget_refusal option \<times> grant_budget" where
  "close_holds_over_limit now only b =
     fold (\<lambda>(rid, refusal) (_, b'). (Some refusal, close_call now rid b')) (holds_over_limit only b) (None, b)"

text \<open>The hold a reservation was drawn from.\<close>

definition find_parent :: "string \<Rightarrow> string \<Rightarrow> grant_budget \<Rightarrow> (string \<times> call_spend) option" where
  "find_parent rid peer b =
     find (\<lambda>(_, c). ct_peer (cs_terms c) = peer \<and> bt_contains (cs_draws c) rid) (gb_call_reservations b)"

text \<open>
  Unused funds of a resolved draw return to an open hold, or to the grant when the hold is
  closed.
\<close>

definition settle_draw :: "string \<Rightarrow> string \<Rightarrow> bool \<Rightarrow> u64 \<Rightarrow> u64 \<Rightarrow> grant_budget \<Rightarrow> grant_budget" where
  "settle_draw parent peer is_closed reserved actual b =
     (if is_closed then resolve peer reserved actual b
      else
        let b1 = (case Option.bind (bt_get (gb_pending b) parent) (\<lambda>r. bt_get r peer) of
                    None \<Rightarrow> b
                  | Some remaining \<Rightarrow>
                      b \<lparr> gb_pending := bt_insert parent
                            (bt_insert peer (sat_add remaining (sat_sub reserved actual))
                               (the (bt_get (gb_pending b) parent))) (gb_pending b) \<rparr>)
        in if actual > reserved then resolve peer 0 (actual - reserved) b1 else b1)"

text \<open>The hold's own record of a resolved draw.\<close>

definition draw_resolved :: "string \<Rightarrow> u64 \<Rightarrow> u64 \<Rightarrow> bool \<Rightarrow> call_spend \<Rightarrow> call_spend" where
  "draw_resolved rid reserved actual payment_failed c =
     c \<lparr> cs_draws := bt_remove rid (cs_draws c),
         cs_payment_failed := (cs_payment_failed c \<or> payment_failed \<and> actual = 0),
         cs_paid_sequences := (if actual > 0
            then insort_insert (the (bt_get (cs_draws c) rid)) (cs_paid_sequences c)
            else cs_paid_sequences c),
         cs_spent_msat := sat_add (cs_spent_msat c) actual,
         cs_released_msat := (if cs_closed c
            then sat_add (cs_released_msat c) (sat_sub reserved actual)
            else cs_released_msat c) \<rparr>"

definition resolve_call_draw ::
  "int \<Rightarrow> string \<Rightarrow> string \<Rightarrow> u64 \<Rightarrow> u64 \<Rightarrow> bool \<Rightarrow> grant_budget \<Rightarrow> bool \<times> grant_budget" where
  "resolve_call_draw now rid peer reserved actual payment_failed b =
     (case find_parent rid peer b of
        None \<Rightarrow> (False, b)
      | Some (parent, c) \<Rightarrow>
          let b1 = b \<lparr> gb_call_reservations := bt_insert parent
                         (draw_resolved rid reserved actual payment_failed c) (gb_call_reservations b) \<rparr>
          in (True, record_call_outcome now parent (settle_draw parent peer (cs_closed c) reserved actual b1)))"

section \<open>Facts\<close>

text \<open>The parts of a meter that only reservations and resolutions change.\<close>

lemma record_outcome_sel [simp]:
  "gb_used_msat (record_outcome r a now b) = gb_used_msat b"
  "gb_used_by_recipient (record_outcome r a now b) = gb_used_by_recipient b"
  "gb_pending (record_outcome r a now b) = gb_pending b"
  "gb_call_reservations (record_outcome r a now b) = gb_call_reservations b"
  "gb_budget_msat (record_outcome r a now b) = gb_budget_msat b"
  "gb_per_recipient_msat (record_outcome r a now b) = gb_per_recipient_msat b"
  "gb_payment_ids (record_outcome r a now b) = gb_payment_ids b"
  by (simp_all add: record_outcome_def Let_def)

lemma record_outcome_wf [simp]:
  "bt_wf (sb_buckets (gb_breaker_state b)) \<Longrightarrow> bt_wf (sb_buckets (gb_breaker_state (record_outcome r a now b)))"
  by (simp add: record_outcome_def Let_def)

lemma resolve_sel [simp]:
  "gb_breaker_state (resolve p r a b) = gb_breaker_state b"
  "gb_pending (resolve p r a b) = gb_pending b"
  "gb_call_reservations (resolve p r a b) = gb_call_reservations b"
  "gb_budget_msat (resolve p r a b) = gb_budget_msat b"
  "gb_per_recipient_msat (resolve p r a b) = gb_per_recipient_msat b"
  "gb_payment_ids (resolve p r a b) = gb_payment_ids b"
  "bt_wf (gb_used_by_recipient b) \<Longrightarrow> bt_wf (gb_used_by_recipient (resolve p r a b))"
  by (simp_all add: resolve_def Let_def split: prod.splits)

lemma prune_sel [simp]:
  "gb_used_msat (prune_call_tombstones now b) = gb_used_msat b"
  "gb_used_by_recipient (prune_call_tombstones now b) = gb_used_by_recipient b"
  "gb_pending (prune_call_tombstones now b) = gb_pending b"
  "gb_breaker_state (prune_call_tombstones now b) = gb_breaker_state b"
  "gb_budget_msat (prune_call_tombstones now b) = gb_budget_msat b"
  "gb_per_recipient_msat (prune_call_tombstones now b) = gb_per_recipient_msat b"
  "gb_payment_ids (prune_call_tombstones now b) = gb_payment_ids b"
  by (simp_all add: prune_call_tombstones_def Let_def)

lemma record_call_outcome_sel [simp]:
  "gb_used_msat (record_call_outcome now rid b) = gb_used_msat b"
  "gb_used_by_recipient (record_call_outcome now rid b) = gb_used_by_recipient b"
  "gb_pending (record_call_outcome now rid b) = gb_pending b"
  "gb_budget_msat (record_call_outcome now rid b) = gb_budget_msat b"
  "gb_per_recipient_msat (record_call_outcome now rid b) = gb_per_recipient_msat b"
  "gb_payment_ids (record_call_outcome now rid b) = gb_payment_ids b"
  "bt_wf (sb_buckets (gb_breaker_state b)) \<Longrightarrow>
   bt_wf (sb_buckets (gb_breaker_state (record_call_outcome now rid b)))"
  by (simp_all add: record_call_outcome_def Let_def split: option.splits)

text \<open>Calls only disappear once they are finished, and pruning keeps terms and funds.\<close>

lemma fold_bt_remove_get: "map_of (fold bt_remove ks m) k = (if k \<in> set ks then None else map_of m k)"
  by (induction ks arbitrary: m) auto

lemma fold_bt_remove_wf: "bt_wf m \<Longrightarrow> bt_wf (fold bt_remove ks m)"
  by (induction ks arbitrary: m) auto

lemma upgrade_receipt_sel [simp]:
  "cs_terms (upgrade_receipt now c) = cs_terms c" "cs_closed (upgrade_receipt now c) = cs_closed c"
  "cs_draws (upgrade_receipt now c) = cs_draws c"
  by (simp_all add: upgrade_receipt_def)

lemma map_of_upgrade:
  "map_of (map (\<lambda>(rid, c). (rid, upgrade_receipt now c)) m) k = map_option (upgrade_receipt now) (map_of m k)"
  by (induction m) auto

lemma bt_wf_upgrade: "bt_wf m \<Longrightarrow> bt_wf (map (\<lambda>(rid, c). (rid, upgrade_receipt now c)) m)"
  by (simp add: bt_wf_def comp_def case_prod_unfold)

lemma prune_get:
  "bt_get (gb_call_reservations (prune_call_tombstones now b)) rid = Some c' \<Longrightarrow>
   \<exists>c. bt_get (gb_call_reservations b) rid = Some c \<and> c' = upgrade_receipt now c"
  by (auto simp: prune_call_tombstones_def Let_def fold_bt_remove_get map_of_upgrade split: if_splits)

lemma prune_wf: "bt_wf (gb_call_reservations b) \<Longrightarrow> bt_wf (gb_call_reservations (prune_call_tombstones now b))"
  by (simp add: prune_call_tombstones_def Let_def fold_bt_remove_wf bt_wf_upgrade)

lemma open_unfinished [simp]: "\<not> cs_closed c \<Longrightarrow> upgrade_receipt now c = c"
  by (simp add: upgrade_receipt_def finished_call_def)

lemma prune_open:
  "bt_get (gb_call_reservations (prune_call_tombstones now b)) rid = Some c \<Longrightarrow> \<not> cs_closed c \<Longrightarrow>
   bt_get (gb_call_reservations b) rid = Some c"
  by (drule prune_get) auto

lemma record_call_outcome_open:
  "bt_get (gb_call_reservations (record_call_outcome now k b)) rid = Some c \<Longrightarrow> \<not> cs_closed c \<Longrightarrow>
   bt_get (gb_call_reservations b) rid = Some c"
  by (auto simp: record_call_outcome_def Let_def split: option.splits if_splits dest!: prune_open)

lemma record_call_outcome_wf:
  "bt_wf (gb_call_reservations b) \<Longrightarrow> bt_wf (gb_call_reservations (record_call_outcome now k b))"
  by (auto simp: record_call_outcome_def Let_def prune_wf split: option.splits)

lemma draw_resolved_sel [simp]:
  "cs_terms (draw_resolved rid res act failed c) = cs_terms c"
  "cs_closed (draw_resolved rid res act failed c) = cs_closed c"
  by (simp_all add: draw_resolved_def)

text \<open>A resolution moves the tallies by the difference between the outcome and the reservation.\<close>

lemma resolve_used:
  assumes "unat res \<le> unat (gb_used_msat b)" "unat res \<le> unat (bt_get_or 0 (gb_used_by_recipient b) p)"
    "unat (gb_used_msat b) + unat act < 2 ^ 64"
    "unat (bt_get_or 0 (gb_used_by_recipient b) p) + unat act < 2 ^ 64"
  shows "unat (gb_used_msat (resolve p res act b)) = unat (gb_used_msat b) - unat res + unat act"
    and "unat (bt_get_or 0 (gb_used_by_recipient (resolve p res act b)) r)
      = (if r = p then unat (bt_get_or 0 (gb_used_by_recipient b) p) - unat res + unat act
         else unat (bt_get_or 0 (gb_used_by_recipient b) r))"
proof -
  have d: "unat (x - y) = unat x - unat y" if "y \<le> x" for x y :: u64
    using that by (simp add: word_le_nat_alt unat_sub_if')
  consider "act = res" | "act < res" | "res < act" by fastforce
  note c = this
  show "unat (gb_used_msat (resolve p res act b)) = unat (gb_used_msat b) - unat res + unat act"
    using c assms by cases (auto simp: resolve_def Let_def unat_sat_sub unat_sat_add d word_less_nat_alt word_le_nat_alt)
  show "unat (bt_get_or 0 (gb_used_by_recipient (resolve p res act b)) r)
      = (if r = p then unat (bt_get_or 0 (gb_used_by_recipient b) p) - unat res + unat act
         else unat (bt_get_or 0 (gb_used_by_recipient b) r))"
    using c assms
    by cases (auto simp: resolve_def Let_def unat_sat_sub unat_sat_add d word_less_nat_alt word_le_nat_alt
        bt_get_or_insert bt_get_or_remove simp flip: unat_eq_zero split: if_splits)
qed

end
