(* ===== verification/Meter_Steps.thy ===== *)
theory Meter_Steps
  imports Call_Spend
begin

text \<open>
  The transactions of the pairing service on one grant's meter: admitting charges
  (\<open>pairing.rs\<close>, \<open>reserve_spend_locked\<close>), drawing on a call's hold (\<open>pairing/call_spend.rs\<close>,
  \<open>draw_call_spend_for_grant\<close>) and resolving a reserved charge (\<open>pairing.rs\<close>,
  \<open>try_resolve_spend_outcome\<close>). Their sequences form a step relation over the meter and the
  payments made; its invariant is that the meter counts exactly what was paid and what is
  held. Random reservation identities are arguments.
\<close>

section \<open>Admission\<close>

record reservation_authority =
  ra_payment_ids :: "string list"
  ra_payment :: bool
  ra_expected_op_id :: "string option"
  ra_liquidity :: bool
  ra_before_persist :: "(reservation \<Rightarrow> budget_refusal option) option"
  ra_operation :: "operation_link option"
  ra_call :: "call_spend_terms option"
  ra_call_offer :: "(string \<times> u64 option) option"
  ra_in_memory :: bool

definition default_authority :: reservation_authority where
  "default_authority =
     \<lparr> ra_payment_ids = [], ra_payment = False, ra_expected_op_id = None, ra_liquidity = False,
       ra_before_persist = None, ra_operation = None, ra_call = None, ra_call_offer = None,
       ra_in_memory = False \<rparr>"

text \<open>Refusals that leave no observation behind.\<close>

definition ledger_refusal :: "reservation_authority \<Rightarrow> grant_budget \<Rightarrow> budget_refusal option" where
  "ledger_refusal auth b =
     (if \<exists>i \<in> set (ra_payment_ids auth). i \<in> set (gb_payment_ids b) then Some DuplicatePayment
      else if length (gb_payment_ids b) + length (ra_payment_ids auth) > 4096
      then Some (Ledger ''payment deduplication ledger is full; ask the owner for a new grant'')
      else if length (gb_pending b) \<ge> 1024 then Some (Ledger ''too many unresolved reservations'')
      else None)"

text \<open>The limit of a call offer paid under a matching open hold.\<close>

definition offer_limit :: "reservation_authority \<Rightarrow> charge list \<Rightarrow> grant_budget \<Rightarrow> u64 option" where
  "offer_limit auth charges b =
     (case (if ra_call auth = None then ra_call_offer auth else None) of
        None \<Rightarrow> None
      | Some (call_id, cap) \<Rightarrow>
          map_option (\<lambda>c. case cap of Some v \<Rightarrow> v | None \<Rightarrow> block_ceiling_msat (cs_terms c))
            (find (\<lambda>c. \<not> cs_closed c \<and> ct_call_id (cs_terms c) = call_id
                      \<and> list_all (\<lambda>ch. ch_recipient ch = ct_peer (cs_terms c)) charges)
               (map snd (gb_call_reservations b))))"

fun within_limit :: "u64 \<Rightarrow> charge list \<Rightarrow> u64 \<Rightarrow> budget_refusal option" where
  "within_limit max_msat [] t = None"
| "within_limit max_msat (c # cs) t =
     (case checked_add t (ch_amount_msat c) of
        Some t' \<Rightarrow> if t' \<le> max_msat then within_limit max_msat cs t' else Some (PerCall max_msat)
      | None \<Rightarrow> Some (PerCall max_msat))"

definition purpose_refusal :: "reservation_authority \<Rightarrow> charge list \<Rightarrow> grant_budget \<Rightarrow> budget_refusal option" where
  "purpose_refusal auth charges b =
     (case ra_call auth of
        Some terms \<Rightarrow> check_call_closing terms b
      | None \<Rightarrow>
          if ra_payment auth then None
          else within_limit
                 (case offer_limit auth charges b of Some v \<Rightarrow> v | None \<Rightarrow> messaging_per_call_max_msat b)
                 charges 0)"

definition reserve_for_purpose ::
  "reservation_authority \<Rightarrow> charge list \<Rightarrow> int \<Rightarrow> grant_budget \<Rightarrow> budget_refusal + grant_budget" where
  "reserve_for_purpose auth charges now b =
     (case purpose_refusal auth charges b of
        Some r \<Rightarrow> Inl r
      | None \<Rightarrow>
          (case (map_option block_ceiling_msat (ra_call auth), offer_limit auth charges b) of
             (Some per_block, _) \<Rightarrow> reserve_call_at charges per_block now b
           | (None, Some _) \<Rightarrow>
               reserve_call_at charges (fold (\<lambda>c t. sat_add t (ch_amount_msat c)) charges 0) now b
           | (None, None) \<Rightarrow> reserve_at charges now b))"

text \<open>The plain sums per recipient that become the pending entry.\<close>

fun pending_recipients :: "charge list \<Rightarrow> (string, u64) btmap \<Rightarrow> (string, u64) btmap" where
  "pending_recipients [] m = m"
| "pending_recipients (c # cs) m =
     pending_recipients cs
       (bt_insert (ch_recipient c) (bt_get_or 0 m (ch_recipient c) + ch_amount_msat c) m)"

definition record_admission ::
  "string \<Rightarrow> reservation_authority \<Rightarrow> charge list \<Rightarrow> grant_budget \<Rightarrow> grant_budget" where
  "record_admission rid auth charges b =
     (let recipients = pending_recipients charges [];
          b1 = b \<lparr> gb_payment_ids := fold insort_insert (ra_payment_ids auth) (gb_payment_ids b) \<rparr>
      in if recipients = [] then b1
         else b1 \<lparr> gb_pending := bt_insert rid recipients (gb_pending b1),
                   gb_call_reservations := (case ra_call auth of
                        Some terms \<Rightarrow> bt_insert rid (call_spend_new terms) (gb_call_reservations b1)
                      | None \<Rightarrow> gb_call_reservations b1),
                   gb_operation_links := (case ra_operation auth of
                        Some link \<Rightarrow> bt_insert rid link (gb_operation_links b1)
                      | None \<Rightarrow> gb_operation_links b1) \<rparr>)"

text \<open>The whole transaction on the meter; a breaker refusal may leave its observation.\<close>

definition admit_charges ::
  "string \<Rightarrow> reservation_authority \<Rightarrow> charge list \<Rightarrow> int \<Rightarrow> grant_budget
   \<Rightarrow> (budget_refusal + unit) \<times> grant_budget" where
  "admit_charges rid auth charges now b =
     (case ledger_refusal auth b of
        Some r \<Rightarrow> (Inl r, b)
      | None \<Rightarrow>
          (case reserve_for_purpose auth charges now b of
             Inl r \<Rightarrow> (Inl r, snd (record_breaker_refusal r now b))
           | Inr b' \<Rightarrow> (Inr (), record_admission rid auth charges b')))"

section \<open>Draws on a hold\<close>

definition find_call :: "string \<Rightarrow> string \<Rightarrow> grant_budget \<Rightarrow> (string \<times> call_spend) option" where
  "find_call peer call_id b =
     find (\<lambda>(_, c). ct_peer (cs_terms c) = peer \<and> ct_call_id (cs_terms c) = call_id)
       (gb_call_reservations b)"

text \<open>The checks of a draw of \<open>price\<close> and \<open>fee\<close> for block \<open>seq\<close>; \<open>closing\<close> marks the closing signal.\<close>

definition draw_refusal ::
  "call_spend \<Rightarrow> u32 \<Rightarrow> u64 \<Rightarrow> u64 \<Rightarrow> bool \<Rightarrow> budget_refusal + u64" where
  "draw_refusal c seq price fee closing =
     (if cs_closed c \<or> \<not> closing \<and> seq \<ge> ucast (ct_max_call_minutes (cs_terms c))
      then Inl (Unpriced ''call reservation is closed or duration cap reached'')
      else if \<not> closing \<and> (price > ct_per_block_msat (cs_terms c) \<or> fee > ct_per_block_fee_msat (cs_terms c))
      then Inl CallPriceChanged
      else if seq \<in> set (cs_paid_sequences c) \<or> seq \<in> snd ` set (cs_draws c) then Inl DuplicatePayment
      else
        (case checked_add price fee of
           None \<Rightarrow> Inl CallPriceChanged
         | Some amount \<Rightarrow>
             if closing \<and> amount > closing_allowance_msat (cs_terms c) then Inl CallPriceChanged
             else Inr amount))"

definition transfer_draw ::
  "string \<Rightarrow> string \<Rightarrow> string \<Rightarrow> u32 \<Rightarrow> u64 \<Rightarrow> operation_link \<Rightarrow> call_spend \<Rightarrow> (string, u64) btmap
   \<Rightarrow> grant_budget \<Rightarrow> grant_budget" where
  "transfer_draw rid parent peer seq amount link c held b =
     b \<lparr> gb_pending := bt_insert rid [(peer, amount)]
           (bt_insert parent (bt_insert peer (bt_get_or 0 held peer - amount) held) (gb_pending b)),
         gb_call_reservations :=
           bt_insert parent (c \<lparr> cs_draws := bt_insert rid seq (cs_draws c) \<rparr>) (gb_call_reservations b),
         gb_operation_links := bt_insert rid link (gb_operation_links b) \<rparr>"

definition draw_on_hold ::
  "string \<Rightarrow> int \<Rightarrow> string \<Rightarrow> string \<Rightarrow> u32 \<Rightarrow> u64 \<Rightarrow> u64 \<Rightarrow> operation_link \<Rightarrow> bool \<Rightarrow> grant_budget
   \<Rightarrow> (budget_refusal + u64) \<times> grant_budget" where
  "draw_on_hold rid now peer call_id seq price fee link closing b =
     (if is_paused b then (Inl GrantPaused, b)
      else case close_holds_over_limit now (Some (peer, call_id)) b of
        (Some r, b1) \<Rightarrow> (Inl r, b1)
      | (None, _) \<Rightarrow>
          if \<not> envelopes_live b [peer] now then (Inl NoGrant, b)
          else if closing \<and> price > call_debit_limit peer Signal b
          then (Inl (PerCall (call_debit_limit peer Signal b)), b)
          else
            (case find_call peer call_id b of
               None \<Rightarrow> (Inl (Unpriced ''call has no spend reservation''), b)
             | Some (parent, c) \<Rightarrow>
                 (case draw_refusal c seq price fee closing of
                    Inl r \<Rightarrow> (Inl r, b)
                  | Inr amount \<Rightarrow>
                      (case bt_get (gb_pending b) parent of
                         None \<Rightarrow> (Inl (Unpriced ''call reservation is not available''), b)
                       | Some held \<Rightarrow>
                           (case bt_get held peer of
                              None \<Rightarrow> (Inl (Unpriced ''call reservation is not available''), b)
                            | Some remaining \<Rightarrow>
                                if amount > remaining then (Inl (Total remaining), b)
                                else (Inr amount, transfer_draw rid parent peer seq amount link c held b))))))"

section \<open>Resolution\<close>

text \<open>Taking one recipient's part out of a pending reservation.\<close>

definition take_part :: "string \<Rightarrow> string \<Rightarrow> (string, u64) btmap \<Rightarrow> grant_budget \<Rightarrow> grant_budget" where
  "take_part rid p m b =
     (let rest = bt_remove p m
      in if rest = []
         then b \<lparr> gb_pending := bt_remove rid (gb_pending b),
                  gb_operation_links := bt_remove rid (gb_operation_links b) \<rparr>
         else b \<lparr> gb_pending := bt_insert rid rest (gb_pending b) \<rparr>)"

text \<open>
  Resolving one recipient's part of a reservation: \<open>None\<close> is success, also when there is nothing
  to resolve.
\<close>

definition resolve_pending ::
  "int \<Rightarrow> string \<Rightarrow> string \<Rightarrow> u64 \<Rightarrow> bool \<Rightarrow> grant_budget \<Rightarrow> string option \<times> grant_budget" where
  "resolve_pending now rid recipient actual payment_failed b =
     (if bt_contains (gb_call_reservations b) rid
      then (Some ''a call hold must be closed, not resolved as a payment'', b)
      else case bt_get (gb_pending b) rid of
        None \<Rightarrow> (None, b)
      | Some recipients \<Rightarrow>
          (case bt_get recipients recipient of
             None \<Rightarrow> (None, b)
           | Some reserved \<Rightarrow>
               (case resolve_call_draw now rid recipient reserved actual payment_failed
                       (take_part rid recipient recipients b) of
                  (True, b2) \<Rightarrow> (None, b2)
                | (False, b2) \<Rightarrow>
                    (None, record_outcome reserved actual now (resolve recipient reserved actual b2)))))"

definition close_call_reservation :: "int \<Rightarrow> string \<Rightarrow> grant_budget \<Rightarrow> grant_budget" where
  "close_call_reservation now rid b =
     (case bt_get (gb_call_reservations b) rid of
        None \<Rightarrow> b
      | Some c \<Rightarrow> if cs_closed c then b else close_call now rid b)"

definition prune_calls :: "int \<Rightarrow> grant_budget \<Rightarrow> grant_budget" where
  "prune_calls now b = prune_call_tombstones now (snd (close_holds_over_limit now None b))"

section \<open>Runs of a meter\<close>

text \<open>
  A payment fact: the recipient, what was reserved for the payment and what it cost. The history
  of a meter is the list of its payment facts.
\<close>

type_synonym history = "(string \<times> u64 \<times> u64) list"

definition paid_total :: "history \<Rightarrow> nat" where
  "paid_total h = (\<Sum>(_, _, actual) \<leftarrow> h. unat actual)"

definition paid_to :: "string \<Rightarrow> history \<Rightarrow> nat" where
  "paid_to r h = (\<Sum>(r', _, actual) \<leftarrow> h. if r' = r then unat actual else 0)"

definition overrun_total :: "history \<Rightarrow> nat" where
  "overrun_total h = (\<Sum>(_, reserved, actual) \<leftarrow> h. unat actual - unat reserved)"

definition overrun_to :: "string \<Rightarrow> history \<Rightarrow> nat" where
  "overrun_to r h = (\<Sum>(r', reserved, actual) \<leftarrow> h. if r' = r then unat actual - unat reserved else 0)"

text \<open>What is held for reservations without an outcome.\<close>

definition held_total :: "grant_budget \<Rightarrow> nat" where
  "held_total b = bt_sum (\<lambda>_. bt_total) (gb_pending b)"

definition held_for :: "string \<Rightarrow> grant_budget \<Rightarrow> nat" where
  "held_for r b = bt_sum (\<lambda>_ m. unat (bt_get_or 0 m r)) (gb_pending b)"

text \<open>A fresh random identity.\<close>

definition fresh_id :: "string \<Rightarrow> grant_budget \<Rightarrow> bool" where
  "fresh_id rid b \<longleftrightarrow> \<not> bt_contains (gb_pending b) rid \<and> \<not> bt_contains (gb_call_reservations b) rid
     \<and> \<not> drawn_child b rid"

text \<open>The reservation a resolution settles, if any.\<close>

definition pending_part :: "string \<Rightarrow> string \<Rightarrow> grant_budget \<Rightarrow> u64 option" where
  "pending_part rid recipient b =
     (if bt_contains (gb_call_reservations b) rid then None
      else Option.bind (bt_get (gb_pending b) rid) (\<lambda>m. bt_get m recipient))"

definition settled :: "string \<Rightarrow> string \<Rightarrow> u64 \<Rightarrow> grant_budget \<Rightarrow> history" where
  "settled rid recipient actual b =
     (case pending_part rid recipient b of None \<Rightarrow> [] | Some reserved \<Rightarrow> [(recipient, reserved, actual)])"

text \<open>
  A call's hold is admitted with the single charge of its reserved amount; a resolution does
  not push the tally past 64 bits (the supply of bitcoin in msat is below \<open>2 ^ 61\<close>).
\<close>

inductive meter_step :: "history \<times> grant_budget \<Rightarrow> history \<times> grant_budget \<Rightarrow> bool" where
  meter_admit:
    "admit_charges rid auth charges now b = (res, b') \<Longrightarrow> fresh_id rid b \<Longrightarrow>
     (case ra_call auth of None \<Rightarrow> True
      | Some t \<Rightarrow> charges = [\<lparr> ch_recipient = ct_peer t, ch_amount_msat = ct_reserved_msat t \<rparr>]) \<Longrightarrow>
     meter_step (h, b) (h, b')"
| meter_draw:
    "draw_on_hold rid now peer call_id seq price fee link closing b = (res, b') \<Longrightarrow> fresh_id rid b \<Longrightarrow>
     meter_step (h, b) (h, b')"
| meter_resolve:
    "resolve_pending now rid recipient actual payment_failed b = (res, b') \<Longrightarrow>
     unat (gb_used_msat b) + unat actual < 2 ^ 64 \<Longrightarrow>
     meter_step (h, b) (settled rid recipient actual b @ h, b')"
| meter_close: "meter_step (h, b) (h, close_call_reservation now rid b)"
| meter_limit: "meter_step (h, b) (h, snd (close_holds_over_limit now only b))"
| meter_prune: "meter_step (h, b) (h, prune_calls now b)"
| meter_reset: "meter_step (h, b) (h, reset_breakers b)"

text \<open>The invariant of every run.\<close>

definition open_holds_funded :: "grant_budget \<Rightarrow> bool" where
  "open_holds_funded b \<longleftrightarrow>
     (\<forall>rid c. bt_get (gb_call_reservations b) rid = Some c \<and> \<not> cs_closed c \<longrightarrow>
        (\<exists>x. bt_get (gb_pending b) rid = Some [(ct_peer (cs_terms c), x)]))"

definition meter_inv :: "history \<Rightarrow> grant_budget \<Rightarrow> bool" where
  "meter_inv h b \<longleftrightarrow>
     budget_wf b \<and> open_holds_funded b
     \<and> unat (gb_used_msat b) = paid_total h + held_total b
     \<and> (\<forall>r. unat (bt_get_or 0 (gb_used_by_recipient b) r) = paid_to r h + held_for r b)
     \<and> unat (gb_used_msat b) \<le> unat (gb_budget_msat b) + overrun_total h
     \<and> (\<forall>r cap. bt_get (gb_per_recipient_msat b) r = Some cap \<longrightarrow>
          unat (bt_get_or 0 (gb_used_by_recipient b) r) \<le> unat cap + overrun_to r h)"

text \<open>
  A change that settles \<open>res\<close> msat held for \<open>p\<close> at the cost \<open>act\<close>, as seen by the tallies and the
  held amounts.
\<close>

definition settles :: "string \<Rightarrow> u64 \<Rightarrow> u64 \<Rightarrow> grant_budget \<Rightarrow> grant_budget \<Rightarrow> bool" where
  "settles p res act b b' \<longleftrightarrow>
     gb_budget_msat b' = gb_budget_msat b \<and> gb_per_recipient_msat b' = gb_per_recipient_msat b
     \<and> unat (gb_used_msat b') + unat res = unat (gb_used_msat b) + unat act
     \<and> (\<forall>r. unat (bt_get_or 0 (gb_used_by_recipient b') r) + (if r = p then unat res else 0)
          = unat (bt_get_or 0 (gb_used_by_recipient b) r) + (if r = p then unat act else 0))
     \<and> held_total b' + unat res = held_total b
     \<and> (\<forall>r. held_for r b' + (if r = p then unat res else 0) = held_for r b)"

text \<open>Changes of the breaker history alone.\<close>

definition same_funds :: "grant_budget \<Rightarrow> grant_budget \<Rightarrow> bool" where
  "same_funds b b' \<longleftrightarrow>
     gb_used_msat b' = gb_used_msat b \<and> gb_used_by_recipient b' = gb_used_by_recipient b
     \<and> gb_pending b' = gb_pending b \<and> gb_budget_msat b' = gb_budget_msat b
     \<and> gb_per_recipient_msat b' = gb_per_recipient_msat b
     \<and> (budget_wf b \<longrightarrow> budget_wf b')
     \<and> (\<forall>k c. bt_get (gb_call_reservations b') k = Some c \<and> \<not> cs_closed c \<longrightarrow>
          bt_get (gb_call_reservations b) k = Some c)"

text \<open>No step changes the budget or the caps.\<close>

definition same_terms :: "grant_budget \<Rightarrow> grant_budget \<Rightarrow> bool" where
  "same_terms b b' \<longleftrightarrow> gb_budget_msat b' = gb_budget_msat b \<and> gb_per_recipient_msat b' = gb_per_recipient_msat b"

definition sample_auth :: reservation_authority where
  "sample_auth = default_authority \<lparr> ra_payment := True \<rparr>"

definition sample_admitted :: grant_budget where
  "sample_admitted = snd (admit_charges ''r1'' sample_auth sample_charges 1000 (from_terms (terms_new 100000)))"

definition sample_resolved :: grant_budget where
  "sample_resolved = snd (resolve_pending 1001 ''r1'' ''alice'' 4000 False sample_admitted)"

section \<open>Facts\<close>

lemma history_simps [simp]:
  "paid_total [] = 0" "paid_to r [] = 0" "overrun_total [] = 0" "overrun_to r [] = 0"
  "paid_total ((r', res, act) # h) = unat act + paid_total h"
  "paid_to r ((r', res, act) # h) = (if r' = r then unat act else 0) + paid_to r h"
  "overrun_total ((r', res, act) # h) = unat act - unat res + overrun_total h"
  "overrun_to r ((r', res, act) # h) = (if r' = r then unat act - unat res else 0) + overrun_to r h"
  by (simp_all add: paid_total_def paid_to_def overrun_total_def overrun_to_def)

lemma paid_to_le: "paid_to r h \<le> paid_total h"
  by (induction h) auto

lemma held_for_le: "held_for r b \<le> held_total b"
  unfolding held_for_def held_total_def
proof (induction "gb_pending b" arbitrary: b)
  case (Cons p ps)
  then show ?case
    using bt_total_get_le [of "snd p" r] Cons.hyps(1) [of "b \<lparr> gb_pending := ps \<rparr>"]
    by (cases p) (simp flip: Cons.hyps(2))
qed simp

subsection \<open>Changes of the held amounts\<close>

lemma held_cong:
  "gb_pending b' = gb_pending b \<Longrightarrow> held_total b' = held_total b"
  "gb_pending b' = gb_pending b \<Longrightarrow> held_for r b' = held_for r b"
  by (simp_all add: held_total_def held_for_def)

lemma held_insert_new:
  assumes "bt_wf (gb_pending b)" "\<not> bt_contains (gb_pending b) rid" "gb_pending b' = bt_insert rid m (gb_pending b)"
  shows "held_total b' = held_total b + bt_total m"
    and "held_for r b' = held_for r b + unat (bt_get_or 0 m r)"
  using bt_sum_insert [OF assms(1), of "\<lambda>_. bt_total" rid m]
    bt_sum_insert [OF assms(1), of "\<lambda>_ m. unat (bt_get_or 0 m r)" rid m] assms(2)
  by (simp_all add: held_total_def held_for_def assms(3) bt_at_def)

lemma held_insert_old:
  assumes "bt_wf (gb_pending b)" "bt_get (gb_pending b) rid = Some m" "gb_pending b' = bt_insert rid m' (gb_pending b)"
  shows "held_total b' + bt_total m = held_total b + bt_total m'"
    and "held_for r b' + unat (bt_get_or 0 m r) = held_for r b + unat (bt_get_or 0 m' r)"
  using bt_sum_insert [OF assms(1), of "\<lambda>_. bt_total" rid m']
    bt_sum_insert [OF assms(1), of "\<lambda>_ m. unat (bt_get_or 0 m r)" rid m'] assms(2)
  by (simp_all add: held_total_def held_for_def assms(3) bt_at_def)

lemma held_remove:
  assumes "bt_wf (gb_pending b)" "bt_get (gb_pending b) rid = Some m" "gb_pending b' = bt_remove rid (gb_pending b)"
  shows "held_total b' + bt_total m = held_total b"
    and "held_for r b' + unat (bt_get_or 0 m r) = held_for r b"
  using bt_sum_remove [OF assms(1), of "\<lambda>_. bt_total" rid]
    bt_sum_remove [OF assms(1), of "\<lambda>_ m. unat (bt_get_or 0 m r)" rid] assms(2)
  by (simp_all add: held_total_def held_for_def assms(3) bt_at_def)

subsection \<open>Closing holds\<close>

lemma meter_invD:
  assumes "meter_inv h b"
  shows "budget_wf b" "open_holds_funded b" "unat (gb_used_msat b) = paid_total h + held_total b"
    "unat (bt_get_or 0 (gb_used_by_recipient b) r) = paid_to r h + held_for r b"
    "unat (gb_used_msat b) \<le> unat (gb_budget_msat b) + overrun_total h"
    "bt_get (gb_per_recipient_msat b) r = Some cap \<Longrightarrow>
     unat (bt_get_or 0 (gb_used_by_recipient b) r) \<le> unat cap + overrun_to r h"
  using assms by (auto simp: meter_inv_def)

lemma meter_inv_used_by_le:
  assumes "meter_inv h b"
  shows "unat (bt_get_or 0 (gb_used_by_recipient b) r) \<le> unat (gb_used_msat b)"
  using meter_invD(3,4) [OF assms] paid_to_le held_for_le by (simp add: add_mono)

lemma single_total [simp]:
  "bt_total [(p, x)] = unat x"
  "unat (bt_get_or 0 [(p, x)] r) = (if r = p then unat x else 0)"
  "bt_get_or d [(p, x)] p = x"
  by (auto simp: bt_get_or_def)

lemma meter_inv_settles:
  assumes inv: "meter_inv h b" and wf: "budget_wf b'" "open_holds_funded b'" and s: "settles p res act b b'"
  shows "meter_inv ((p, res, act) # h) b'"
proof -
  note i = meter_invD [OF inv]
  have t: "unat (gb_used_msat b') = unat act + paid_total h + held_total b'"
    "unat (gb_used_msat b') \<le> unat (gb_budget_msat b') + (unat act - unat res + overrun_total h)"
    using s i(3,5) by (auto simp: settles_def)
  have r: "unat (bt_get_or 0 (gb_used_by_recipient b') r) = paid_to r ((p, res, act) # h) + held_for r b'" for r
    using s i(4) [of r] by (auto simp: settles_def dest!: spec [of _ r])
  have c: "unat (bt_get_or 0 (gb_used_by_recipient b') r) \<le> unat cap + overrun_to r ((p, res, act) # h)"
    if "bt_get (gb_per_recipient_msat b') r = Some cap" for r cap
    using s i(6) [of r cap] that by (auto simp: settles_def dest!: spec [of _ r])
  show ?thesis
    using wf t r c by (simp add: meter_inv_def)
qed

lemma meter_inv_history:
  assumes "meter_inv h b" "paid_total h' = paid_total h" "\<And>r. paid_to r h' = paid_to r h"
    "overrun_total h' = overrun_total h" "\<And>r. overrun_to r h' = overrun_to r h"
  shows "meter_inv h' b"
  using assms(1) unfolding meter_inv_def assms(2-5) .

lemma resolve_settles:
  assumes inv: "meter_inv h b"
    and b1: "gb_used_msat b1 = gb_used_msat b" "gb_used_by_recipient b1 = gb_used_by_recipient b"
      "gb_budget_msat b1 = gb_budget_msat b" "gb_per_recipient_msat b1 = gb_per_recipient_msat b"
    and held: "held_total b1 + unat res = held_total b"
      "\<And>r. held_for r b1 + (if r = p then unat res else 0) = held_for r b"
    and lt: "unat (gb_used_msat b) + unat act < 2 ^ 64"
  shows "settles p res act b (resolve p res act b1)"
proof -
  note i = meter_invD [OF inv]
  have le: "unat res \<le> unat (gb_used_msat b1)" "unat res \<le> unat (bt_get_or 0 (gb_used_by_recipient b1) p)"
    using held(1) held(2) [of p] i(3) i(4) [of p] by (simp_all add: b1)
  have lt': "unat (gb_used_msat b1) + unat act < 2 ^ 64"
    "unat (bt_get_or 0 (gb_used_by_recipient b1) p) + unat act < 2 ^ 64"
    using lt meter_inv_used_by_le [OF inv, of p] by (simp_all add: b1)
  note used = resolve_used [OF le lt']
  have "held_total (resolve p res act b1) = held_total b1" "\<And>r. held_for r (resolve p res act b1) = held_for r b1"
    by (rule held_cong; simp)+
  then show ?thesis
    using used le held by (simp add: settles_def b1)
qed

lemma close_call_inv:
  assumes inv: "meter_inv h b"
  shows "meter_inv h (close_call now rid b)"
proof (cases "\<exists>c. bt_get (gb_call_reservations b) rid = Some c \<and> \<not> cs_closed c")
  case False
  then have "close_call now rid b = b"
    by (auto simp: close_call_def split: option.splits)
  then show ?thesis using inv by simp
next
  case True
  then obtain c where c: "bt_get (gb_call_reservations b) rid = Some c" "\<not> cs_closed c" by blast
  let ?p = "ct_peer (cs_terms c)"
  note i = meter_invD [OF inv]
  obtain x where x: "bt_get (gb_pending b) rid = Some [(?p, x)]"
    using i(2) c by (auto simp: open_holds_funded_def)
  define c' where "c' = c \<lparr> cs_closed := True, cs_released_msat := sat_add (cs_released_msat c) x \<rparr>"
  define b1 where "b1 = b \<lparr> gb_pending := bt_remove rid (gb_pending b),
      gb_call_reservations := bt_insert rid c' (gb_call_reservations b) \<rparr>"
  let ?b2 = "close_call now rid b"
  have e: "?b2 = record_call_outcome now rid (resolve ?p x 0 b1)"
    using c x by (simp add: close_call_def Let_def b1_def c'_def)
  have wf: "bt_wf (gb_pending b)" using i(1) by (simp add: budget_wf_def)
  have b1p: "gb_pending b1 = bt_remove rid (gb_pending b)" by (simp add: b1_def)
  note rem = held_remove [OF wf x b1p]
  have "settles ?p x 0 b (resolve ?p x 0 b1)"
    using rem unat_lt_pow [of "gb_used_msat b"]
    by (intro resolve_settles [OF inv]) (simp_all add: b1_def)
  then have "settles ?p x 0 b ?b2"
    using held_cong [of ?b2 "resolve ?p x 0 b1"] by (simp add: settles_def e)
  moreover have "open_holds_funded ?b2"
    unfolding open_holds_funded_def
  proof (intro allI impI)
    fix k d assume k: "bt_get (gb_call_reservations ?b2) k = Some d \<and> \<not> cs_closed d"
    then have "bt_get (gb_call_reservations b1) k = Some d"
      using record_call_outcome_open [of now rid "resolve ?p x 0 b1" k d] by (simp add: e)
    with k have "k \<noteq> rid" "bt_get (gb_call_reservations b) k = Some d"
      by (auto simp: b1_def c'_def split: if_splits)
    with k i(2) show "\<exists>y. bt_get (gb_pending ?b2) k = Some [(ct_peer (cs_terms d), y)]"
      by (auto simp: open_holds_funded_def e b1p)
  qed
  moreover have "budget_wf ?b2"
    using i(1) by (auto simp: budget_wf_def e b1_def intro!: record_call_outcome_wf split: if_splits)
  ultimately have "meter_inv ((?p, x, 0) # h) ?b2"
    using meter_inv_settles [OF inv] by blast
  then show ?thesis by (rule meter_inv_history) simp_all
qed

lemma meter_inv_same:
  assumes inv: "meter_inv h b" and w: "budget_wf b'" "open_holds_funded b'"
    and e: "gb_used_msat b' = gb_used_msat b" "gb_used_by_recipient b' = gb_used_by_recipient b"
      "gb_budget_msat b' = gb_budget_msat b" "gb_per_recipient_msat b' = gb_per_recipient_msat b"
    and held: "held_total b' = held_total b" "\<And>r. held_for r b' = held_for r b"
  shows "meter_inv h b'"
  using inv w unfolding meter_inv_def held e by blast

lemma same_funds_inv:
  assumes inv: "meter_inv h b" and s: "same_funds b b'"
  shows "meter_inv h b'"
  by (rule meter_inv_same [OF inv])
    (use s meter_invD(1,2) [OF inv] held_cong [of b' b] in \<open>simp_all add: same_funds_def open_holds_funded_def\<close>)

lemma refusal_same_funds: "same_funds b (snd (record_breaker_refusal r now b))"
  by (simp add: same_funds_def record_breaker_refusal_def budget_wf_def Let_def split: option.splits)

lemma reset_same_funds: "same_funds b (reset_breakers b)"
  by (simp add: same_funds_def reset_breakers_def budget_wf_def spend_breaker_default_def)

lemma prune_same_funds: "same_funds b (prune_call_tombstones now b)"
  by (simp add: same_funds_def budget_wf_def prune_wf) (blast intro: prune_open)

lemma close_holds_inv:
  assumes "meter_inv h b"
  shows "meter_inv h (snd (close_holds_over_limit now only b))"
proof -
  have "meter_inv h b' \<Longrightarrow>
      meter_inv h (snd (fold (\<lambda>(rid, refusal) (_, b'). (Some refusal, close_call now rid b')) l (x, b')))" for l x b'
    by (induction l arbitrary: x b') (auto simp: close_call_inv)
  then show ?thesis using assms by (simp add: close_holds_over_limit_def)
qed

subsection \<open>Admission\<close>

lemma pending_recipients_Nil: "pending_recipients cs m = [] \<longleftrightarrow> cs = [] \<and> m = []"
proof (induction cs m rule: pending_recipients.induct)
  case (2 c cs m)
  have "bt_insert k v m \<noteq> []" for k v by (cases m) (auto split: if_splits)
  with 2 show ?case by simp
qed simp

lemma pending_recipients_sums:
  assumes "charged_total cs + bt_total m < 2 ^ 64" "bt_wf m"
  shows "bt_wf (pending_recipients cs m)
    \<and> bt_total (pending_recipients cs m) = bt_total m + charged_total cs
    \<and> unat (bt_get_or 0 (pending_recipients cs m) r) = unat (bt_get_or 0 m r) + charged cs r"
  using assms
proof (induction cs m rule: pending_recipients.induct)
  case (2 c cs m)
  let ?old = "bt_get_or 0 m (ch_recipient c)" and ?a = "ch_amount_msat c"
  have "unat ?old + unat ?a < 2 ^ 64"
    using "2.prems"(1) bt_total_get_le [of m "ch_recipient c"] by simp
  then have add: "unat (?old + ?a) = unat ?old + unat ?a" by (simp add: unat_add_small)
  have tot: "bt_total (bt_insert (ch_recipient c) (?old + ?a) m) = bt_total m + unat ?a"
    using bt_total_insert [OF "2.prems"(2), of "ch_recipient c" "?old + ?a"] add by simp
  show ?case
    using "2.IH" "2.prems" by (auto simp: tot add bt_get_or_insert)
qed simp

lemma reserve_for_purpose_Inr:
  "reserve_for_purpose auth charges now b = Inr b' \<Longrightarrow> \<exists>pp. reserve_bounded charges pp now b = Inr b'"
  by (auto simp: reserve_for_purpose_def reserve_at_def reserve_call_at_def split: option.splits)

lemma reserve_bounded_facts:
  assumes "reserve_bounded charges pp now b = Inr b'"
  shows "gb_pending b' = gb_pending b" "gb_call_reservations b' = gb_call_reservations b"
    "gb_budget_msat b' = gb_budget_msat b" "gb_per_recipient_msat b' = gb_per_recipient_msat b"
    "gb_payment_ids b' = gb_payment_ids b" "budget_wf b \<Longrightarrow> budget_wf b'"
    "unat (gb_used_msat b') = unat (gb_used_msat b) + charged_total charges"
    "0 < charged_total charges \<Longrightarrow> unat (gb_used_msat b') \<le> unat (gb_budget_msat b)"
    "bt_get_or 0 (gb_used_by_recipient b') r
       = bt_get_or 0 (gb_used_by_recipient b) r + of_nat (charged charges r)"
    "bt_get (gb_per_recipient_msat b) r = Some cap \<Longrightarrow> 0 < charged charges r \<Longrightarrow>
       bt_get_or 0 (gb_used_by_recipient b') r \<le> cap"
proof -
  obtain m st where m: "reserve_within charges (pp = None) b = Inr m"
    and b': "b' = m \<lparr> gb_breaker_state := st \<rparr>"
    and wf: "bt_wf (sb_buckets (gb_breaker_state b)) \<longrightarrow> bt_wf (sb_buckets st)"
    using reserve_bounded_sel [OF assms] by blast
  note w = reserve_within_Inr [OF m]
  obtain used where u: "m = b \<lparr> gb_used_msat := gb_used_msat m, gb_used_by_recipient := used \<rparr>"
    using w(5) by blast
  show "gb_pending b' = gb_pending b" "gb_call_reservations b' = gb_call_reservations b"
    "gb_budget_msat b' = gb_budget_msat b" "gb_per_recipient_msat b' = gb_per_recipient_msat b"
    "gb_payment_ids b' = gb_payment_ids b"
    unfolding b' by (subst u, simp)+
  then show "budget_wf b \<Longrightarrow> budget_wf b'"
    using wf w(8) by (simp add: budget_wf_def b')
  show "unat (gb_used_msat b') = unat (gb_used_msat b) + charged_total charges"
    "0 < charged_total charges \<Longrightarrow> unat (gb_used_msat b') \<le> unat (gb_budget_msat b)"
    "bt_get_or 0 (gb_used_by_recipient b') r
       = bt_get_or 0 (gb_used_by_recipient b) r + of_nat (charged charges r)"
    "bt_get (gb_per_recipient_msat b) r = Some cap \<Longrightarrow> 0 < charged charges r \<Longrightarrow>
       bt_get_or 0 (gb_used_by_recipient b') r \<le> cap"
    using w(1,2,6,7) by (simp_all add: b')
qed

lemma reserve_counts_recipient:
  assumes inv: "meter_inv h b" and r: "reserve_bounded charges pp now b = Inr b'"
  shows "unat (bt_get_or 0 (gb_used_by_recipient b') k)
    = unat (bt_get_or 0 (gb_used_by_recipient b) k) + charged charges k"
proof -
  note f = reserve_bounded_facts [OF r]
  have "unat (bt_get_or 0 (gb_used_by_recipient b) k) + charged charges k < 2 ^ 64"
    using meter_inv_used_by_le [OF inv, of k] charged_le_total [of charges k] f(7)
      unat_lt_pow [of "gb_used_msat b'"] by simp
  then show ?thesis by (simp add: f(9) unat_add_small unat_of_nat)
qed

lemma record_admission_sel [simp]:
  "gb_used_msat (record_admission rid auth charges b) = gb_used_msat b"
  "gb_used_by_recipient (record_admission rid auth charges b) = gb_used_by_recipient b"
  "gb_budget_msat (record_admission rid auth charges b) = gb_budget_msat b"
  "gb_per_recipient_msat (record_admission rid auth charges b) = gb_per_recipient_msat b"
  "gb_breaker_state (record_admission rid auth charges b) = gb_breaker_state b"
  by (simp_all add: record_admission_def Let_def)

lemma record_admission_pending:
  "gb_pending (record_admission rid auth charges b)
     = (if charges = [] then gb_pending b else bt_insert rid (pending_recipients charges []) (gb_pending b))"
  "gb_call_reservations (record_admission rid auth charges b)
     = (case ra_call auth of
          Some t \<Rightarrow> if charges = [] then gb_call_reservations b
                    else bt_insert rid (call_spend_new t) (gb_call_reservations b)
        | None \<Rightarrow> gb_call_reservations b)"
  by (simp_all add: record_admission_def Let_def pending_recipients_Nil split: option.splits)

lemma admit_inv:
  assumes inv: "meter_inv h b" and fresh: "fresh_id rid b"
    and r: "reserve_bounded charges pp now b = Inr m"
    and call: "case ra_call auth of None \<Rightarrow> True
      | Some t \<Rightarrow> charges = [\<lparr> ch_recipient = ct_peer t, ch_amount_msat = ct_reserved_msat t \<rparr>]"
  shows "meter_inv h (record_admission rid auth charges m)"
proof -
  let ?b = "record_admission rid auth charges m"
  note i = meter_invD [OF inv] and f = reserve_bounded_facts [OF r]
  have lt: "charged_total charges + bt_total [] < 2 ^ 64"
    using f(7) unat_lt_pow [of "gb_used_msat m"] by simp
  note p = pending_recipients_sums [OF lt bt_wf_Nil]
  have wfp: "bt_wf (gb_pending m)" using i(1) f(6) by (simp add: budget_wf_def)
  have new: "\<not> bt_contains (gb_pending m) rid" using fresh by (simp add: fresh_id_def f(1))
  have held: "held_total ?b = held_total b + charged_total charges"
    "held_for k ?b = held_for k b + charged charges k" for k
  proof -
    have "charges \<noteq> [] \<Longrightarrow> gb_pending ?b = bt_insert rid (pending_recipients charges []) (gb_pending m)"
      by (simp add: record_admission_pending)
    note ins = held_insert_new [OF wfp new this]
    show "held_total ?b = held_total b + charged_total charges"
      using ins(1) p held_cong(1) [OF f(1)] held_cong(1) [of ?b m]
      by (cases "charges = []") (simp_all add: record_admission_pending)
    show "held_for k ?b = held_for k b + charged charges k"
      using ins(2) [of k] p [of k] held_cong(2) [OF f(1)] held_cong(2) [of ?b m]
      by (cases "charges = []") (simp_all add: record_admission_pending bt_get_or_def)
  qed
  have open': "open_holds_funded ?b"
    unfolding open_holds_funded_def
  proof (intro allI impI)
    fix k c assume k: "bt_get (gb_call_reservations ?b) k = Some c \<and> \<not> cs_closed c"
    show "\<exists>x. bt_get (gb_pending ?b) k = Some [(ct_peer (cs_terms c), x)]"
    proof (cases "k = rid")
      case True
      then obtain t where "ra_call auth = Some t" "c = call_spend_new t"
        using k fresh by (auto simp: record_admission_pending fresh_id_def f(2) split: option.splits if_splits)
      then show ?thesis using True call by (simp add: record_admission_pending call_spend_new_def)
    next
      case False
      then have "bt_get (gb_call_reservations b) k = Some c"
        using k by (auto simp: record_admission_pending f(2) split: option.splits if_splits)
      then show ?thesis using False i(2) k by (auto simp: open_holds_funded_def record_admission_pending f(1))
    qed
  qed
  have wf': "budget_wf ?b"
    using i(1) f(6) p by (auto simp: budget_wf_def record_admission_pending split: option.splits if_splits)
  have cap: "unat (bt_get_or 0 (gb_used_by_recipient m) k) \<le> unat cap + overrun_to k h"
    if "bt_get (gb_per_recipient_msat b) k = Some cap" for k cap
    using f(10) [OF that] i(6) [OF that] reserve_counts_recipient [OF inv r, of k]
    by (cases "charged charges k = 0") (auto simp: word_le_nat_alt)
  have tot: "unat (gb_used_msat m) \<le> unat (gb_budget_msat b) + overrun_total h"
    using f(7,8) i(5) by (cases "charged_total charges = 0") auto
  show ?thesis
    unfolding meter_inv_def held
    using open' wf' cap tot i(3) f(7) reserve_counts_recipient [OF inv r] i(4)
    by (simp add: f(3,4))
qed

subsection \<open>Draws\<close>

lemma find_map_of:
  assumes "find P m = Some (k, v)" "distinct (map fst m)"
  shows "map_of m k = Some v" "P (k, v)"
proof -
  have "(k, v) \<in> set m \<and> P (k, v)"
    using assms(1) by (auto simp: find_Some_iff intro: nth_mem dest: sym)
  then show "map_of m k = Some v" "P (k, v)"
    using assms(2) by simp_all
qed

lemma draw_refusal_Inr: "draw_refusal c seq price fee closing = Inr amount \<Longrightarrow> \<not> cs_closed c"
  by (auto simp: draw_refusal_def split: if_splits)

lemma transfer_inv:
  assumes inv: "meter_inv h b" and fresh: "fresh_id rid b"
    and c: "bt_get (gb_call_reservations b) parent = Some c" "\<not> cs_closed c" "ct_peer (cs_terms c) = peer"
    and held: "bt_get (gb_pending b) parent = Some held" "bt_get held peer = Some x" "amount \<le> x"
  shows "meter_inv h (transfer_draw rid parent peer seq amount link c held b)"
proof -
  let ?b = "transfer_draw rid parent peer seq amount link c held b"
  note i = meter_invD [OF inv]
  have hd: "held = [(peer, x)]"
    using i(2) c held(1,2) by (fastforce simp: open_holds_funded_def)
  define b1 where "b1 = b \<lparr> gb_pending := bt_insert parent [(peer, x - amount)] (gb_pending b) \<rparr>"
  have wf: "bt_wf (gb_pending b)" "bt_wf (gb_pending b1)" using i(1) by (simp_all add: budget_wf_def b1_def)
  have p: "gb_pending ?b = bt_insert rid [(peer, amount)] (gb_pending b1)"
    by (simp add: transfer_draw_def b1_def hd bt_get_or_def)
  have ne: "rid \<noteq> parent" "\<not> bt_contains (gb_pending b1) rid"
    using fresh held(1) by (auto simp: fresh_id_def b1_def)
  have sub: "unat (x - amount) + unat amount = unat x"
    using held(3) by (simp add: word_le_nat_alt unat_sub_if')
  have e1: "gb_pending b1 = bt_insert parent [(peer, x - amount)] (gb_pending b)" by (simp add: b1_def)
  note old = held_insert_old [OF wf(1) held(1) [unfolded hd] e1] and new = held_insert_new [OF wf(2) ne(2) p]
  have h: "held_total ?b = held_total b" "\<And>k. held_for k ?b = held_for k b"
  proof -
    show "held_total ?b = held_total b" using old(1) new(1) sub by simp
    show "held_for k ?b = held_for k b" for k using old(2) [of k] new(2) [of k] sub by (simp split: if_splits)
  qed
  have open': "open_holds_funded ?b"
    unfolding open_holds_funded_def
  proof (intro allI impI)
    fix k d assume k: "bt_get (gb_call_reservations ?b) k = Some d \<and> \<not> cs_closed d"
    show "\<exists>y. bt_get (gb_pending ?b) k = Some [(ct_peer (cs_terms d), y)]"
    proof (cases "k = parent")
      case True
      then show ?thesis using k c ne by (auto simp: transfer_draw_def hd)
    next
      case False
      then have "bt_get (gb_call_reservations b) k = Some d"
        using k by (simp add: transfer_draw_def)
      then show ?thesis using False i(2) k fresh
        by (auto simp: open_holds_funded_def transfer_draw_def fresh_id_def)
    qed
  qed
  have wf': "budget_wf ?b"
    using i(1) by (auto simp: budget_wf_def transfer_draw_def hd bt_wf_Cons split: if_splits)
  show ?thesis
    by (rule meter_inv_same [OF inv wf' open' _ _ _ _ h]) (simp_all add: transfer_draw_def)
qed

lemma draw_inv:
  assumes inv: "meter_inv h b" and fresh: "fresh_id rid b"
    and d: "draw_on_hold rid now peer call_id seq price fee link closing b = (res, b')"
  shows "meter_inv h b'"
proof (cases res)
  case (Inl r)
  have "b' = b \<or> b' = snd (close_holds_over_limit now (Some (peer, call_id)) b)"
    using d Inl by (auto simp: draw_on_hold_def split: if_splits prod.splits option.splits sum.splits)
  then show ?thesis using inv close_holds_inv [OF inv] by auto
next
  case (Inr amount)
  obtain parent c held x where f: "find_call peer call_id b = Some (parent, c)"
    and r: "draw_refusal c seq price fee closing = Inr amount"
    and h: "bt_get (gb_pending b) parent = Some held" "bt_get held peer = Some x" "amount \<le> x"
    and b': "b' = transfer_draw rid parent peer seq amount link c held b"
    using d Inr by (auto simp: draw_on_hold_def not_less split: if_splits prod.splits option.splits sum.splits)
  have "distinct (map fst (gb_call_reservations b))"
    using meter_invD(1) [OF inv] by (simp add: budget_wf_def bt_wf_distinct)
  note m = find_map_of [OF f [unfolded find_call_def] this]
  show ?thesis
    unfolding b' using m h by (intro transfer_inv [OF inv fresh _ draw_refusal_Inr [OF r]]) auto
qed

subsection \<open>Resolution\<close>

lemma take_part_sel [simp]:
  "gb_used_msat (take_part rid p m b) = gb_used_msat b"
  "gb_used_by_recipient (take_part rid p m b) = gb_used_by_recipient b"
  "gb_call_reservations (take_part rid p m b) = gb_call_reservations b"
  "gb_budget_msat (take_part rid p m b) = gb_budget_msat b"
  "gb_per_recipient_msat (take_part rid p m b) = gb_per_recipient_msat b"
  "gb_breaker_state (take_part rid p m b) = gb_breaker_state b"
  "k \<noteq> rid \<Longrightarrow> bt_get (gb_pending (take_part rid p m b)) k = bt_get (gb_pending b) k"
  by (simp_all add: take_part_def Let_def)

lemma take_part_held:
  assumes wf: "budget_wf b" and m: "bt_get (gb_pending b) rid = Some m" "bt_get m p = Some res"
  shows "held_total (take_part rid p m b) + unat res = held_total b"
    and "held_for r (take_part rid p m b) + (if r = p then unat res else 0) = held_for r b"
    and "budget_wf (take_part rid p m b)"
proof -
  let ?rest = "bt_remove p m"
  have w: "bt_wf (gb_pending b)" "bt_wf m" using wf m by (auto simp: budget_wf_def)
  have tot: "bt_total ?rest + unat res = bt_total m"
    using bt_total_remove [OF w(2), of p] m(2) by (simp add: bt_get_or_def)
  have "bt_get_or 0 m p = res" using m(2) by (simp add: bt_get_or_def)
  then have for_r: "unat (bt_get_or 0 ?rest r) + (if r = p then unat res else 0) = unat (bt_get_or 0 m r)" for r
    by (simp add: bt_get_or_remove)
  consider (last) "?rest = []" "gb_pending (take_part rid p m b) = bt_remove rid (gb_pending b)"
    | (more) "gb_pending (take_part rid p m b) = bt_insert rid ?rest (gb_pending b)"
    by (cases "?rest = []") (auto simp: take_part_def Let_def)
  note c = this
  from c show "held_total (take_part rid p m b) + unat res = held_total b"
  proof cases
    case last
    then show ?thesis using held_remove(1) [OF w(1) m(1) last(2)] tot by simp
  next
    case more
    then show ?thesis using held_insert_old(1) [OF w(1) m(1) more] tot by simp
  qed
  from c show "held_for r (take_part rid p m b) + (if r = p then unat res else 0) = held_for r b"
  proof cases
    case last
    then show ?thesis using held_remove(2) [OF w(1) m(1) last(2), of r] for_r [of r]
      by (simp add: bt_get_or_def split: if_splits)
  next
    case more
    then show ?thesis using held_insert_old(2) [OF w(1) m(1) more, of r] for_r [of r] by (simp split: if_splits)
  qed
  show "budget_wf (take_part rid p m b)"
    using wf w by (auto simp: take_part_def Let_def budget_wf_def split: if_splits)
qed

lemma funded_cong:
  assumes "open_holds_funded b"
    and "\<And>k c. bt_get (gb_call_reservations b') k = Some c \<Longrightarrow> \<not> cs_closed c \<Longrightarrow>
      \<exists>d. bt_get (gb_call_reservations b) k = Some d \<and> \<not> cs_closed d
        \<and> ct_peer (cs_terms d) = ct_peer (cs_terms c)
        \<and> (\<forall>x. bt_get (gb_pending b) k = Some [(ct_peer (cs_terms c), x)] \<longrightarrow>
              (\<exists>y. bt_get (gb_pending b') k = Some [(ct_peer (cs_terms c), y)]))"
  shows "open_holds_funded b'"
  using assms unfolding open_holds_funded_def by metis

lemma settle_draw_settles:
  assumes inv: "meter_inv h b"
    and b2: "gb_used_msat b2 = gb_used_msat b" "gb_used_by_recipient b2 = gb_used_by_recipient b"
      "gb_budget_msat b2 = gb_budget_msat b" "gb_per_recipient_msat b2 = gb_per_recipient_msat b"
      "bt_wf (gb_pending b2)"
    and held: "held_total b2 + unat res = held_total b"
      "\<And>r. held_for r b2 + (if r = p then unat res else 0) = held_for r b"
    and lt: "unat (gb_used_msat b) + unat act < 2 ^ 64"
    and funded: "\<not> is_closed \<Longrightarrow> bt_get (gb_pending b2) parent = Some [(p, x)]"
  shows "\<exists>res'. settles p res' act b (settle_draw parent p is_closed res act b2)
    \<and> unat act - unat res' = unat act - unat res"
proof (cases is_closed)
  case True
  then show ?thesis
    using resolve_settles [OF inv b2(1-4) held lt] by (auto simp: settle_draw_def)
next
  case False
  note f = funded [OF False]
  define b3 where "b3 = b2 \<lparr> gb_pending := bt_insert parent [(p, sat_add x (sat_sub res act))] (gb_pending b2) \<rparr>"
  have sel: "gb_used_msat b3 = gb_used_msat b" "gb_used_by_recipient b3 = gb_used_by_recipient b"
    "gb_budget_msat b3 = gb_budget_msat b" "gb_per_recipient_msat b3 = gb_per_recipient_msat b"
    by (simp_all add: b3_def b2)
  have e: "settle_draw parent p is_closed res act b2 = (if act > res then resolve p 0 (act - res) b3 else b3)"
    using False f by (simp add: settle_draw_def Let_def b3_def)
  have "gb_pending b3 = bt_insert parent [(p, sat_add x (sat_sub res act))] (gb_pending b2)" by (simp add: b3_def)
  note ins = held_insert_old [OF b2(5) f this]
  have "unat x \<le> held_total b2"
    using bt_at_le [of "\<lambda>_. bt_total" "gb_pending b2" parent] f by (simp add: bt_at_def held_total_def)
  then have x: "unat x + (unat res - unat act) < 2 ^ 64"
    using held(1) meter_invD(3) [OF inv] unat_lt_pow [of "gb_used_msat b"] by simp
  have sat: "unat (sat_add x (sat_sub res act)) = unat x + (unat res - unat act)"
    using x by (simp add: unat_sat_add unat_sat_sub)
  have h3: "held_total b3 = held_total b2 + (unat res - unat act)"
    "held_for r b3 = held_for r b2 + (if r = p then unat res - unat act else 0)" for r
    using ins(1) ins(2) [of r] sat by (simp_all split: if_splits)
  show ?thesis
  proof (cases "act > res")
    case True
    then have d: "unat (act - res) = unat act - unat res" "unat res < unat act"
      by (simp_all add: word_less_nat_alt unat_sub_if')
    have "unat (gb_used_msat b3) + unat (act - res) < 2 ^ 64"
      "unat (bt_get_or 0 (gb_used_by_recipient b3) p) + unat (act - res) < 2 ^ 64"
      using lt d meter_inv_used_by_le [OF inv, of p] by (simp_all add: sel)
    note used = resolve_used [of 0 b3 p "act - res", OF _ _ this]
    have "held_total (resolve p 0 (act - res) b3) = held_total b3"
      "\<And>r. held_for r (resolve p 0 (act - res) b3) = held_for r b3"
      by (rule held_cong; simp)+
    moreover have "held_for p b2 + unat res = held_for p b" "\<And>r. r \<noteq> p \<Longrightarrow> held_for r b2 = held_for r b"
      using held(2) by (metis add.right_neutral)+
    ultimately have "settles p res act b (resolve p 0 (act - res) b3)"
      using used held(1) h3 d by (simp add: settles_def sel)
    then show ?thesis using True by (auto simp: e)
  next
    case False
    then have "unat act \<le> unat res" by (simp add: word_le_nat_alt not_less)
    moreover have "held_for p b2 + unat res = held_for p b" "\<And>r. r \<noteq> p \<Longrightarrow> held_for r b2 = held_for r b"
      using held(2) by (metis add.right_neutral)+
    ultimately have "settles p act act b b3"
      using held(1) h3 by (simp add: settles_def sel)
    then show ?thesis using False \<open>unat act \<le> unat res\<close> by (auto simp: e)
  qed
qed

lemma record_call_outcome_same_funds: "same_funds b (record_call_outcome now k b)"
  by (simp add: same_funds_def budget_wf_def record_call_outcome_wf) (blast intro: record_call_outcome_open)

lemma drawn_resolution_inv:
  assumes inv: "meter_inv h b" and n: "\<not> bt_contains (gb_call_reservations b) rid"
    and m: "bt_get (gb_pending b) rid = Some m" "bt_get m p = Some res"
    and lt: "unat (gb_used_msat b) + unat act < 2 ^ 64"
    and d: "resolve_call_draw now rid p res act failed (take_part rid p m b) = (True, b')"
  shows "meter_inv ((p, res, act) # h) b'"
proof -
  let ?b1 = "take_part rid p m b"
  note i = meter_invD [OF inv] and t = take_part_held [OF meter_invD(1) [OF inv] m]
  obtain parent c where f: "find_parent rid p ?b1 = Some (parent, c)"
    using d by (cases "find_parent rid p ?b1") (auto simp: resolve_call_draw_def)
  have "distinct (map fst (gb_call_reservations ?b1))"
    using i(1) by (simp add: budget_wf_def bt_wf_distinct)
  note fp = find_map_of [OF f [unfolded find_parent_def] this]
  then have c: "bt_get (gb_call_reservations b) parent = Some c" "ct_peer (cs_terms c) = p" by auto
  define c' where "c' = draw_resolved rid res act failed c"
  have c': "cs_terms c' = cs_terms c" "cs_closed c' = cs_closed c" by (simp_all add: c'_def)
  have b': "b' = record_call_outcome now parent (settle_draw parent p (cs_closed c) res act
        (?b1 \<lparr> gb_call_reservations := bt_insert parent c' (gb_call_reservations ?b1) \<rparr>))"
    using d unfolding resolve_call_draw_def f option.case prod.case Let_def c'_def by simp
  define b2 where "b2 = ?b1 \<lparr> gb_call_reservations := bt_insert parent c' (gb_call_reservations ?b1) \<rparr>"
  have ne: "parent \<noteq> rid" using n c(1) by auto
  obtain x where x: "\<not> cs_closed c \<Longrightarrow> bt_get (gb_pending b2) parent = Some [(p, x)]"
    using i(2) c ne by (cases "cs_closed c") (auto simp: open_holds_funded_def b2_def)
  have held2: "held_total b2 = held_total ?b1" "\<And>r. held_for r b2 = held_for r ?b1"
    by (rule held_cong; simp add: b2_def)+
  obtain res' where s: "settles p res' act b (settle_draw parent p (cs_closed c) res act b2)"
    and ov: "unat act - unat res' = unat act - unat res"
    using settle_draw_settles [where is_closed = "cs_closed c" and res = res, OF inv _ _ _ _ _ _ _ lt x] t held2
    by (auto simp: b2_def budget_wf_def)
  let ?b3 = "settle_draw parent p (cs_closed c) res act b2"
  have "budget_wf b2" using t(3) by (simp add: b2_def budget_wf_def)
  then have wf3: "budget_wf ?b3"
    using x by (cases "cs_closed c")
      (auto simp: settle_draw_def Let_def budget_wf_def bt_wf_Cons split: if_splits)
  have calls3: "gb_call_reservations ?b3 = gb_call_reservations b2"
    by (simp add: settle_draw_def Let_def split: option.splits)
  have pend3: "k \<noteq> parent \<Longrightarrow> bt_get (gb_pending ?b3) k = bt_get (gb_pending b2) k"
    "\<not> cs_closed c \<Longrightarrow> \<exists>y. bt_get (gb_pending ?b3) parent = Some [(p, y)]" for k
    using x by (auto simp: settle_draw_def Let_def split: option.splits)
  have "open_holds_funded ?b3"
    using i(2)
  proof (rule funded_cong)
    fix k e assume k: "bt_get (gb_call_reservations ?b3) k = Some e" "\<not> cs_closed e"
    show "\<exists>d. bt_get (gb_call_reservations b) k = Some d \<and> \<not> cs_closed d
        \<and> ct_peer (cs_terms d) = ct_peer (cs_terms e)
        \<and> (\<forall>x. bt_get (gb_pending b) k = Some [(ct_peer (cs_terms e), x)] \<longrightarrow>
              (\<exists>y. bt_get (gb_pending ?b3) k = Some [(ct_peer (cs_terms e), y)]))"
    proof (cases "k = parent")
      case True
      have "e = c'" using k(1) unfolding calls3 True by (simp add: b2_def)
      with k(2) c c' pend3(2) show ?thesis unfolding True by (intro exI [of _ c]) simp
    next
      case False
      then have "bt_get (gb_call_reservations b) k = Some e" using k(1) unfolding calls3 by (simp add: b2_def)
      moreover have "k \<noteq> rid" using calculation n by auto
      moreover have "bt_get (gb_pending ?b3) k = bt_get (gb_pending b) k"
        using pend3(1) [OF False] \<open>k \<noteq> rid\<close> by (simp add: b2_def)
      ultimately show ?thesis using k(2) by simp
    qed
  qed
  then have "meter_inv ((p, res', act) # h) ?b3"
    using meter_inv_settles [OF inv wf3 _ s] by blast
  then have "meter_inv ((p, res, act) # h) ?b3"
    by (rule meter_inv_history) (simp_all add: ov)
  then show ?thesis
    unfolding b' b2_def [symmetric] by (rule same_funds_inv [OF _ record_call_outcome_same_funds])
qed

lemma plain_resolution_inv:
  assumes inv: "meter_inv h b" and n: "\<not> bt_contains (gb_call_reservations b) rid"
    and m: "bt_get (gb_pending b) rid = Some m" "bt_get m p = Some res"
    and lt: "unat (gb_used_msat b) + unat act < 2 ^ 64"
  shows "meter_inv ((p, res, act) # h) (record_outcome res act now (resolve p res act (take_part rid p m b)))"
proof -
  let ?b1 = "take_part rid p m b"
  let ?b2 = "resolve p res act ?b1"
  note i = meter_invD [OF inv] and t = take_part_held [OF meter_invD(1) [OF inv] m]
  have s: "settles p res act b ?b2"
    using t lt by (intro resolve_settles [OF inv]) simp_all
  have "open_holds_funded ?b2"
    using i(2)
  proof (rule funded_cong)
    fix k e assume k: "bt_get (gb_call_reservations ?b2) k = Some e" "\<not> cs_closed e"
    then have "k \<noteq> rid" using n by auto
    with k show "\<exists>d. bt_get (gb_call_reservations b) k = Some d \<and> \<not> cs_closed d
        \<and> ct_peer (cs_terms d) = ct_peer (cs_terms e)
        \<and> (\<forall>x. bt_get (gb_pending b) k = Some [(ct_peer (cs_terms e), x)] \<longrightarrow>
              (\<exists>y. bt_get (gb_pending ?b2) k = Some [(ct_peer (cs_terms e), y)]))"
      by simp
  qed
  moreover have "budget_wf ?b2" using t(3) by (simp add: budget_wf_def)
  ultimately have "meter_inv ((p, res, act) # h) ?b2"
    using meter_inv_settles [OF inv _ _ s] by blast
  moreover have "same_funds ?b2 (record_outcome res act now ?b2)"
    by (simp add: same_funds_def budget_wf_def)
  ultimately show ?thesis by (rule same_funds_inv)
qed

lemma resolve_inv:
  assumes inv: "meter_inv h b" and lt: "unat (gb_used_msat b) + unat act < 2 ^ 64"
    and r: "resolve_pending now rid p act failed b = (e, b')"
  shows "meter_inv (settled rid p act b @ h) b'"
proof (cases "pending_part rid p b")
  case None
  then have "b' = b"
    using r by (auto simp: resolve_pending_def pending_part_def split: if_splits option.splits)
  then show ?thesis using inv None by (simp add: settled_def)
next
  case (Some res)
  then obtain m where n: "\<not> bt_contains (gb_call_reservations b) rid"
    and m: "bt_get (gb_pending b) rid = Some m" "bt_get m p = Some res"
    by (auto simp: pending_part_def split: if_splits option.splits bind_splits)
  obtain drawn b2 where d: "resolve_call_draw now rid p res act failed (take_part rid p m b) = (drawn, b2)"
    by fastforce
  show ?thesis
  proof (cases drawn)
    case True
    then have "b' = b2" using r n m d by (simp add: resolve_pending_def)
    then show ?thesis
      using drawn_resolution_inv [OF inv n m lt] d True Some by (simp add: settled_def)
  next
    case False
    then have b2: "b2 = take_part rid p m b"
      using d by (auto simp: resolve_call_draw_def Let_def split: option.splits)
    have "b' = record_outcome res act now (resolve p res act (take_part rid p m b))"
      using r n m d False by (simp add: resolve_pending_def b2)
    then show ?thesis
      using plain_resolution_inv [OF inv n m lt] Some by (simp add: settled_def)
  qed
qed

subsection \<open>Runs\<close>

lemma meter_step_inv: "meter_step s s' \<Longrightarrow> meter_inv (fst s) (snd s) \<Longrightarrow> meter_inv (fst s') (snd s')"
proof (induction rule: meter_step.induct)
  case (meter_admit rid auth charges now b res b' h)
  show ?case
  proof (cases res)
    case (Inl r)
    then have "b' = b \<or> b' = snd (record_breaker_refusal r now b)"
      using meter_admit(1) by (auto simp: admit_charges_def split: option.splits sum.splits)
    then show ?thesis using meter_admit(4) same_funds_inv [OF _ refusal_same_funds] by auto
  next
    case (Inr u)
    then obtain m where "reserve_for_purpose auth charges now b = Inr m" "b' = record_admission rid auth charges m"
      using meter_admit(1) by (auto simp: admit_charges_def split: option.splits sum.splits)
    then show ?thesis
      using reserve_for_purpose_Inr admit_inv meter_admit(2-4) by fastforce
  qed
next
  case (meter_draw rid now peer call_id seq price fee link closing b res b' h)
  then show ?case using draw_inv by fastforce
next
  case (meter_resolve now rid recipient actual payment_failed b res b' h)
  then show ?case using resolve_inv by fastforce
next
  case (meter_close h b now rid)
  then show ?case by (auto simp: close_call_reservation_def close_call_inv split: option.splits)
next
  case (meter_limit h b now only)
  then show ?case by (simp add: close_holds_inv)
next
  case (meter_prune h b now)
  then show ?case
    using same_funds_inv [OF close_holds_inv prune_same_funds] by (simp add: prune_calls_def)
next
  case (meter_reset h b)
  then show ?case using same_funds_inv [OF _ reset_same_funds] by simp
qed

lemma meter_run_inv:
  assumes "meter_step\<^sup>*\<^sup>* s s'" "meter_inv (fst s) (snd s)"
  shows "meter_inv (fst s') (snd s')"
  using assms by (induction rule: rtranclp_induct) (auto intro: meter_step_inv)

lemma from_terms_inv: "meter_inv [] (from_terms t)"
  by (simp add: meter_inv_def from_terms_def budget_wf_def open_holds_funded_def held_total_def held_for_def
      spend_breaker_default_def bt_get_or_def)

lemma run_from_terms: "meter_step\<^sup>*\<^sup>* ([], from_terms t) (h, b) \<Longrightarrow> meter_inv h b"
  using meter_run_inv [of "([], from_terms t)" "(h, b)"] from_terms_inv by simp

lemma same_terms_refl: "same_terms b b"
  by (simp add: same_terms_def)

lemma close_call_terms: "same_terms b (close_call now rid b)"
  by (simp add: same_terms_def close_call_def Let_def split: option.splits)

lemma close_holds_terms: "same_terms b (snd (close_holds_over_limit now only b))"
proof -
  have "same_terms b b' \<Longrightarrow>
      same_terms b (snd (fold (\<lambda>(rid, refusal) (_, b'). (Some refusal, close_call now rid b')) l (x, b')))" for l x b'
    using close_call_terms by (induction l arbitrary: x b') (auto simp: same_terms_def)
  from this [OF same_terms_refl] show ?thesis unfolding close_holds_over_limit_def .
qed

lemma draw_terms: "same_terms b (snd (draw_on_hold rid now peer call_id seq price fee link closing b))"
  using close_holds_terms [of b now "Some (peer, call_id)"]
  by (auto simp: draw_on_hold_def same_terms_def transfer_draw_def split: prod.splits option.splits sum.splits)

lemma settle_draw_terms: "same_terms b (settle_draw parent peer c res act b)"
  by (simp add: settle_draw_def same_terms_def Let_def split: option.splits)

lemma resolve_terms: "same_terms b (snd (resolve_pending now rid p act failed b))"
  using settle_draw_terms
  by (auto simp: resolve_pending_def resolve_call_draw_def same_terms_def Let_def split: prod.splits option.splits)

lemma admit_terms: "same_terms b (snd (admit_charges rid auth charges now b))"
  using reserve_for_purpose_Inr [of auth charges now b] reserve_bounded_facts(3,4)
  by (fastforce simp: admit_charges_def same_terms_def record_breaker_refusal_def Let_def
      split: option.splits sum.splits)

lemma meter_step_terms: "meter_step s s' \<Longrightarrow> same_terms (snd s) (snd s')"
proof (induction rule: meter_step.induct)
  case (meter_admit rid auth charges now b res b' h)
  then show ?case using admit_terms [of b rid auth charges now] by simp
next
  case (meter_draw rid now peer call_id seq price fee link closing b res b' h)
  then show ?case using draw_terms [of b rid now peer call_id seq price fee link closing] by simp
next
  case (meter_resolve now rid recipient actual payment_failed b res b' h)
  then show ?case using resolve_terms [of b now rid recipient actual payment_failed] by simp
next
  case (meter_close h b now rid)
  then show ?case using close_call_terms
    by (auto simp: close_call_reservation_def same_terms_def split: option.splits)
next
  case (meter_limit h b now only)
  then show ?case using close_holds_terms by simp
next
  case (meter_prune h b now)
  then show ?case using close_holds_terms [of b now None] by (simp add: prune_calls_def same_terms_def)
next
  case (meter_reset h b)
  then show ?case by (simp add: same_terms_def reset_breakers_def)
qed

lemma run_same_terms: "meter_step\<^sup>*\<^sup>* s s' \<Longrightarrow> same_terms (snd s) (snd s')"
  by (induction rule: rtranclp_induct) (auto simp: same_terms_def dest!: meter_step_terms)

subsection \<open>A sample run\<close>

lemmas admit_eval = admit_charges_def ledger_refusal_def reserve_for_purpose_def purpose_refusal_def
  offer_limit_def record_admission_def sample_auth_def default_authority_def

lemma sample_admitted_sel:
  "gb_pending sample_admitted = [(''r1'', [(''alice'', 5000)])]"
  "gb_call_reservations sample_admitted = []" "gb_used_msat sample_admitted = 5000"
  by (simp_all add: sample_admitted_def admit_eval reserve_eval terms_eval sample_charges_def)

lemma sample_run:
  "meter_step\<^sup>*\<^sup>* ([], from_terms (terms_new 100000)) ([(''alice'', 5000, 4000)], sample_resolved)"
proof -
  have "meter_step ([], from_terms (terms_new 100000)) ([], sample_admitted)"
    unfolding sample_admitted_def
    by (rule meter_admit [of "''r1''" sample_auth sample_charges 1000, OF prod.collapse [symmetric]])
      (simp_all add: fresh_id_def drawn_child_def from_terms_def admit_eval)
  moreover have "meter_step ([], sample_admitted) (settled ''r1'' ''alice'' 4000 sample_admitted @ [], sample_resolved)"
    unfolding sample_resolved_def
    by (rule meter_resolve [OF prod.collapse [symmetric]]) (simp add: sample_admitted_sel)
  ultimately show ?thesis
    by (simp add: settled_def pending_part_def sample_admitted_sel)
qed

section \<open>Properties\<close>

text \<open>(C26) The meter of a grant is exact: after any sequence of admitted and refused charges,
  draws on call holds, resolutions, closed or pruned calls and breaker resets, the amount it
  counts as used is exactly what was paid plus what is still held for reservations without an
  outcome, in total and for every recipient.\<close>

theorem meter_counts_exactly:
  assumes "meter_step\<^sup>*\<^sup>* ([], from_terms t) (h, b)"
  shows "unat (gb_used_msat b) = paid_total h + held_total b
    \<and> (\<forall>r. unat (bt_get_or 0 (gb_used_by_recipient b) r) = paid_to r h + held_for r b)"
  using run_from_terms [OF assms] by (simp add: meter_inv_def)

text \<open>After 5000 msat were reserved and 4000 msat paid, the meter shows 4000 msat used.\<close>

theorem meter_counts_exactly_witness:
  "unat (gb_used_msat sample_resolved) = paid_total [(''alice'', 5000, 4000)] + held_total sample_resolved
   \<and> paid_total [(''alice'', 5000, 4000)] = 4000"
  using meter_counts_exactly [OF sample_run] by simp

text \<open>(C27) What a grant pays stays inside the owner's budget: in every run the payments made and
  the amounts still held together are at most the approved budget, and for a recipient with a
  cap at most that cap, except for what payments cost beyond their own reservation.\<close>

theorem paid_within_budget:
  assumes "meter_step\<^sup>*\<^sup>* ([], from_terms t) (h, b)"
  shows "paid_total h + held_total b \<le> unat (gt_budget_msat t) + overrun_total h
    \<and> (\<forall>r cap. bt_get (gt_per_recipient_msat t) r = Some cap \<longrightarrow>
         paid_to r h + held_for r b \<le> unat cap + overrun_to r h)"
proof -
  note i = meter_invD [OF run_from_terms [OF assms]]
  have "gb_budget_msat b = gt_budget_msat t" "gb_per_recipient_msat b = gt_per_recipient_msat t"
    using run_same_terms [OF assms] by (simp_all add: same_terms_def from_terms_def)
  then show ?thesis using i(3,5) i(6) [unfolded i(4)] by simp
qed

text \<open>The sample run stays inside its budget of 100000 msat.\<close>

theorem paid_within_budget_witness:
  "4000 + held_total sample_resolved \<le> 100000"
  using paid_within_budget [OF sample_run] by (simp add: terms_new_def)

end
