(* ===== verification/Spend_Ledger.thy ===== *)
theory Spend_Ledger
  imports Meter_Steps Pairing_Steps
begin

text \<open>
  The spend transactions of the pairing service on the whole registry (\<open>pairing.rs\<close>, from
  \<open>reserve_spend\<close> to \<open>reset_grant_breakers\<close>). Each runs under the
  lock of the service, changes one grant's meter and saves the file before it answers.
  Random identities and the later readings of the clock are arguments.
\<close>

section \<open>Grants by position\<close>

primrec find_index :: "('a \<Rightarrow> bool) \<Rightarrow> 'a list \<Rightarrow> nat option" where
  "find_index P [] = None"
| "find_index P (y # ys) = (if P y then Some 0 else map_option Suc (find_index P ys))"

primrec update_first :: "('a \<Rightarrow> bool) \<Rightarrow> ('a \<Rightarrow> 'a) \<Rightarrow> 'a list \<Rightarrow> 'a list" where
  "update_first P h [] = []"
| "update_first P h (y # ys) = (if P y then h y # ys else y # update_first P h ys)"

definition put_budget :: "nat \<Rightarrow> grant_budget option \<Rightarrow> pairing_file \<Rightarrow> pairing_file" where
  "put_budget idx b f = f \<lparr> pf_grants := (pf_grants f)[idx := (pf_grants f ! idx) \<lparr> sg_budget := b \<rparr>] \<rparr>"

definition restore_budget :: "string \<Rightarrow> grant_budget option \<Rightarrow> pairing_file \<Rightarrow> pairing_file" where
  "restore_budget op_id b f =
     f \<lparr> pf_grants := update_first (\<lambda>g. sg_op_id g = op_id) (\<lambda>g. g \<lparr> sg_budget := b \<rparr>) (pf_grants f) \<rparr>"

section \<open>Texts of errors\<close>

definition device_approvals_off_message :: "string \<Rightarrow> string" where
  "device_approvals_off_message r =
     (if r = ''seed_not_encrypted''
      then ''Touch ID approvals are off on this node: its recovery phrase is not encrypted. Encrypt your recovery phrase to enable Touch ID approvals (`konsensus seed encrypt`, then restart the node).''
      else if r = ''seed_password_not_typed''
      then ''Touch ID approvals are off on this node: it was started with the recovery-phrase password from a flag or file. Restart it and type the password at start to enable Touch ID approvals.''
      else ''Touch ID approvals are off on this node: it has no owner-approval key.'')"

fun pairing_error_text :: "pairing_error \<Rightarrow> string" where
  "pairing_error_text Closed = ''pairing is closed: a client is already paired and no pairing window is open''"
| "pairing_error_text TooManyPending = ''too many pending pairing requests''"
| "pairing_error_text UnknownPending = ''pairing request is unknown, already used, or expired''"
| "pairing_error_text BadProof = ''pairing proof did not verify''"
| "pairing_error_text (Malformed s) = ''malformed input: '' @ s"
| "pairing_error_text UnknownClient = ''no such paired client''"
| "pairing_error_text (PairingInvalid s) = ''pairing is no longer valid: '' @ s"
| "pairing_error_text (NotGrantable s) = ''scope is not grantable to a pairing: '' @ s"
| "pairing_error_text UnknownOperation = ''no such pending operation''"
| "pairing_error_text ConfirmationMismatch = ''confirmation phrase did not match the pending operation''"
| "pairing_error_text (WrongOwnerCode n) =
     ''that is not the code the node showed for this request; '' @ show_word n
     @ '' attempt(s) left before the request is cancelled''"
| "pairing_error_text ConfirmationLost = ''this request can no longer be approved: the node restarted after it was made, or too many wrong codes were typed. Nothing was granted. Ask again from the app; it shows a new command''"
| "pairing_error_text (DeviceApprovalsDisabled r) = device_approvals_off_message r"
| "pairing_error_text ShortCodesOff = ''short approval codes are off until the node restarts (too many wrong codes were typed). Type the full GRANT ... CODE line from the node'' @ [CHR 0x27] @ ''s terminal instead''"
| "pairing_error_text Expired = ''operation expired''"
| "pairing_error_text NotApproved = ''operation has not been approved by the owner''"
| "pairing_error_text BindingMismatch = ''approval binding mismatch''"
| "pairing_error_text OwnerChannelUnavailable =
     ''elevation is unavailable: this node was not started in owner-run mode, so no owner control socket exists. A packaged sidecar app is a read+receive client by design ''
     @ map char_of [226, 128, 148 :: nat]
     @ '' run the node yourself and grant over <data_dir>/control.sock to obtain spend or front_door.''"
| "pairing_error_text OwnerApprovalUnavailable = ''owner_approval_unavailable: start with --owner-control and provide an owner terminal or a writable owner-only pairing directory (identity replacement requires an owner terminal)''"
| "pairing_error_text (Io s) = ''pairing store error: '' @ s"

section \<open>Reservations\<close>

definition spend_matches ::
  "pairing_ops \<Rightarrow> pairing_cfg \<Rightarrow> reservation_authority \<Rightarrow> string \<Rightarrow> u64 \<Rightarrow> string \<Rightarrow> int \<Rightarrow> spend_grant \<Rightarrow> bool" where
  "spend_matches x cfg auth client_id epoch fingerprint now g =
     ((case ra_expected_op_id auth of None \<Rightarrow> True | Some op_id \<Rightarrow> sg_op_id g = op_id)
      \<and> permits_spend_grant x cfg g \<and> sg_client_id g = client_id \<and> sg_epoch g = epoch
      \<and> sg_identity_fingerprint g = fingerprint \<and> is_live now g)"

text \<open>The durable funding of a call, recorded with its hold.\<close>

definition bind_call :: "reservation_authority \<Rightarrow> string \<Rightarrow> pairing_file \<Rightarrow> pairing_file" where
  "bind_call auth op_id f =
     (case ra_call auth of
        None \<Rightarrow> f
      | Some terms \<Rightarrow> f \<lparr> pf_call_spend_grants :=
            bt_insert (ct_peer terms @ '':'' @ ct_call_id terms) op_id (pf_call_spend_grants f) \<rparr>)"

definition unbind_call :: "reservation_authority \<Rightarrow> pairing_file \<Rightarrow> pairing_file \<Rightarrow> pairing_file" where
  "unbind_call auth before f =
     (case ra_call auth of
        None \<Rightarrow> f
      | Some terms \<Rightarrow>
          let key = ct_peer terms @ '':'' @ ct_call_id terms in
          f \<lparr> pf_call_spend_grants :=
                (case bt_get (pf_call_spend_grants before) key of
                   Some previous \<Rightarrow> bt_insert key previous (pf_call_spend_grants f)
                 | None \<Rightarrow> bt_remove key (pf_call_spend_grants f)) \<rparr>)"

text \<open>A refused reservation may leave the observation of the breaker that refused it.\<close>

definition refuse_reservation ::
  "world \<Rightarrow> bool \<Rightarrow> nat \<Rightarrow> spend_grant \<Rightarrow> grant_budget \<Rightarrow> budget_refusal \<Rightarrow> node
   \<Rightarrow> ((budget_refusal + reservation) \<times> node) option" where
  "refuse_reservation w in_memory idx g b refusal nd =
     (let (changed, b') = record_breaker_refusal refusal (w_unix w) b;
          nd1 = set_file (put_budget idx (Some b') (nd_file nd)) nd in
      if changed \<and> \<not> in_memory
      then (case save_node w nd1 of
              None \<Rightarrow> None
            | Some (Inl e, nd2) \<Rightarrow>
                Some (Inl (Ledger (pairing_error_text e)),
                      set_file (restore_budget (sg_op_id g) (Some b) (nd_file nd2)) nd2)
            | Some (Inr _, nd2) \<Rightarrow> Some (Inl refusal, nd2))
      else Some (Inl refusal, nd1))"

definition keep_reservation ::
  "world \<Rightarrow> int \<Rightarrow> reservation_authority \<Rightarrow> nat \<Rightarrow> grant_budget \<Rightarrow> grant_budget \<Rightarrow> reservation \<Rightarrow> node
   \<Rightarrow> ((budget_refusal + reservation) \<times> node) option" where
  "keep_reservation w later auth idx b b' res nd =
     (case (case ra_before_persist auth of None \<Rightarrow> None | Some journal \<Rightarrow> journal res) of
        Some e \<Rightarrow> Some (Inl e, nd)
      | None \<Rightarrow>
          let nd1 = set_file (bind_call auth (rs_op_id res) (put_budget idx (Some b') (nd_file nd))) nd in
          if ra_in_memory auth then Some (Inr res, nd1)
          else (case save_node w nd1 of
                  None \<Rightarrow> None
                | Some (Inl e, nd2) \<Rightarrow>
                    Some (Inl (Ledger (pairing_error_text e)),
                          set_file (restore_budget (rs_op_id res) (Some b)
                            (unbind_call auth (nd_file nd) (nd_file nd2))) nd2)
                | Some (Inr _, nd2) \<Rightarrow>
                    if list_ex (\<lambda>g. sg_op_id g = rs_op_id res \<and> is_live later g) (pf_grants (nd_file nd2))
                    then Some (Inr res, nd2) else Some (Inl NoGrant, nd2)))"

definition reserve_spend_locked ::
  "pairing_ops \<Rightarrow> pairing_cfg \<Rightarrow> world \<Rightarrow> int \<Rightarrow> string \<Rightarrow> string \<Rightarrow> u64 \<Rightarrow> charge list \<Rightarrow> reservation_authority
   \<Rightarrow> node \<Rightarrow> ((budget_refusal + reservation) \<times> node) option" where
  "reserve_spend_locked x cfg w later rid client_id epoch charges auth nd =
     (let f = nd_file nd; now = w_unix w; stop = (\<lambda>e. Some (Inl e, nd)) in
      if map_option pc_epoch (find_client client_id f) \<noteq> Some epoch then stop NoGrant
      else case find_index (spend_matches x cfg auth client_id epoch
                  (in_identity_fingerprint (nd_inner nd)) now) (pf_grants f) of
        None \<Rightarrow> stop NoGrant
      | Some idx \<Rightarrow>
          let g = pf_grants f ! idx in
          if ra_payment auth \<and> is_messaging g then stop MessagingGrant
          else if ra_liquidity auth \<and> \<not> (case sg_budget g of None \<Rightarrow> False | Some b \<Rightarrow> gb_allow_liquidity_fees b)
          then stop (Unpriced ''grant does not authorize liquidity fees'')
          else (case sg_budget g of
                  None \<Rightarrow> stop NoGrant
                | Some b \<Rightarrow>
                    (case ledger_refusal auth b of
                       Some r \<Rightarrow> stop r
                     | None \<Rightarrow>
                         (case reserve_for_purpose auth charges now b of
                            Inl r \<Rightarrow> refuse_reservation w (ra_in_memory auth) idx g b r nd
                          | Inr b1 \<Rightarrow>
                              keep_reservation w later auth idx b (record_admission rid auth charges b1)
                                \<lparr> rs_id = rid, rs_client_id = client_id, rs_op_id = sg_op_id g,
                                  rs_charges = charges \<rparr> nd))))"

definition reserve_spend ::
  "pairing_ops \<Rightarrow> pairing_cfg \<Rightarrow> world \<Rightarrow> int \<Rightarrow> string \<Rightarrow> string \<Rightarrow> u64 \<Rightarrow> charge list
   \<Rightarrow> node \<Rightarrow> ((budget_refusal + reservation) \<times> node) option" where
  "reserve_spend x cfg w later rid client_id epoch charges nd =
     Option.bind (lock_node w nd) (reserve_spend_locked x cfg w later rid client_id epoch charges default_authority)"

definition reserve_liquidity_fee ::
  "pairing_ops \<Rightarrow> pairing_cfg \<Rightarrow> world \<Rightarrow> int \<Rightarrow> string \<Rightarrow> string \<Rightarrow> u64 \<Rightarrow> charge list
   \<Rightarrow> node \<Rightarrow> ((budget_refusal + reservation) \<times> node) option" where
  "reserve_liquidity_fee x cfg w later rid client_id epoch charges nd =
     Option.bind (lock_node w nd) (reserve_spend_locked x cfg w later rid client_id epoch charges
       (default_authority \<lparr> ra_liquidity := True \<rparr>))"

definition reserve_operation_spend ::
  "pairing_ops \<Rightarrow> pairing_cfg \<Rightarrow> world \<Rightarrow> int \<Rightarrow> string \<Rightarrow> string \<Rightarrow> u64 \<Rightarrow> charge list \<Rightarrow> operation_link
   \<Rightarrow> node \<Rightarrow> ((budget_refusal + reservation) \<times> node) option" where
  "reserve_operation_spend x cfg w later rid client_id epoch charges operation nd =
     Option.bind (lock_node w nd) (reserve_spend_locked x cfg w later rid client_id epoch charges
       (default_authority \<lparr> ra_operation := Some operation \<rparr>))"

definition reserve_spend_linked ::
  "pairing_ops \<Rightarrow> pairing_cfg \<Rightarrow> world \<Rightarrow> int \<Rightarrow> string \<Rightarrow> string \<Rightarrow> u64 \<Rightarrow> charge list
   \<Rightarrow> (reservation \<Rightarrow> budget_refusal option) \<Rightarrow> node \<Rightarrow> ((budget_refusal + reservation) \<times> node) option" where
  "reserve_spend_linked x cfg w later rid client_id epoch charges before_persist nd =
     Option.bind (lock_node w nd) (reserve_spend_locked x cfg w later rid client_id epoch charges
       (default_authority \<lparr> ra_before_persist := Some before_persist \<rparr>))"

definition reserve_payment ::
  "pairing_ops \<Rightarrow> pairing_cfg \<Rightarrow> world \<Rightarrow> int \<Rightarrow> string \<Rightarrow> string \<Rightarrow> u64 \<Rightarrow> charge list \<Rightarrow> string list
   \<Rightarrow> node \<Rightarrow> ((budget_refusal + reservation) \<times> node) option" where
  "reserve_payment x cfg w later rid client_id epoch charges payment_ids nd =
     Option.bind (lock_node w nd) (reserve_spend_locked x cfg w later rid client_id epoch charges
       (default_authority \<lparr> ra_payment_ids := payment_ids, ra_payment := True \<rparr>))"

text \<open>The reservations of operations that are still pending, found again after a restart.\<close>

definition pending_operation_reservations :: "pairing_file \<Rightarrow> (operation_link \<times> reservation) list" where
  "pending_operation_reservations f =
     concat (map (\<lambda>g. case sg_budget g of
         None \<Rightarrow> []
       | Some b \<Rightarrow> concat (map (\<lambda>(rid, link). case bt_get (gb_pending b) rid of
             None \<Rightarrow> []
           | Some recipients \<Rightarrow>
               [(link, \<lparr> rs_id = rid, rs_client_id = sg_client_id g, rs_op_id = sg_op_id g,
                         rs_charges = map (\<lambda>(r, m). \<lparr> ch_recipient = r, ch_amount_msat = m \<rparr>) recipients \<rparr>)])
           (gb_operation_links b))) (pf_grants f))"

section \<open>Dispatch\<close>

definition dispatch_valid ::
  "pairing_ops \<Rightarrow> pairing_cfg \<Rightarrow> int \<Rightarrow> reservation \<Rightarrow> (string \<times> string) option \<Rightarrow> call_payment option
   \<Rightarrow> inner \<Rightarrow> spend_grant \<Rightarrow> bool" where
  "dispatch_valid x cfg now res call purpose i g =
     (permits_spend_grant x cfg g \<and> sg_op_id g = rs_op_id res
      \<and> (case sg_budget g of
           None \<Rightarrow> False
         | Some b \<Rightarrow>
             (case bt_get (gb_pending b) (rs_id res) of
                None \<Rightarrow> False | Some recipients \<Rightarrow> envelopes_live b (map fst recipients) now)
             \<and> (case call of
                  None \<Rightarrow> True
                | Some (callee, call_id) \<Rightarrow>
                    list_ex (\<lambda>(_, hold). ct_peer (cs_terms hold) = callee \<and> ct_call_id (cs_terms hold) = call_id
                        \<and> \<not> cs_closed hold \<and> check_call_hold (cs_terms hold) b = None) (gb_call_reservations b))
             \<and> (case purpose of None \<Rightarrow> True | Some p \<Rightarrow> check_call_debit (rs_charges res) p b = None))
      \<and> sg_client_id g = rs_client_id res \<and> sg_identity_fingerprint g = in_identity_fingerprint i
      \<and> Spend \<in> set (sg_scopes g) \<and> is_live now g
      \<and> list_ex (\<lambda>c. pc_client_id c = sg_client_id g \<and> pc_epoch c = sg_epoch g
            \<and> pc_identity_fingerprint c = in_identity_fingerprint i) (pf_clients (in_file i)))"

text \<open>The dispatch step itself is the caller's; it runs when the answer is not a refusal.\<close>

definition with_call_spend_authority_at ::
  "pairing_ops \<Rightarrow> pairing_cfg \<Rightarrow> world \<Rightarrow> int \<Rightarrow> reservation \<Rightarrow> (string \<times> string) option
   \<Rightarrow> call_payment option \<Rightarrow> node \<Rightarrow> (budget_refusal option \<times> node) option" where
  "with_call_spend_authority_at x cfg w now res call purpose nd =
     map_option (\<lambda>nd.
       let i = nd_inner nd; purpose = (case purpose of Some p \<Rightarrow> Some p | None \<Rightarrow> map_option (\<lambda>_. Media) call) in
       (if \<not> list_ex (dispatch_valid x cfg now res call purpose i) (pf_grants (in_file i)) then Some NoGrant
        else if list_ex (\<lambda>g. sg_op_id g = rs_op_id res \<and> sg_client_id g = rs_client_id res
                \<and> (case sg_budget g of None \<Rightarrow> False | Some b \<Rightarrow> is_paused b)) (pf_grants (in_file i))
        then Some GrantPaused else None, nd)) (lock_node w nd)"

definition reservation_contact_budget :: "reservation \<Rightarrow> string \<Rightarrow> pairing_file \<Rightarrow> u64 option" where
  "reservation_contact_budget res recipient f =
     Option.bind (Option.bind (find (\<lambda>g. sg_op_id g = rs_op_id res \<and> sg_client_id g = rs_client_id res) (pf_grants f))
       sg_budget) (\<lambda>b. bt_get (gb_per_recipient_msat b) recipient)"

section \<open>Resolution and resets\<close>

text \<open>A resolution that finds nothing to resolve succeeds without a save.\<close>

definition try_resolve_spend_outcome ::
  "world \<Rightarrow> reservation \<Rightarrow> string \<Rightarrow> u64 \<Rightarrow> bool \<Rightarrow> node \<Rightarrow> ((pairing_error + unit) \<times> node) option" where
  "try_resolve_spend_outcome w res recipient actual payment_failed nd =
     Option.bind (lock_node w nd) (\<lambda>nd.
       let f = nd_file nd in
       case find_index (\<lambda>g. sg_op_id g = rs_op_id res \<and> sg_client_id g = rs_client_id res) (pf_grants f) of
         None \<Rightarrow> Some (Inr (), nd)
       | Some idx \<Rightarrow>
           (case sg_budget (pf_grants f ! idx) of
              None \<Rightarrow> Some (Inr (), nd)
            | Some b \<Rightarrow>
                (case resolve_pending (w_unix w) (rs_id res) recipient actual payment_failed b of
                   (Some e, _) \<Rightarrow> Some (Inl (Malformed e), nd)
                 | (None, b') \<Rightarrow>
                     if pending_part (rs_id res) recipient b = None then Some (Inr (), nd)
                     else (case save_node w (set_file (put_budget idx (Some b') f) nd) of
                             None \<Rightarrow> None
                           | Some (Inl e, nd2) \<Rightarrow>
                               Some (Inl e, set_file (restore_budget (rs_op_id res) (Some b) (nd_file nd2)) nd2)
                           | Some (Inr _, nd2) \<Rightarrow> Some (Inr (), nd2)))))"

definition reset_grant_breakers ::
  "pairing_cfg \<Rightarrow> world \<Rightarrow> string \<Rightarrow> string \<Rightarrow> node \<Rightarrow> ((pairing_error + unit) \<times> node) option" where
  "reset_grant_breakers cfg w client_id op_id nd =
     (if \<not> owner_control_enabled cfg then Some (Inl OwnerChannelUnavailable, nd)
      else Option.bind (lock_node w nd) (\<lambda>nd.
        let f = nd_file nd in
        case find_index (\<lambda>g. sg_client_id g = client_id \<and> sg_op_id g = op_id \<and> is_live (w_unix w) g) (pf_grants f) of
          None \<Rightarrow> Some (Inl UnknownOperation, nd)
        | Some idx \<Rightarrow>
            (case sg_budget (pf_grants f ! idx) of
               None \<Rightarrow> Some (Inl UnknownOperation, nd)
             | Some b \<Rightarrow>
                 (case save_node w (set_file (put_budget idx (Some (reset_breakers b)) f) nd) of
                    None \<Rightarrow> None
                  | Some (Inl e, nd2) \<Rightarrow>
                      Some (Inl e, set_file (restore_budget op_id (Some b) (nd_file nd2)) nd2)
                  | Some (Inr _, nd2) \<Rightarrow> Some (Inr (), nd2)))))"

section \<open>Views of grants\<close>

record grant_view =
  gv_breakers :: breaker_status_view
  gv_payee_allowlist :: "string list option"
  gv_allow_liquidity_fees :: bool
  gv_op_id :: string
  gv_client_id :: string
  gv_granted_at :: int
  gv_expires_at :: int
  gv_budget_msat :: u64
  gv_used_msat :: u64
  gv_remaining_msat :: u64
  gv_per_call_max_msat :: u64
  gv_message_per_payment_max_msat :: u64
  gv_call_per_payment_max_msat :: "u64 option"
  gv_per_recipient_msat :: "(string, u64) btmap"
  gv_used_by_recipient :: "(string, u64) btmap"
  gv_recipients_only :: bool
  gv_per_act_max_by_recipient :: "(string, u64) btmap"
  gv_recipient_expires_at :: "(string, int) btmap"
  gv_envelope_id_by_recipient :: "(string, string option) btmap"

definition grant_view_of :: "int \<Rightarrow> spend_grant \<Rightarrow> grant_view option" where
  "grant_view_of now g = map_option (\<lambda>b.
     \<lparr> gv_breakers = breaker_status b now, gv_payee_allowlist = gb_payee_allowlist b,
       gv_allow_liquidity_fees = gb_allow_liquidity_fees b, gv_op_id = sg_op_id g, gv_client_id = sg_client_id g, gv_granted_at = sg_granted_at g,
       gv_expires_at = sg_expires_at g, gv_budget_msat = gb_budget_msat b, gv_used_msat = gb_used_msat b,
       gv_remaining_msat = remaining_msat b, gv_per_call_max_msat = gb_per_call_max_msat b,
       gv_message_per_payment_max_msat = messaging_per_call_max_msat b,
       gv_call_per_payment_max_msat = call_per_payment_max_msat b,
       gv_per_recipient_msat = gb_per_recipient_msat b, gv_used_by_recipient = gb_used_by_recipient b,
       gv_recipients_only = gb_recipients_only b,
       gv_per_act_max_by_recipient = gb_per_act_max_by_recipient b,
       gv_recipient_expires_at = gb_recipient_expires_at b,
       gv_envelope_id_by_recipient =
         map (\<lambda>(r, _). (r, bt_get (gb_envelope_id_by_recipient b) r)) (gb_per_recipient_msat b) \<rparr>)
     (sg_budget g)"

definition grant_views :: "int \<Rightarrow> pairing_file \<Rightarrow> grant_view list" where
  "grant_views now f = List.map_filter (grant_view_of now) (filter (is_live now) (pf_grants f))"

definition grant_view_for :: "pairing_ops \<Rightarrow> pairing_cfg \<Rightarrow> int \<Rightarrow> string \<Rightarrow> pairing_file \<Rightarrow> grant_view option" where
  "grant_view_for x cfg now client_id f =
     (case List.map_filter (grant_view_of now)
             (filter (\<lambda>g. sg_client_id g = client_id \<and> is_live now g \<and> permits_spend_grant x cfg g) (pf_grants f)) of
        [] \<Rightarrow> None | v # _ \<Rightarrow> Some v)"

text \<open>The delay of the cleanup scheduler in milliseconds, read on a millisecond clock.\<close>

definition i64_sat_mul :: "int \<Rightarrow> int \<Rightarrow> int" where
  "i64_sat_mul a b = max i64_min (min i64_max (a * b))"

definition grant_cleanup_delay :: "int \<Rightarrow> pairing_file \<Rightarrow> nat" where
  "grant_cleanup_delay now_millis f =
     (let delay = (\<lambda>t. nat (max (i64_sat_sub (i64_sat_mul t 1000) now_millis) 0));
          all = map (delay \<circ> sg_expires_at) (pf_grants f) @ map (delay \<circ> fd_expires_at) (pf_front_door_grants f)
      in min (fold min all (if all = [] then 1000 else hd all)) 1000)"

section \<open>Samples\<close>

definition sample_grant :: spend_grant where
  "sample_grant =
     \<lparr> sg_op_id = ''op'', sg_client_id = sample_phone, sg_scopes = [Spend], sg_granted_at = 900, sg_expires_at = 2000,
       sg_identity_fingerprint = ''id'', sg_epoch = 1, sg_granted_by = ''cli'',
       sg_budget = Some (from_terms (terms_new 100000)), sg_owner_approval = None \<rparr>"

definition sample_spend_node :: node where
  "sample_spend_node =
     (let f = pairing_file_new \<lparr> pf_clients := [sample_client 1], pf_grants := [sample_grant] \<rparr>
      in \<lparr> nd_inner = fresh_inner f ''id'', nd_disk = [f] \<rparr>)"

definition same_meter :: "spend_grant \<Rightarrow> spend_grant \<Rightarrow> bool" where
  "same_meter g g' \<longleftrightarrow> g' = g \<lparr> sg_budget := sg_budget g' \<rparr> \<and> rel_option same_funds (sg_budget g) (sg_budget g')"

definition meters_kept :: "int \<Rightarrow> pairing_file \<Rightarrow> pairing_file \<Rightarrow> bool" where
  "meters_kept t f f' \<longleftrightarrow> (\<forall>g' \<in> set (pf_grants f'). is_live t g' \<longrightarrow> (\<exists>g \<in> set (pf_grants f). same_meter g g'))"

section \<open>Facts\<close>

lemma find_index_Some: "find_index P ys = Some n \<Longrightarrow> n < length ys \<and> P (ys ! n)"
  by (induction ys arbitrary: n) (auto split: if_splits)

lemma update_first_distinct:
  "distinct (map h ys) \<Longrightarrow> n < length ys \<Longrightarrow> update_first (\<lambda>y. h y = h (ys ! n)) k ys = ys[n := k (ys ! n)]"
proof (induction ys arbitrary: n)
  case (Cons y ys)
  show ?case
  proof (cases n)
    case 0 then show ?thesis by simp
  next
    case (Suc m)
    then have "h y \<noteq> h (ys ! m)" using Cons.prems by auto
    then show ?thesis using Cons Suc by simp
  qed
qed simp

lemma grants_sel [simp]:
  "pf_grants (put_budget n b f) = (pf_grants f)[n := (pf_grants f ! n) \<lparr> sg_budget := b \<rparr>]"
  "pf_grants (bind_call auth op f) = pf_grants f" "pf_grants (unbind_call auth f0 f) = pf_grants f"
  by (auto simp: put_budget_def bind_call_def unbind_call_def Let_def split: option.splits)

lemma restore_put:
  assumes "distinct (map sg_op_id (pf_grants f))" "n < length (pf_grants f)"
    "pf_grants f' = (pf_grants f)[n := (pf_grants f ! n) \<lparr> sg_budget := b \<rparr>]"
  shows "pf_grants (restore_budget (sg_op_id (pf_grants f ! n)) (sg_budget (pf_grants f ! n)) f') = pf_grants f"
proof -
  let ?gs = "(pf_grants f)[n := (pf_grants f ! n) \<lparr> sg_budget := b \<rparr>]"
  have "map sg_op_id ?gs = map sg_op_id (pf_grants f)"
    using assms(2) by (simp add: map_update list_update_same_conv)
  then have "distinct (map sg_op_id ?gs)" "n < length ?gs" using assms(1,2) by simp_all
  from update_first_distinct [OF this, of "\<lambda>g. g \<lparr> sg_budget := sg_budget (pf_grants f ! n) \<rparr>"]
  show ?thesis using assms(2,3) by (simp add: restore_budget_def)
qed

lemma same_funds_refl [simp]: "same_funds b b"
  by (simp add: same_funds_def)

lemma save_failed_file: "save_node w nd = Some (Inl e, nd') \<Longrightarrow> nd_file nd' = nd_file nd"
  by (auto simp: save_node_def dest!: persist_frame(4) split: option.splits)

lemma saved_grants: "save_node w nd = Some (r, nd') \<Longrightarrow> set (pf_grants (nd_file nd')) \<subseteq> set (pf_grants (nd_file nd))"
  using same_registry_fields(7) [OF save_frame(1)] .

text \<open>The grants of a file after the meter at one position was replaced.\<close>

lemma put_grant_cases:
  assumes "g' \<in> set (gs[n := y])" "n < length gs"
  obtains "g' = y" | m where "m < length gs" "m \<noteq> n" "g' = gs ! m"
  using assms by (auto simp: in_set_conv_nth nth_list_update split: if_splits)

lemma other_op:
  assumes "distinct (map sg_op_id gs)" "n < length gs" "m < length gs" "m \<noteq> n"
  shows "sg_op_id (gs ! m) \<noteq> sg_op_id (gs ! n)"
  using assms nth_eq_iff_index_eq [of "map sg_op_id gs" m n] by simp

lemma same_meter_refl [simp]: "same_meter g g"
  by (simp add: same_meter_def option.rel_refl)

lemma meters_kept_refl: "set (pf_grants f') \<subseteq> set (pf_grants f) \<Longrightarrow> meters_kept t f f'"
  unfolding meters_kept_def using same_meter_refl by blast

lemma refused_meters:
  assumes "refuse_reservation w im n (pf_grants (nd_file nd) ! n) b e nd = Some (r, nd')"
    "distinct (map sg_op_id (pf_grants (nd_file nd)))" "n < length (pf_grants (nd_file nd))"
    "sg_budget (pf_grants (nd_file nd) ! n) = Some b"
  shows "isl r" "meters_kept t (nd_file nd) (nd_file nd')"
proof -
  let ?f = "nd_file nd" and ?b = "snd (record_breaker_refusal e (w_unix w) b)"
  let ?nd1 = "set_file (put_budget n (Some ?b) ?f) nd"
  have put: "\<exists>g \<in> set (pf_grants ?f). same_meter g g'"
    if "g' \<in> set ((pf_grants ?f)[n := (pf_grants ?f ! n) \<lparr> sg_budget := Some ?b \<rparr>])" for g'
    using that assms(3)
  proof (cases rule: put_grant_cases)
    case 1
    then have "same_meter (pf_grants ?f ! n) g'" using assms(4) refusal_same_funds by (simp add: same_meter_def)
    then show ?thesis using assms(3) nth_mem by blast
  next
    case (2 m) then show ?thesis using same_meter_refl nth_mem by metis
  qed
  note def = assms(1) [unfolded refuse_reservation_def Let_def split_beta]
  show "isl r" using def by (auto split: if_splits option.splits prod.splits sum.splits)
  show "meters_kept t ?f (nd_file nd')"
  proof (cases "fst (record_breaker_refusal e (w_unix w) b) \<and> \<not> im")
    case False
    then have "nd' = ?nd1" using def by auto
    then show ?thesis using put by (simp add: meters_kept_def)
  next
    case True
    then obtain q nd2 where q: "save_node w ?nd1 = Some (q, nd2)" using def by (auto split: option.splits)
    show ?thesis
    proof (cases q)
      case (Inl err)
      then have "pf_grants (nd_file nd') = pf_grants ?f"
        using True def q save_failed_file [of w ?nd1 err nd2] assms(4) restore_put [OF assms(2,3), of "nd_file nd2" "Some ?b"]
        by auto
      then show ?thesis by (simp add: meters_kept_refl)
    next
      case (Inr u)
      then show ?thesis using True def q saved_grants [OF q] put by (auto simp: meters_kept_def)
    qed
  qed
qed

text \<open>The two outcomes of a save that carries a new reservation.\<close>

lemma saved_reservation:
  assumes "distinct (map sg_op_id gs)" "n < length gs" "new = (gs ! n) \<lparr> sg_budget := Some b' \<rparr>"
    "save_node w nd1 = Some (Inr u, nd')" "pf_grants (nd_file nd1) = gs[n := new]" "gs = pf_grants f"
  shows "list_ex (\<lambda>g. sg_op_id g = sg_op_id (gs ! n) \<and> is_live t g) (pf_grants (nd_file nd'))
      \<Longrightarrow> nd_disk nd' = [nd_file nd'] \<and> new \<in> set (pf_grants (nd_file nd')) \<and> is_live t new"
    and "\<not> list_ex (\<lambda>g. sg_op_id g = sg_op_id (gs ! n) \<and> is_live t g) (pf_grants (nd_file nd'))
      \<Longrightarrow> meters_kept t f (nd_file nd')"
proof -
  have sub: "set (pf_grants (nd_file nd')) \<subseteq> set (gs[n := new])" using saved_grants [OF assms(4)] assms(5) by simp
  have op: "g' = new" if "g' \<in> set (pf_grants (nd_file nd'))" "sg_op_id g' = sg_op_id (gs ! n)" for g'
    using subsetD [OF sub that(1)] assms(2)
    by (cases rule: put_grant_cases) (use other_op [OF assms(1,2)] that(2) in auto)
  have "nd_disk nd' = [nd_file nd']" using save_frame(3) [OF assms(4)] by simp
  then show "list_ex (\<lambda>g. sg_op_id g = sg_op_id (gs ! n) \<and> is_live t g) (pf_grants (nd_file nd'))
      \<Longrightarrow> nd_disk nd' = [nd_file nd'] \<and> new \<in> set (pf_grants (nd_file nd')) \<and> is_live t new"
    using op by (auto simp: list_ex_iff)
  assume dead: "\<not> list_ex (\<lambda>g. sg_op_id g = sg_op_id (gs ! n) \<and> is_live t g) (pf_grants (nd_file nd'))"
  have "\<exists>g \<in> set gs. same_meter g g'" if g': "g' \<in> set (pf_grants (nd_file nd'))" "is_live t g'" for g'
    using subsetD [OF sub g'(1)] assms(2)
  proof (cases rule: put_grant_cases)
    case 1 then show ?thesis using dead g' assms(3) by (auto simp: list_ex_iff)
  next
    case (2 m) then show ?thesis using same_meter_refl nth_mem by metis
  qed
  then show "meters_kept t f (nd_file nd')" using assms(6) by (simp add: meters_kept_def)
qed

lemma kept_reservation:
  assumes "keep_reservation w later auth n b b' res nd = Some (r, nd')" "\<not> ra_in_memory auth"
    "distinct (map sg_op_id (pf_grants (nd_file nd)))" "n < length (pf_grants (nd_file nd))"
    "sg_budget (pf_grants (nd_file nd) ! n) = Some b" "rs_op_id res = sg_op_id (pf_grants (nd_file nd) ! n)"
  defines "new \<equiv> (pf_grants (nd_file nd) ! n) \<lparr> sg_budget := Some b' \<rparr>"
  shows "case r of Inr res' \<Rightarrow> res' = res \<and> nd_disk nd' = [nd_file nd'] \<and> new \<in> set (pf_grants (nd_file nd')) \<and> is_live later new
    | Inl e \<Rightarrow> meters_kept later (nd_file nd) (nd_file nd')"
proof (cases "case ra_before_persist auth of None \<Rightarrow> None | Some journal \<Rightarrow> journal res")
  case (Some err)
  then show ?thesis using assms(1) by (auto simp: keep_reservation_def meters_kept_refl)
next
  case None
  let ?f = "nd_file nd"
  let ?nd1 = "set_file (bind_call auth (rs_op_id res) (put_budget n (Some b') ?f)) nd"
  have grants: "pf_grants (nd_file ?nd1) = (pf_grants ?f)[n := new]" by (simp add: new_def)
  note def = assms(1) [unfolded keep_reservation_def Let_def]
  obtain q nd2 where q: "save_node w ?nd1 = Some (q, nd2)" using def assms(2) None by (auto split: option.splits)
  show ?thesis
  proof (cases q)
    case (Inl err)
    have "pf_grants (nd_file nd2) = (pf_grants ?f)[n := new]" using save_failed_file q Inl grants by metis
    then have "pf_grants (nd_file (set_file (restore_budget (rs_op_id res) (Some b) (unbind_call auth ?f (nd_file nd2))) nd2))
        = pf_grants ?f"
      using assms(5,6) restore_put [OF assms(3,4), of "unbind_call auth ?f (nd_file nd2)" "Some b'"]
      by (simp add: new_def)
    then show ?thesis using def None assms(2) q Inl by (auto simp: meters_kept_refl)
  next
    case (Inr u)
    note out = saved_reservation [OF assms(3,4) new_def [THEN meta_eq_to_obj_eq] q [unfolded Inr] grants refl, of later]
    show ?thesis using def None assms(2,6) q Inr out by (auto split: if_splits)
  qed
qed

text \<open>
  (C28) A reservation is durable before it is returned, and a refusal reserves nothing. When
  the ledger returns a reservation, the grant it names was the client's own live and permitted
  grant, its meter admitted the charges and counts them, the grant is still live, and the only
  version of the file a restart can find is the one that holds the reservation. When the ledger
  refuses, whatever the reason, a failed save included, no meter of a grant that is still live
  has changed what it counts or holds.
\<close>

theorem reservation_durable:
  assumes "reserve_spend_locked x cfg w later rid cid epoch charges auth nd = Some (r, nd')"
    "\<not> ra_in_memory auth" "distinct (map sg_op_id (pf_grants (nd_file nd)))"
  shows "case r of
      Inr res \<Rightarrow> rs_id res = rid \<and> rs_client_id res = cid \<and> rs_charges res = charges \<and> nd_disk nd' = [nd_file nd']
        \<and> (\<exists>g \<in> set (pf_grants (nd_file nd)). \<exists>b b'.
             sg_op_id g = rs_op_id res \<and> spend_matches x cfg auth cid epoch (in_identity_fingerprint (nd_inner nd)) (w_unix w) g
             \<and> sg_budget g = Some b \<and> admit_charges rid auth charges (w_unix w) b = (Inr (), b')
             \<and> g \<lparr> sg_budget := Some b' \<rparr> \<in> set (pf_grants (nd_file nd')) \<and> is_live later (g \<lparr> sg_budget := Some b' \<rparr>))
    | Inl e \<Rightarrow> meters_kept later (nd_file nd) (nd_file nd')"
proof -
  let ?f = "nd_file nd" and ?fp = "in_identity_fingerprint (nd_inner nd)"
  have same: "meters_kept later ?f (nd_file nd)" by (simp add: meters_kept_refl)
  note def = assms(1) [unfolded reserve_spend_locked_def Let_def]
  show ?thesis
  proof (cases "find_index (spend_matches x cfg auth cid epoch ?fp (w_unix w)) (pf_grants ?f)")
    case None then show ?thesis using def same by (auto split: if_splits)
  next
    case (Some n)
    note n = find_index_Some [OF Some]
    let ?g = "pf_grants ?f ! n"
    show ?thesis
    proof (cases "\<exists>b b1. sg_budget ?g = Some b \<and> ledger_refusal auth b = None \<and> reserve_for_purpose auth charges (w_unix w) b = Inr b1")
      case False
      then show ?thesis using def same Some n refused_meters [OF _ assms(3), of w _ n] isl_def
        by (fastforce split: if_splits option.splits sum.splits)
    next
      case True
      then obtain b b1 where b: "sg_budget ?g = Some b" "ledger_refusal auth b = None"
          "reserve_for_purpose auth charges (w_unix w) b = Inr b1" by blast
      let ?res = "\<lparr> rs_id = rid, rs_client_id = cid, rs_op_id = sg_op_id ?g, rs_charges = charges \<rparr>"
      have adm: "admit_charges rid auth charges (w_unix w) b = (Inr (), record_admission rid auth charges b1)"
        using b by (simp add: admit_charges_def)
      show ?thesis
      proof (cases "nd' = nd \<and> isl r")
        case True then show ?thesis using same by (auto simp: isl_def)
      next
        case False
        then have "keep_reservation w later auth n b (record_admission rid auth charges b1) ?res nd = Some (r, nd')"
          using def Some b by (auto split: if_splits)
        from kept_reservation [OF this assms(2,3) conjunct1 [OF n] b(1)] show ?thesis
          using n b(1) adm nth_mem [of n "pf_grants ?f"] by (cases r) auto
      qed
    qed
  qed
qed

lemma sample_grants_saved:
  assumes "\<forall>g \<in> set (pf_grants (nd_file nd)). is_live 1000 g \<and> is_live 1001 g"
    "pf_front_door_grants (nd_file nd) = []" "pf_version (nd_file nd) = PAIRING_FILE_VERSION"
  shows "save_node sample_world nd = Some (Inr (), nd \<lparr> nd_disk := [nd_file nd] \<rparr>)"
proof -
  have keep: "filter (is_live 1000) (pf_grants (nd_file nd)) = pf_grants (nd_file nd)" using assms(1) by (simp add: filter_id_conv)
  have "persist sample_env (nd_file nd) d = Some (Inr (), nd_file nd, [nd_file nd])" for d
    using assms keep by (cases "nd_file nd") (auto simp: persist_def persist_loop.simps [of sample_env] sample_env_def
        has_dead_grant_def retain_live_grants_def list_ex_iff Let_def)
  then show ?thesis by (cases nd) (simp add: save_node_def sample_world_def set_file_def)
qed

lemma sample_reserved:
  "\<exists>res nd'. reserve_spend_locked sample_pairing_ops (sample_cfg \<lparr> owner_control_enabled := True \<rparr>) sample_world 1001
     ''r1'' sample_phone 1 sample_charges sample_auth sample_spend_node = Some (Inr res, nd')"
proof -
  have live: "is_live 1000 (sample_grant \<lparr> sg_budget := Some b \<rparr>)" "is_live 1001 (sample_grant \<lparr> sg_budget := Some b \<rparr>)" for b
    by (simp_all add: is_live_def sample_grant_def i64_wrap_def MAX_SPEND_GRANT_TTL_SECS_def)
  have sel: "nd_file sample_spend_node = pairing_file_new \<lparr> pf_clients := [sample_client 1], pf_grants := [sample_grant] \<rparr>"
    "in_identity_fingerprint (nd_inner sample_spend_node) = ''id''"
    by (simp_all add: sample_spend_node_def Let_def fresh_inner_def)
  have self: "sample_grant \<lparr> sg_budget := Some (from_terms (terms_new 100000)) \<rparr> = sample_grant" by (simp add: sample_grant_def)
  have "spend_matches sample_pairing_ops (sample_cfg \<lparr> owner_control_enabled := True \<rparr>) sample_auth sample_phone 1 ''id'' 1000 sample_grant"
    using live(1) [of "from_terms (terms_new 100000)", unfolded self]
    by (simp add: spend_matches_def sample_auth_def default_authority_def permits_spend_grant_def sample_cfg_def sample_grant_def)
  moreover have "\<not> isl (reserve_for_purpose sample_auth sample_charges 1000 (from_terms (terms_new 100000)))"
    by (simp add: admit_eval reserve_eval terms_eval sample_charges_def)
  then obtain b1 where "reserve_for_purpose sample_auth sample_charges 1000 (from_terms (terms_new 100000)) = Inr b1"
    by (auto simp: isl_def intro: sum.exhaust)
  moreover have "ledger_refusal sample_auth (from_terms (terms_new 100000)) = None"
    by (simp add: ledger_refusal_def sample_auth_def default_authority_def from_terms_def)
  moreover have "find_client sample_phone (nd_file sample_spend_node) = Some (sample_client 1)"
    by (simp add: sel find_client_def sample_client_def)
  moreover have "\<not> is_messaging sample_grant" "sg_budget sample_grant = Some (from_terms (terms_new 100000))"
    by (simp_all add: is_messaging_def sample_grant_def from_terms_def)
  moreover have "save_node sample_world (set_file (put_budget 0 (Some b) (nd_file sample_spend_node)) sample_spend_node)
      = Some (Inr (), (set_file (put_budget 0 (Some b) (nd_file sample_spend_node)) sample_spend_node)
          \<lparr> nd_disk := [put_budget 0 (Some b) (nd_file sample_spend_node)] \<rparr>)" for b
    using sample_grants_saved [of "set_file (put_budget 0 (Some b) (nd_file sample_spend_node)) sample_spend_node"] live
    by (simp add: sel put_budget_def pairing_file_new_def)
  moreover have "ra_before_persist sample_auth = None" "\<not> ra_in_memory sample_auth" "\<not> ra_liquidity sample_auth" "ra_call sample_auth = None"
    by (simp_all add: sample_auth_def default_authority_def)
  moreover have "pc_epoch (sample_client 1) = 1" by (simp add: sample_client_def)
  ultimately show ?thesis using live
    by (simp add: reserve_spend_locked_def keep_reservation_def bind_call_def Let_def sel sample_world_clock put_budget_def)
qed

theorem reservation_durable_witness:
  "\<exists>res nd'. reserve_spend_locked sample_pairing_ops (sample_cfg \<lparr> owner_control_enabled := True \<rparr>) sample_world 1001
     ''r1'' sample_phone 1 sample_charges sample_auth sample_spend_node = Some (Inr res, nd')
   \<and> rs_id res = ''r1'' \<and> nd_disk nd' = [nd_file nd']"
proof -
  obtain res nd' where run: "reserve_spend_locked sample_pairing_ops (sample_cfg \<lparr> owner_control_enabled := True \<rparr>) sample_world 1001
     ''r1'' sample_phone 1 sample_charges sample_auth sample_spend_node = Some (Inr res, nd')" using sample_reserved by blast
  have "\<not> ra_in_memory sample_auth" "distinct (map sg_op_id (pf_grants (nd_file sample_spend_node)))"
    by (simp_all add: sample_auth_def default_authority_def sample_spend_node_def fresh_inner_def Let_def)
  from reservation_durable [OF run this] run show ?thesis by auto
qed

end
