(* ===== verification/Call_Ledger.thy ===== *)
theory Call_Ledger
  imports Spend_Ledger "HOL-Library.Product_Lexorder"
begin

text \<open>
  The transactions of calls on the whole registry (\<open>pairing/call_spend.rs\<close>): a call's hold and
  its offer, draws on the hold, closing, cleanup and the ownership of call media. They run
  under the lock of the pairing service and keep the file as it was when a save fails.
\<close>

section \<open>Funding of calls\<close>

definition call_of :: "string \<Rightarrow> string \<Rightarrow> call_spend \<Rightarrow> bool" where
  "call_of callee call_id c \<longleftrightarrow> ct_peer (cs_terms c) = callee \<and> ct_call_id (cs_terms c) = call_id"

definition budgets_of :: "pairing_file \<Rightarrow> grant_budget list" where
  "budgets_of f = List.map_filter sg_budget (pf_grants f)"

definition calls_of :: "pairing_file \<Rightarrow> call_spend list" where
  "calls_of f = concat (map (\<lambda>b. map snd (gb_call_reservations b)) (budgets_of f))"

definition call_spend_grant :: "string \<Rightarrow> string \<Rightarrow> pairing_file \<Rightarrow> string option" where
  "call_spend_grant callee call_id f =
     (case bt_get (pf_call_spend_grants f) (callee @ '':'' @ call_id) of
        Some op_id \<Rightarrow> Some op_id
      | None \<Rightarrow> map_option sg_op_id (find (\<lambda>g. case sg_budget g of
            None \<Rightarrow> False
          | Some b \<Rightarrow> list_ex (\<lambda>(_, c). call_of callee call_id c) (gb_call_reservations b)) (pf_grants f)))"

definition call_closing_limits :: "string \<Rightarrow> string \<Rightarrow> pairing_file \<Rightarrow> (u64 \<times> u64) option" where
  "call_closing_limits callee call_id f =
     map_option (\<lambda>c. (closing_allowance_msat (cs_terms c), ct_closing_fee_msat (cs_terms c)))
       (find (call_of callee call_id) (calls_of f))"

definition call_spend_status_for :: "string \<Rightarrow> string \<Rightarrow> pairing_file \<Rightarrow> call_spend_status option" where
  "call_spend_status_for callee call_id f = map_option call_status (find (call_of callee call_id) (calls_of f))"

definition owns_call_spend :: "pairing_binding \<Rightarrow> string \<Rightarrow> string \<Rightarrow> pairing_file \<Rightarrow> bool" where
  "owns_call_spend b callee call_id f =
     list_ex (call_of callee call_id)
       (calls_of (f \<lparr> pf_grants := filter (\<lambda>g. sg_client_id g = pb_client_id b \<and> sg_epoch g = pb_epoch b
            \<and> sg_identity_fingerprint g = pb_fingerprint b) (pf_grants f) \<rparr>))"

definition call_reference :: "spend_grant \<Rightarrow> string \<Rightarrow> call_spend_terms \<Rightarrow> reservation" where
  "call_reference g rid terms =
     \<lparr> rs_id = rid, rs_client_id = sg_client_id g, rs_op_id = sg_op_id g,
       rs_charges = [\<lparr> ch_recipient = ct_peer terms, ch_amount_msat = ct_reserved_msat terms \<rparr>] \<rparr>"

definition call_spend_holds :: "pairing_file \<Rightarrow> (reservation \<times> call_spend_terms) list" where
  "call_spend_holds f =
     concat (map (\<lambda>g. case sg_budget g of
         None \<Rightarrow> []
       | Some b \<Rightarrow> map (\<lambda>(rid, c). (call_reference g rid (cs_terms c), cs_terms c))
                     (filter (\<lambda>(_, c). \<not> cs_closed c) (gb_call_reservations b))) (pf_grants f))"

section \<open>Saving with the file put back on failure\<close>

definition ledger_commit ::
  "world \<Rightarrow> pairing_file \<Rightarrow> node \<Rightarrow> budget_refusal + 'a \<Rightarrow> ((budget_refusal + 'a) \<times> node) option" where
  "ledger_commit w before nd v =
     (case save_node w nd of
        None \<Rightarrow> None
      | Some (Inl e, nd') \<Rightarrow> Some (Inl (Ledger (pairing_error_text e)), set_file before nd')
      | Some (Inr _, nd') \<Rightarrow> Some (v, nd'))"

definition forget_call_spend_grants ::
  "world \<Rightarrow> string list \<Rightarrow> node \<Rightarrow> ((pairing_error + unit) \<times> node) option" where
  "forget_call_spend_grants w keys nd =
     (if keys = [] then Some (Inr (), nd)
      else Option.bind (lock_node w nd) (\<lambda>nd.
        let f = nd_file nd in
        commit w (nd_inner nd)
          (set_file (f \<lparr> pf_call_spend_grants := fold bt_remove keys (pf_call_spend_grants f) \<rparr>) nd) ()))"

definition map_budgets :: "(grant_budget \<Rightarrow> grant_budget) \<Rightarrow> pairing_file \<Rightarrow> pairing_file" where
  "map_budgets h f = f \<lparr> pf_grants := map (\<lambda>g. g \<lparr> sg_budget := map_option h (sg_budget g) \<rparr>) (pf_grants f) \<rparr>"

definition prune_call_spend :: "world \<Rightarrow> int \<Rightarrow> node \<Rightarrow> ((pairing_error + unit) \<times> node) option" where
  "prune_call_spend w now nd =
     Option.bind (lock_node w nd) (\<lambda>nd.
       let f = nd_file nd; f' = map_budgets (prune_calls now) f in
       if map sg_budget (pf_grants f') \<noteq> map sg_budget (pf_grants f)
       then commit w (nd_inner nd) (set_file f' nd) ()
       else Some (Inr (), nd))"

text \<open>The refusal of the last grant that has one, as the loop keeps it.\<close>

definition enforce_call_hold_limit ::
  "world \<Rightarrow> string \<Rightarrow> string \<Rightarrow> node \<Rightarrow> ((budget_refusal + unit) \<times> node) option" where
  "enforce_call_hold_limit w callee call_id nd =
     Option.bind (lock_node w nd) (\<lambda>nd.
       let f = nd_file nd; only = Some (callee, call_id);
           refused = fold (\<lambda>b r. case fst (close_holds_over_limit (w_unix w) only b) of
                                   Some e \<Rightarrow> Some e | None \<Rightarrow> r) (budgets_of f) None in
       case refused of
         None \<Rightarrow> Some (Inr (), nd)
       | Some e \<Rightarrow> ledger_commit w f
                    (set_file (map_budgets (snd \<circ> close_holds_over_limit (w_unix w) only) f) nd) (Inl e))"

section \<open>Admission of a call\<close>

definition call_grant_index :: "pairing_ops \<Rightarrow> pairing_cfg \<Rightarrow> int \<Rightarrow> string \<Rightarrow> u64 \<Rightarrow> inner \<Rightarrow> nat option" where
  "call_grant_index x cfg now client epoch i =
     (if \<not> list_ex (\<lambda>c. pc_client_id c = client \<and> pc_epoch c = epoch
            \<and> pc_identity_fingerprint c = in_identity_fingerprint i) (pf_clients (in_file i))
      then None
      else find_index (\<lambda>g. sg_client_id g = client \<and> sg_epoch g = epoch
             \<and> sg_identity_fingerprint g = in_identity_fingerprint i \<and> is_live now g
             \<and> Spend \<in> set (sg_scopes g) \<and> permits_spend_grant x cfg g) (pf_grants (in_file i)))"

text \<open>The first hold of this call in any grant, with the position of its grant.\<close>

definition existing_hold ::
  "call_spend_terms \<Rightarrow> pairing_file \<Rightarrow> (nat \<times> spend_grant \<times> string \<times> call_spend) option" where
  "existing_hold terms f =
     (case concat (map (\<lambda>(n, g). case sg_budget g of
              None \<Rightarrow> []
            | Some b \<Rightarrow> map (\<lambda>(rid, c). (n, g, rid, c))
                (filter (\<lambda>(_, c). call_of (ct_peer terms) (ct_call_id terms) c) (gb_call_reservations b)))
            (zip [0..<length (pf_grants f)] (pf_grants f))) of
        [] \<Rightarrow> None | h # _ \<Rightarrow> Some h)"

definition check_new_hold ::
  "pairing_ops \<Rightarrow> pairing_cfg \<Rightarrow> int \<Rightarrow> string \<Rightarrow> u64 \<Rightarrow> call_spend_terms \<Rightarrow> u64 \<Rightarrow> inner
   \<Rightarrow> budget_refusal + reservation option" where
  "check_new_hold x cfg now client epoch terms capacity_msat i =
     (let f = in_file i; key = ct_peer terms @ '':'' @ ct_call_id terms in
      case call_grant_index x cfg now client epoch i of
        None \<Rightarrow> Inl NoGrant
      | Some idx \<Rightarrow>
          if (case bt_get (pf_call_spend_grants f) key of
                None \<Rightarrow> False | Some op_id \<Rightarrow> op_id \<noteq> sg_op_id (pf_grants f ! idx)) then Inl NoGrant
          else if \<not> bt_contains (pf_call_spend_grants f) key \<and> length (pf_call_spend_grants f) \<ge> 4096
          then Inl (Ledger ''call funding ledger is full; wait for call cleanup'')
          else (case existing_hold terms f of
              Some (n, g, rid, c) \<Rightarrow>
                if n \<noteq> idx \<or> cs_closed c \<or> cs_terms c \<noteq> terms
                then Inl (Unpriced ''call already reserved with different authority or terms'')
                else Inr (Some (call_reference g rid (cs_terms c)))
            | None \<Rightarrow>
                let held = fold (\<lambda>c t. sat_add t (st_remaining_msat (call_status c))) (calls_of f) 0;
                    available = sat_sub capacity_msat held in
                if ct_reserved_msat terms > available then Inl (CallLiquidity (ct_reserved_msat terms) available)
                else if (case sg_budget (pf_grants f ! idx) of
                           None \<Rightarrow> False
                         | Some b \<Rightarrow> length (filter (\<lambda>(_, c). \<not> cs_closed c \<or> cs_draws c \<noteq> []) (gb_call_reservations b)) \<ge> 1024)
                then Inl (Ledger ''call reservation ledger is full; ask the owner for a new grant'')
                else Inr None))"

definition hold_charges :: "call_spend_terms \<Rightarrow> charge list" where
  "hold_charges terms = [\<lparr> ch_recipient = ct_peer terms, ch_amount_msat = ct_reserved_msat terms \<rparr>]"

text \<open>The cleanup that precedes a new hold runs under a lock of its own.\<close>

definition after_prune ::
  "world \<Rightarrow> node \<Rightarrow> (node \<Rightarrow> ((budget_refusal + 'a) \<times> node) option) \<Rightarrow> ((budget_refusal + 'a) \<times> node) option" where
  "after_prune w nd k =
     (case prune_call_spend w (w_unix w) nd of
        None \<Rightarrow> None
      | Some (Inl e, nd') \<Rightarrow> Some (Inl (Ledger (pairing_error_text e)), nd')
      | Some (Inr _, nd') \<Rightarrow> k nd')"

definition reserve_call_spend ::
  "pairing_ops \<Rightarrow> pairing_cfg \<Rightarrow> world \<Rightarrow> world \<Rightarrow> int \<Rightarrow> string \<Rightarrow> string \<Rightarrow> u64 \<Rightarrow> call_spend_terms \<Rightarrow> u64
   \<Rightarrow> node \<Rightarrow> ((budget_refusal + reservation) \<times> node) option" where
  "reserve_call_spend x cfg w w' later rid client epoch terms capacity_msat nd =
     after_prune w nd (\<lambda>nd. Option.bind (lock_node w' nd) (\<lambda>nd.
       case check_new_hold x cfg (w_unix w') client epoch terms capacity_msat (nd_inner nd) of
         Inl e \<Rightarrow> Some (Inl e, nd)
       | Inr (Some existing) \<Rightarrow> Some (Inr existing, nd)
       | Inr None \<Rightarrow>
           reserve_spend_locked x cfg w' later rid client epoch (hold_charges terms)
             (default_authority \<lparr> ra_call := Some terms \<rparr>) nd))"

text \<open>What a refused pair leaves: the file as it was, with the refusal each meter observed.\<close>

definition keep_observations :: "pairing_file \<Rightarrow> pairing_file \<Rightarrow> pairing_file" where
  "keep_observations before refused =
     before \<lparr> pf_grants := map (\<lambda>(g, seen). case (sg_budget g, sg_budget seen) of
           (Some b, Some s) \<Rightarrow> g \<lparr> sg_budget := Some (keep_refusal_observation s b) \<rparr>
         | _ \<Rightarrow> g) (zip (pf_grants before) (pf_grants refused))
         @ drop (length (pf_grants refused)) (pf_grants before) \<rparr>"

definition refuse_pair ::
  "world \<Rightarrow> pairing_file \<Rightarrow> budget_refusal \<Rightarrow> node \<Rightarrow> ((budget_refusal + reservation) \<times> node) option" where
  "refuse_pair w before refusal nd =
     (let f = keep_observations before (nd_file nd); nd1 = set_file f nd in
      if map sg_budget (pf_grants f) \<noteq> map sg_budget (pf_grants before)
      then (case save_node w nd1 of
              None \<Rightarrow> None
            | Some (Inl e, nd2) \<Rightarrow> Some (Inl (Ledger (pairing_error_text e)), nd2)
            | Some (Inr _, nd2) \<Rightarrow> Some (Inl refusal, nd2))
      else Some (Inl refusal, nd1))"

definition reserve_call_with_offer ::
  "pairing_ops \<Rightarrow> pairing_cfg \<Rightarrow> world \<Rightarrow> world \<Rightarrow> world \<Rightarrow> int \<Rightarrow> string \<Rightarrow> string \<Rightarrow> string \<Rightarrow> u64 \<Rightarrow> call_spend_terms
   \<Rightarrow> u64 \<Rightarrow> charge list \<Rightarrow> u64 option \<Rightarrow> operation_link \<Rightarrow> node \<Rightarrow> ((budget_refusal + reservation) \<times> node) option" where
  "reserve_call_with_offer x cfg w w' w'' later rid rid' client epoch terms capacity_msat offer offer_cap link nd =
     after_prune w nd (\<lambda>nd. Option.bind (lock_node w' nd) (\<lambda>nd.
       case check_new_hold x cfg (w_unix w') client epoch terms capacity_msat (nd_inner nd) of
         Inl e \<Rightarrow> Some (Inl e, nd)
       | Inr (Some _) \<Rightarrow> Some (Inl (Unpriced ''call already reserved; send its offer again''), nd)
       | Inr None \<Rightarrow>
           let before = nd_file nd in
           (case reserve_spend_locked x cfg w' later rid client epoch (hold_charges terms)
                   (default_authority \<lparr> ra_call := Some terms, ra_in_memory := True \<rparr>) nd of
              None \<Rightarrow> None
            | Some (Inl e, nd1) \<Rightarrow> refuse_pair w'' before e nd1
            | Some (Inr _, nd1) \<Rightarrow>
                (case reserve_spend_locked x cfg w'' later rid' client epoch offer
                        (default_authority \<lparr> ra_operation := Some link,
                           ra_call_offer := Some (ct_call_id terms, offer_cap), ra_in_memory := True \<rparr>) nd1 of
                   None \<Rightarrow> None
                 | Some (Inl e, nd2) \<Rightarrow> refuse_pair w'' before e nd2
                 | Some (Inr res, nd2) \<Rightarrow>
                     (case save_node w'' nd2 of
                        None \<Rightarrow> None
                      | Some (Inl e, nd3) \<Rightarrow>
                          Some (Inl (Ledger (pairing_error_text e)), set_file before nd3)
                      | Some (Inr _, nd3) \<Rightarrow>
                          if list_ex (\<lambda>g. sg_op_id g = rs_op_id res \<and> is_live later g) (pf_grants (nd_file nd3))
                          then Some (Inr res, nd3) else Some (Inl NoGrant, nd3))))))"

definition reserve_call_offer_spend ::
  "pairing_ops \<Rightarrow> pairing_cfg \<Rightarrow> world \<Rightarrow> int \<Rightarrow> string \<Rightarrow> string \<Rightarrow> u64 \<Rightarrow> charge list \<Rightarrow> string \<Rightarrow> u64 option
   \<Rightarrow> operation_link \<Rightarrow> node \<Rightarrow> ((budget_refusal + reservation) \<times> node) option" where
  "reserve_call_offer_spend x cfg w later rid client epoch charges call_id cap link nd =
     Option.bind (lock_node w nd) (reserve_spend_locked x cfg w later rid client epoch charges
       (default_authority \<lparr> ra_operation := Some link, ra_call_offer := Some (call_id, cap) \<rparr>))"

section \<open>Draws and closing\<close>

definition draw_call_spend_for_grant ::
  "pairing_ops \<Rightarrow> pairing_cfg \<Rightarrow> world \<Rightarrow> string \<Rightarrow> string \<Rightarrow> u64 \<Rightarrow> string \<Rightarrow> string \<Rightarrow> u32 \<Rightarrow> u64 \<Rightarrow> u64 \<Rightarrow> operation_link
   \<Rightarrow> string option \<Rightarrow> node \<Rightarrow> ((budget_refusal + reservation) \<times> node) option" where
  "draw_call_spend_for_grant x cfg w rid client epoch callee call_id seq price fee link closing_grant nd =
     Option.bind (lock_node w nd) (\<lambda>nd.
       let f = nd_file nd; now = w_unix w; stop = (\<lambda>e. Some (Inl e, nd)) in
       case call_grant_index x cfg now client epoch (nd_inner nd) of
         None \<Rightarrow> stop NoGrant
       | Some idx \<Rightarrow>
           let g = pf_grants f ! idx in
           if (case closing_grant of None \<Rightarrow> False | Some op_id \<Rightarrow> sg_op_id g \<noteq> op_id) then stop NoGrant
           else (case sg_budget g of
                   None \<Rightarrow> stop NoGrant
                 | Some b \<Rightarrow>
                     if is_paused b then stop GrantPaused
                     else (case close_holds_over_limit now (Some (callee, call_id)) b of
                         (Some r, b1) \<Rightarrow> ledger_commit w f (set_file (put_budget idx (Some b1) f) nd) (Inl r)
                       | (None, _) \<Rightarrow>
                           (case draw_on_hold rid now callee call_id seq price fee link (closing_grant \<noteq> None) b of
                              (Inl r, _) \<Rightarrow> stop r
                            | (Inr amount, b1) \<Rightarrow>
                                ledger_commit w f (set_file (put_budget idx (Some b1) f) nd)
                                  (Inr \<lparr> rs_id = rid, rs_client_id = client, rs_op_id = sg_op_id g,
                                         rs_charges = [\<lparr> ch_recipient = callee, ch_amount_msat = amount \<rparr>] \<rparr>)))))"

definition draw_call_spend ::
  "pairing_ops \<Rightarrow> pairing_cfg \<Rightarrow> world \<Rightarrow> string \<Rightarrow> string \<Rightarrow> u64 \<Rightarrow> string \<Rightarrow> string \<Rightarrow> u32 \<Rightarrow> u64 \<Rightarrow> u64 \<Rightarrow> operation_link
   \<Rightarrow> node \<Rightarrow> ((budget_refusal + reservation) \<times> node) option" where
  "draw_call_spend x cfg w rid client epoch callee call_id seq price fee link nd =
     draw_call_spend_for_grant x cfg w rid client epoch callee call_id seq price fee link None nd"

definition reserve_call_closing_spend ::
  "pairing_ops \<Rightarrow> pairing_cfg \<Rightarrow> world \<Rightarrow> world \<Rightarrow> string \<Rightarrow> string \<Rightarrow> string \<Rightarrow> string \<Rightarrow> charge list \<Rightarrow> operation_link
   \<Rightarrow> node \<Rightarrow> ((budget_refusal + reservation) \<times> node) option" where
  "reserve_call_closing_spend x cfg w w' rid grant_op_id callee call_id charges link nd =
     Option.bind (lock_node w nd) (\<lambda>nd.
       case find (\<lambda>g. sg_op_id g = grant_op_id) (pf_grants (nd_file nd)) of
         None \<Rightarrow> Some (Inl NoGrant, nd)
       | Some g \<Rightarrow>
           (case charges of
              [c] \<Rightarrow> if ch_recipient c \<noteq> callee then Some (Inl NoGrant, nd)
                     else draw_call_spend_for_grant x cfg w' rid (sg_client_id g) (sg_epoch g) callee call_id
                            (- 1) (ch_amount_msat c) 0 link (Some grant_op_id) nd
            | _ \<Rightarrow> Some (Inl NoGrant, nd)))"

definition close_call_spend :: "world \<Rightarrow> reservation \<Rightarrow> node \<Rightarrow> ((pairing_error + unit) \<times> node) option" where
  "close_call_spend w res nd =
     Option.bind (lock_node w nd) (\<lambda>nd.
       let f = nd_file nd in
       case find_index (\<lambda>g. sg_op_id g = rs_op_id res \<and> sg_client_id g = rs_client_id res) (pf_grants f) of
         None \<Rightarrow> Some (Inr (), nd)
       | Some idx \<Rightarrow>
           (case sg_budget (pf_grants f ! idx) of
              None \<Rightarrow> Some (Inr (), nd)
            | Some b \<Rightarrow>
                (case bt_get (gb_call_reservations b) (rs_id res) of
                   None \<Rightarrow> Some (Inr (), nd)
                 | Some c \<Rightarrow>
                     if cs_closed c then Some (Inr (), nd)
                     else commit w (nd_inner nd)
                            (set_file (put_budget idx (Some (close_call (w_unix w) (rs_id res) b)) f) nd) ())))"

section \<open>Ownership of call media\<close>

record pending_media_client =
  pm_operation_id :: string
  pm_request_hash :: string
  pm_client :: "pairing_binding option"

record call_media =
  cm_clients :: "(string \<times> string, pairing_binding) btmap"
  cm_pending :: "(string \<times> string, pending_media_client) btmap"

definition MAX_OPEN_CALLS :: nat where "MAX_OPEN_CALLS = 4096"

text \<open>Errors are the texts of the storage errors the operations return.\<close>

definition media_full :: string where
  "media_full = ''call media ownership capacity reached''"

definition remember_call_client ::
  "pairing_binding option \<Rightarrow> string \<Rightarrow> string \<Rightarrow> string \<Rightarrow> string \<Rightarrow> call_media \<Rightarrow> (string + unit) \<times> call_media" where
  "remember_call_client client callee call_id operation_id request_hash m =
     (let key = (callee, call_id);
          reserved = length (filter (\<lambda>(k, p). pm_client p \<noteq> None \<and> \<not> bt_contains (cm_clients m) k) (cm_pending m));
          already_reserved = (bt_contains (cm_clients m) key
            \<or> (case bt_get (cm_pending m) key of None \<Rightarrow> False | Some p \<Rightarrow> pm_client p \<noteq> None)) in
      if length (cm_pending m) \<ge> MAX_OPEN_CALLS \<and> \<not> bt_contains (cm_pending m) key then (Inl media_full, m)
      else if client \<noteq> None \<and> \<not> already_reserved \<and> length (cm_clients m) + reserved \<ge> MAX_OPEN_CALLS
      then (Inl media_full, m)
      else (Inr (), m \<lparr> cm_pending := bt_insert key
              \<lparr> pm_operation_id = operation_id, pm_request_hash = request_hash, pm_client = client \<rparr> (cm_pending m) \<rparr>))"

definition commit_call_client ::
  "pairing_binding option \<Rightarrow> string \<Rightarrow> string \<Rightarrow> string \<Rightarrow> string \<Rightarrow> call_media \<Rightarrow> (string + unit) \<times> call_media" where
  "commit_call_client fallback callee call_id operation_id request_hash m =
     (let key = (callee, call_id);
          apply_client = (\<lambda>client. case client of
              None \<Rightarrow> (Inr (), m \<lparr> cm_clients := bt_remove key (cm_clients m) \<rparr>)
            | Some c \<Rightarrow>
                if length (cm_clients m) \<ge> MAX_OPEN_CALLS \<and> \<not> bt_contains (cm_clients m) key then (Inl media_full, m)
                else (Inr (), m \<lparr> cm_clients := bt_insert key c (cm_clients m) \<rparr>)) in
      case bt_get (cm_pending m) key of
        Some p \<Rightarrow> if pm_operation_id p = operation_id \<and> pm_request_hash p = request_hash
                  then apply_client (pm_client p)
                  else (Inl ''call media operation mismatch'', m)
      | None \<Rightarrow> (case fallback of None \<Rightarrow> (Inr (), m) | Some c \<Rightarrow> apply_client (Some c)))"

definition finish_call_client :: "string \<Rightarrow> string \<Rightarrow> string \<Rightarrow> string \<Rightarrow> call_media \<Rightarrow> call_media" where
  "finish_call_client callee call_id operation_id request_hash m =
     (case bt_get (cm_pending m) (callee, call_id) of
        None \<Rightarrow> m
      | Some p \<Rightarrow> if pm_operation_id p = operation_id \<and> pm_request_hash p = request_hash
                  then m \<lparr> cm_pending := bt_remove (callee, call_id) (cm_pending m) \<rparr> else m)"

definition forget_call_client :: "string \<Rightarrow> string \<Rightarrow> call_media \<Rightarrow> call_media" where
  "forget_call_client callee call_id m =
     m \<lparr> cm_clients := bt_remove (callee, call_id) (cm_clients m),
         cm_pending := bt_remove (callee, call_id) (cm_pending m) \<rparr>"

definition call_media_clients :: "call_media \<Rightarrow> (string \<times> string) list" where
  "call_media_clients m = remdups (map fst (cm_clients m) @ map fst (cm_pending m))"

definition owns_call_media :: "pairing_binding \<Rightarrow> string \<Rightarrow> string \<Rightarrow> call_media \<Rightarrow> pairing_file \<Rightarrow> bool" where
  "owns_call_media b callee call_id m f =
     (bt_get (cm_clients m) (callee, call_id) = Some b
      \<and> (call_spend_status_for callee call_id f = None \<or> owns_call_spend b callee call_id f))"

end
