(* ===== verification/First_Contact.thy ===== *)
theory First_Contact
  imports Spend_Ledger
begin

text \<open>
  The owner's one-time confirmations for paying a new contact (\<open>pairing.rs\<close>, from
  \<open>grant_first_contact\<close> to \<open>take_first_contact\<close>). They live in memory only, so they are a map of
  their own beside the node, one entry per client; a restart starts with the empty map.
\<close>

section \<open>Confirmations\<close>

record first_contact_grant =
  fc_granted_by :: "string option"
  fc_recipient :: string
  fc_max_total_msat :: u64
  fc_expires_at :: int

record pending_first_contact =
  pn_grant :: first_contact_grant
  pn_epoch :: u64
  pn_budget_op_id :: string
  pn_consumed :: bool
  pn_owner_approval :: "approval_receipt option"

record first_contact_authorization =
  fa_max_total_msat :: u64
  fa_recipient :: string
  fa_client_id :: string
  fa_epoch :: u64
  fa_budget_op_id :: string
  fa_expires_at :: int

type_synonym contacts = "(string, pending_first_contact) btmap"

definition FIRST_CONTACT_GRANT_TTL_SECS :: int where
  "FIRST_CONTACT_GRANT_TTL_SECS = FIRST_CONTACT_APPROVAL_WINDOW_SECS"

section \<open>Issuing a confirmation\<close>

text \<open>The grant a confirmation is issued under.\<close>

definition contact_grant :: "string \<Rightarrow> string \<Rightarrow> int \<Rightarrow> inner \<Rightarrow> spend_grant option" where
  "contact_grant client_id grant_op_id now i =
     find (\<lambda>g. sg_client_id g = client_id \<and> sg_op_id g = grant_op_id
         \<and> sg_identity_fingerprint g = in_identity_fingerprint i \<and> is_live now g
         \<and> list_ex (\<lambda>c. pc_client_id c = client_id \<and> pc_epoch c = sg_epoch g) (pf_clients (in_file i)))
       (pf_grants (in_file i))"

text \<open>What the meter of that grant refuses, in the order of the checks.\<close>

definition contact_refusal :: "string \<Rightarrow> u64 \<Rightarrow> u64 option \<Rightarrow> grant_budget \<Rightarrow> budget_refusal option" where
  "contact_refusal recipient max_total contact_budget b =
     (let cap = bt_get (gb_per_recipient_msat b) recipient;
          left = sat_sub (case cap of None \<Rightarrow> 0 | Some c \<Rightarrow> c) (bt_get_or 0 (gb_used_by_recipient b) recipient) in
      if max_total > messaging_per_call_max_msat b then Some (PerCall (messaging_per_call_max_msat b))
      else if max_total > remaining_msat b then Some (Total (remaining_msat b))
      else if cap \<noteq> None \<and> max_total > left then Some (Recipient recipient left)
      else case contact_budget of
        None \<Rightarrow> None
      | Some cb \<Rightarrow>
          if cb < max_total \<or> cb > gb_budget_msat b \<or> (case cap of None \<Rightarrow> False | Some c \<Rightarrow> c \<noteq> cb)
          then Some (budget_refusal.FirstContact ''contact budget must cover this approval, fit the grant total and match any existing recipient cap'')
          else None)"

text \<open>
  The owner's budget for the contact becomes a cap of the grant when it has none for it yet.
  The position is looked up by the operation alone, as the code does.
\<close>

definition add_contact_cap ::
  "world \<Rightarrow> string \<Rightarrow> string \<Rightarrow> u64 \<Rightarrow> node \<Rightarrow> ((budget_refusal + unit) \<times> node) option" where
  "add_contact_cap w op_id recipient cb nd =
     (case find_index (\<lambda>g. sg_op_id g = op_id) (pf_grants (nd_file nd)) of
        None \<Rightarrow> Some (Inl NoGrant, nd)
      | Some idx \<Rightarrow>
          let before = sg_budget (pf_grants (nd_file nd) ! idx);
              b' = map_option (\<lambda>b. if bt_contains (gb_per_recipient_msat b) recipient then b
                     else b \<lparr> gb_per_recipient_msat := bt_insert recipient cb (gb_per_recipient_msat b) \<rparr>) before in
          if b' = before then Some (Inr (), nd)
          else (case save_node w (set_file (put_budget idx b' (nd_file nd)) nd) of
                  None \<Rightarrow> None
                | Some (Inl e, nd') \<Rightarrow>
                    Some (Inl (Ledger (pairing_error_text e)), set_file (put_budget idx before (nd_file nd')) nd')
                | Some (Inr _, nd') \<Rightarrow> Some (Inr (), nd')))"

definition grant_first_contact_locked ::
  "world \<Rightarrow> int \<Rightarrow> string \<Rightarrow> string \<Rightarrow> string \<Rightarrow> u64 \<Rightarrow> u64 option \<Rightarrow> contacts \<times> node
   \<Rightarrow> ((budget_refusal + first_contact_grant) \<times> contacts \<times> node) option" where
  "grant_first_contact_locked w now client_id grant_op_id recipient max_total contact_budget = (\<lambda>(cs, nd).
     let stop = (\<lambda>e. Some (Inl e, cs, nd)) in
     case canonical_recipient recipient of
       None \<Rightarrow> stop (budget_refusal.FirstContact ''the recipient is not a node id'')
     | Some recipient \<Rightarrow>
         if length recipient \<noteq> 64 then stop (budget_refusal.FirstContact ''the recipient is not a node id'')
         else if max_total = 0 \<or> max_total > FIRST_CONTACT_MAX_MSAT
         then stop (budget_refusal.FirstContact ''a first contact may cover 1..=100000 msat'')
         else (case contact_grant client_id grant_op_id now (nd_inner nd) of
             None \<Rightarrow> stop NoGrant
           | Some g \<Rightarrow>
               (case sg_budget g of
                  None \<Rightarrow> stop NoGrant
                | Some b \<Rightarrow>
                    (case contact_refusal recipient max_total contact_budget b of
                       Some e \<Rightarrow> stop e
                     | None \<Rightarrow>
                         let issued = \<lparr> fc_granted_by = None, fc_recipient = recipient, fc_max_total_msat = max_total,
                               fc_expires_at = min (i64_wrap (now + FIRST_CONTACT_GRANT_TTL_SECS)) (sg_expires_at g) \<rparr>;
                             entry = \<lparr> pn_grant = issued, pn_epoch = sg_epoch g, pn_budget_op_id = sg_op_id g,
                               pn_consumed = False, pn_owner_approval = None \<rparr> in
                         (case (case contact_budget of None \<Rightarrow> Some (Inr (), nd)
                                | Some cb \<Rightarrow> add_contact_cap w (sg_op_id g) recipient cb nd) of
                            None \<Rightarrow> None
                          | Some (Inl e, nd') \<Rightarrow> Some (Inl e, cs, nd')
                          | Some (Inr _, nd') \<Rightarrow> Some (Inr issued, bt_insert client_id entry cs, nd'))))))"

definition grant_first_contact ::
  "pairing_cfg \<Rightarrow> world \<Rightarrow> string \<Rightarrow> string \<Rightarrow> string \<Rightarrow> u64 \<Rightarrow> u64 option \<Rightarrow> contacts \<times> node
   \<Rightarrow> ((budget_refusal + first_contact_grant) \<times> contacts \<times> node) option" where
  "grant_first_contact cfg w client_id grant_op_id recipient max_total contact_budget = (\<lambda>(cs, nd).
     if \<not> owner_control_enabled cfg then Some (Inl NoGrant, cs, nd)
     else Option.bind (lock_node w nd) (\<lambda>nd.
       grant_first_contact_locked w (w_unix w) client_id grant_op_id recipient max_total contact_budget (cs, nd)))"

section \<open>Observing a confirmation\<close>

datatype first_contact_state = Pending | Approved | Consumed | Lapsed

record first_contact_status =
  fs_grant_op_id :: string
  fs_recipient :: string
  fs_state :: first_contact_state
  fs_approval_window_secs :: int
  fs_approval :: "first_contact_grant option"

definition first_contact_approval_status ::
  "pairing_ops \<Rightarrow> pairing_cfg \<Rightarrow> int \<Rightarrow> string \<Rightarrow> u64 \<Rightarrow> string \<Rightarrow> string \<Rightarrow> contacts \<Rightarrow> inner
   \<Rightarrow> first_contact_status option" where
  "first_contact_approval_status x cfg now client_id epoch grant_op_id recipient cs i =
     Option.bind (canonical_recipient recipient) (\<lambda>recipient.
       if \<not> (owner_control_enabled cfg \<or> local_owner_device cfg)
          \<or> \<not> list_ex (\<lambda>c. pc_client_id c = client_id \<and> pc_epoch c = epoch) (pf_clients (in_file i))
          \<or> \<not> list_ex (\<lambda>g. sg_op_id g = grant_op_id \<and> sg_client_id g = client_id \<and> sg_epoch g = epoch
                \<and> sg_identity_fingerprint g = in_identity_fingerprint i \<and> permits_spend_grant x cfg g
                \<and> sg_budget g \<noteq> None \<and> is_live now g) (pf_grants (in_file i))
       then None
       else
         let pending = Option.bind (bt_get cs client_id) (\<lambda>p.
               if pn_budget_op_id p = grant_op_id \<and> pn_epoch p = epoch \<and> fc_recipient (pn_grant p) = recipient
               then Some p else None) in
         Some \<lparr> fs_grant_op_id = grant_op_id, fs_recipient = recipient,
                fs_state = (case pending of
                    None \<Rightarrow> Pending
                  | Some p \<Rightarrow> if pn_consumed p then Consumed
                              else if fc_expires_at (pn_grant p) \<le> now then Lapsed else Approved),
                fs_approval_window_secs = FIRST_CONTACT_APPROVAL_WINDOW_SECS,
                fs_approval = map_option pn_grant pending \<rparr>)"

section \<open>Using a confirmation\<close>

definition consume_contact :: "string \<Rightarrow> contacts \<Rightarrow> contacts" where
  "consume_contact client_id cs =
     map (\<lambda>(k, p). (k, if k = client_id then p \<lparr> pn_consumed := True \<rparr> else p)) cs"

definition take_first_contact ::
  "world \<Rightarrow> string \<Rightarrow> u64 \<Rightarrow> string \<Rightarrow> contacts \<times> node
   \<Rightarrow> (first_contact_authorization option \<times> contacts \<times> node) option" where
  "take_first_contact w client_id epoch recipient = (\<lambda>(cs, nd).
     case canonical_recipient recipient of
       None \<Rightarrow> Some (None, cs, nd)
     | Some recipient \<Rightarrow> map_option (\<lambda>nd.
         case bt_get cs client_id of
           None \<Rightarrow> (None, cs, nd)
         | Some p \<Rightarrow>
             if pn_consumed p \<or> fc_expires_at (pn_grant p) \<le> w_unix w
                \<or> fc_recipient (pn_grant p) \<noteq> recipient \<or> pn_epoch p \<noteq> epoch
             then (None, cs, nd)
             else (if list_ex (\<lambda>g. sg_op_id g = pn_budget_op_id p \<and> sg_client_id g = client_id \<and> sg_epoch g = epoch
                        \<and> sg_identity_fingerprint g = in_identity_fingerprint (nd_inner nd) \<and> is_live (w_unix w) g)
                      (pf_grants (nd_file nd))
                   then Some \<lparr> fa_max_total_msat = fc_max_total_msat (pn_grant p), fa_recipient = recipient,
                               fa_client_id = client_id, fa_epoch = epoch, fa_budget_op_id = pn_budget_op_id p,
                               fa_expires_at = fc_expires_at (pn_grant p) \<rparr>
                   else None, consume_contact client_id cs, nd)) (lock_node w nd))"

definition reserve_first_contact_operation ::
  "pairing_ops \<Rightarrow> pairing_cfg \<Rightarrow> world \<Rightarrow> int \<Rightarrow> string \<Rightarrow> first_contact_authorization \<Rightarrow> u64 option
   \<Rightarrow> operation_link option \<Rightarrow> node \<Rightarrow> ((budget_refusal + reservation) \<times> node) option" where
  "reserve_first_contact_operation x cfg w later rid a cap operation nd =
     Option.bind (lock_node w nd) (\<lambda>nd.
       if fa_expires_at a \<le> w_unix w then Some (Inl NoGrant, nd)
       else reserve_spend_locked x cfg w later rid (fa_client_id a) (fa_epoch a)
              [\<lparr> ch_recipient = fa_recipient a,
                 ch_amount_msat = min (case cap of None \<Rightarrow> fa_max_total_msat a | Some c \<Rightarrow> c) (fa_max_total_msat a) \<rparr>]
              (default_authority \<lparr> ra_expected_op_id := Some (fa_budget_op_id a), ra_operation := operation \<rparr>) nd)"

definition reserve_first_contact ::
  "pairing_ops \<Rightarrow> pairing_cfg \<Rightarrow> world \<Rightarrow> int \<Rightarrow> string \<Rightarrow> first_contact_authorization \<Rightarrow> u64 option
   \<Rightarrow> node \<Rightarrow> ((budget_refusal + reservation) \<times> node) option" where
  "reserve_first_contact x cfg w later rid a cap nd = reserve_first_contact_operation x cfg w later rid a cap None nd"

section \<open>Paying admission again\<close>

definition readmission_basis ::
  "contacts \<Rightarrow> inner \<Rightarrow> reservation \<Rightarrow> string \<Rightarrow> int \<Rightarrow> budget_refusal + u64 \<times> u64 option" where
  "readmission_basis cs i parent recipient now =
     (case find (\<lambda>g. sg_op_id g = rs_op_id parent \<and> sg_client_id g = rs_client_id parent
            \<and> sg_identity_fingerprint g = in_identity_fingerprint i \<and> is_live now g) (pf_grants (in_file i)) of
        None \<Rightarrow> Inl NoGrant
      | Some g \<Rightarrow>
          (case Option.bind (bt_get cs (rs_client_id parent)) (\<lambda>p.
                 if \<not> pn_consumed p \<and> fc_recipient (pn_grant p) = recipient \<and> pn_epoch p = sg_epoch g
                    \<and> pn_budget_op_id p = sg_op_id g \<and> fc_expires_at (pn_grant p) > now
                 then Some p else None) of
             Some p \<Rightarrow> Inr (sg_epoch g, Some (fc_max_total_msat (pn_grant p)))
           | None \<Rightarrow>
               if (case sg_budget g of None \<Rightarrow> False | Some b \<Rightarrow> bt_contains (gb_per_recipient_msat b) recipient)
               then Inr (sg_epoch g, None)
               else Inl (budget_refusal.FirstContact
                 (''this contact has no budget in your grant, so paying admission to them again needs your one-time confirmation (POST /api/v1/pair/first-contact-grant) ''
                  @ map char_of [226, 128, 148 :: nat] @ '' nothing was requested or paid''))))"

definition readmission_allowed ::
  "world \<Rightarrow> reservation \<Rightarrow> string \<Rightarrow> contacts \<times> node \<Rightarrow> (budget_refusal option \<times> contacts \<times> node) option" where
  "readmission_allowed w parent recipient = (\<lambda>(cs, nd).
     case canonical_recipient recipient of
       None \<Rightarrow> Some (Some NoGrant, cs, nd)
     | Some recipient \<Rightarrow> map_option (\<lambda>nd.
         (case readmission_basis cs (nd_inner nd) parent recipient (w_unix w) of Inl e \<Rightarrow> Some e | Inr _ \<Rightarrow> None, cs, nd))
         (lock_node w nd))"

text \<open>The quoted message is paid from the parent's own pending entry, raised by what it lacks.\<close>

definition top_up :: "string \<Rightarrow> string \<Rightarrow> u64 \<Rightarrow> int \<Rightarrow> grant_budget \<Rightarrow> budget_refusal + grant_budget" where
  "top_up parent_id recipient amount now b =
     (if amount = 0 then Inr b
      else case reserve_at [\<lparr> ch_recipient = recipient, ch_amount_msat = amount \<rparr>] now b of
        Inl e \<Rightarrow> Inl e
      | Inr b1 \<Rightarrow> Inr (b1 \<lparr> gb_pending := map (\<lambda>(k, rs). (k, if k = parent_id
            then map (\<lambda>(r, m). (r, if r = recipient then m + amount else m)) rs else rs)) (gb_pending b1) \<rparr>))"

text \<open>What a quote needs beyond the parent's reservation, within one call's maximum.\<close>

definition quoted_need ::
  "reservation \<Rightarrow> string \<Rightarrow> u64 \<Rightarrow> u64 \<Rightarrow> u64 \<Rightarrow> pairing_file
   \<Rightarrow> budget_refusal + nat \<times> grant_budget \<times> u64 \<times> u64 \<times> u64" where
  "quoted_need parent recipient quoted admission call_reserved f =
     (case find_index (\<lambda>g. sg_op_id g = rs_op_id parent) (pf_grants f) of
        None \<Rightarrow> Inl NoGrant
      | Some idx \<Rightarrow>
          (case sg_budget (pf_grants f ! idx) of
             None \<Rightarrow> Inl NoGrant
           | Some b \<Rightarrow>
               (case Option.bind (bt_get (gb_pending b) (rs_id parent)) (\<lambda>p. bt_get p recipient) of
                  None \<Rightarrow> Inl NoGrant
                | Some old_message \<Rightarrow>
                    let extra = sat_sub quoted old_message; max_msat = messaging_per_call_max_msat b in
                    (case Option.bind (checked_add extra admission) (\<lambda>need.
                            map_option (Pair need) (checked_add call_reserved need)) of
                       None \<Rightarrow> Inl (PerCall max_msat)
                     | Some (need, all_in) \<Rightarrow>
                         if all_in > max_msat then Inl (PerCall max_msat) else Inr (idx, b, extra, need, all_in)))))"

definition charge_readmission ::
  "pairing_ops \<Rightarrow> pairing_cfg \<Rightarrow> world \<Rightarrow> int \<Rightarrow> string \<Rightarrow> reservation \<Rightarrow> string \<Rightarrow> u64 \<Rightarrow> nat \<Rightarrow> grant_budget \<Rightarrow> u64 \<Rightarrow> u64
   \<Rightarrow> operation_link option \<Rightarrow> node \<Rightarrow> ((budget_refusal + reservation) \<times> node) option" where
  "charge_readmission x cfg w later rid parent recipient epoch idx b extra admission operation nd =
     (case top_up (rs_id parent) recipient extra (w_unix w) b of
        Inl e \<Rightarrow> Some (Inl e, nd)
      | Inr b1 \<Rightarrow>
          (case reserve_spend_locked x cfg w later rid (rs_client_id parent) epoch
                  [\<lparr> ch_recipient = recipient, ch_amount_msat = admission \<rparr>]
                  (default_authority \<lparr> ra_expected_op_id := Some (rs_op_id parent), ra_operation := operation \<rparr>)
                  (set_file (put_budget idx (Some b1) (nd_file nd)) nd) of
             None \<Rightarrow> None
           | Some (Inl e, nd') \<Rightarrow>
               Some (Inl e, set_file (restore_budget (rs_op_id parent) (Some b) (nd_file nd')) nd')
           | Some (Inr a, nd') \<Rightarrow> Some (Inr a, nd')))"

definition reserve_quoted_readmission ::
  "pairing_ops \<Rightarrow> pairing_cfg \<Rightarrow> world \<Rightarrow> int \<Rightarrow> string \<Rightarrow> reservation \<Rightarrow> string \<Rightarrow> u64 \<Rightarrow> u64 \<Rightarrow> u64
   \<Rightarrow> operation_link option \<Rightarrow> contacts \<times> node \<Rightarrow> ((budget_refusal + u64 \<times> reservation) \<times> contacts \<times> node) option" where
  "reserve_quoted_readmission x cfg w later rid parent recipient quoted admission call_reserved operation = (\<lambda>(cs, nd).
     case canonical_recipient recipient of
       None \<Rightarrow> Some (Inl NoGrant, cs, nd)
     | Some recipient \<Rightarrow> Option.bind (lock_node w nd) (\<lambda>nd.
         case readmission_basis cs (nd_inner nd) parent recipient (w_unix w) of
           Inl e \<Rightarrow> Some (Inl e, cs, nd)
         | Inr (epoch, confirmed) \<Rightarrow>
             (case quoted_need parent recipient quoted admission call_reserved (nd_file nd) of
                Inl e \<Rightarrow> Some (Inl e, cs, nd)
              | Inr (idx, b, extra, need, all_in) \<Rightarrow>
                  let cs' = (if confirmed = None then cs else consume_contact (rs_client_id parent) cs) in
                  if (case confirmed of None \<Rightarrow> False | Some m \<Rightarrow> need > m)
                  then Some (Inl (budget_refusal.FirstContact
                    (''the recipient asks '' @ show_word need @ '' msat to admit you again, more than the ''
                     @ show_word (the confirmed) @ '' msat you confirmed ''
                     @ map char_of [226, 128, 148 :: nat] @ '' nothing was paid'')), cs', nd)
                  else map_option (\<lambda>(r, nd'). (map_sum id (Pair all_in) r, cs', nd'))
                    (charge_readmission x cfg w later rid parent recipient epoch idx b extra admission operation nd))))"

definition reserve_readmission_operation ::
  "pairing_ops \<Rightarrow> pairing_cfg \<Rightarrow> world \<Rightarrow> int \<Rightarrow> string \<Rightarrow> reservation \<Rightarrow> string \<Rightarrow> u64 \<Rightarrow> u64
   \<Rightarrow> operation_link option \<Rightarrow> contacts \<times> node \<Rightarrow> ((budget_refusal + reservation) \<times> contacts \<times> node) option" where
  "reserve_readmission_operation x cfg w later rid parent recipient amount call_reserved operation s =
     map_option (\<lambda>(r, s'). (map_sum id snd r, s'))
       (reserve_quoted_readmission x cfg w later rid parent recipient 0 amount call_reserved operation s)"

text \<open>The unused confirmations of a client for one recipient and amount: none or one.\<close>

definition open_contact :: "contacts \<Rightarrow> string \<Rightarrow> string \<Rightarrow> u64 \<Rightarrow> nat" where
  "open_contact cs c r m =
     (case bt_get cs c of
        None \<Rightarrow> 0
      | Some p \<Rightarrow> of_bool (\<not> pn_consumed p \<and> fc_recipient (pn_grant p) = r \<and> fc_max_total_msat (pn_grant p) = m))"

section \<open>Samples\<close>

definition sample_contact :: string where
  "sample_contact = replicate 64 (CHR ''a'')"

text \<open>A meter that allows one payment a minute and holds a message of 90 seconds ago.\<close>

definition sample_slow_meter :: grant_budget where
  "sample_slow_meter = snd (admit_charges ''m1'' default_authority
     [\<lparr> ch_recipient = sample_contact, ch_amount_msat = 1000 \<rparr>] 910
     (from_terms ((terms_recipient sample_contact 50000 (terms_new 100000))
        \<lparr> gt_breakers := default_breaker_limits \<lparr> max_payments_per_minute := 1 \<rparr> \<rparr>)))"

definition sample_slow_node :: node where
  "sample_slow_node = set_file (put_budget 0 (Some sample_slow_meter) (nd_file sample_spend_node)) sample_spend_node"

definition sample_parent :: reservation where
  "sample_parent = \<lparr> rs_id = ''m1'', rs_client_id = sample_phone, rs_op_id = ''op'',
     rs_charges = [\<lparr> ch_recipient = sample_contact, ch_amount_msat = 1000 \<rparr>] \<rparr>"

section \<open>Facts\<close>

lemma get_consumed [simp]:
  "bt_get (consume_contact c cs) k = map_option (\<lambda>p. if k = c then p \<lparr> pn_consumed := True \<rparr> else p) (bt_get cs k)"
  by (induction cs) (auto simp: consume_contact_def)

lemma open_consumed: "open_contact (consume_contact c cs) k r m = (if k = c then 0 else open_contact cs k r m)"
  by (auto simp: open_contact_def split: option.splits)

lemma open_consumed_le: "open_contact (consume_contact c cs) k r m \<le> open_contact cs k r m"
  by (simp add: open_consumed)

lemma granted_contacts:
  assumes "grant_first_contact_locked w now c op r m cb (cs, nd) = Some (res, cs', nd')"
  shows "case res of
      Inr g \<Rightarrow> canonical_recipient r = Some (fc_recipient g) \<and> fc_max_total_msat g = m
        \<and> m \<le> MESSAGING_PER_CALL_MAX_MSAT \<and> (\<exists>p. cs' = bt_insert c p cs \<and> pn_grant p = g)
    | Inl _ \<Rightarrow> cs' = cs"
proof -
  note def = assms [unfolded grant_first_contact_locked_def Let_def prod.case]
  show ?thesis
  proof (cases res)
    case (Inl e)
    then show ?thesis using def by (auto split: option.splits if_splits sum.splits prod.splits)
  next
    case (Inr g)
    have "m \<le> MESSAGING_PER_CALL_MAX_MSAT" if "contact_refusal a m cb b = None" for a b
      using that by (auto simp: contact_refusal_def Let_def messaging_per_call_max_msat_def split: if_splits)
        (simp_all add: not_less)
    then show ?thesis using def Inr by (auto split: option.splits if_splits sum.splits prod.splits)
  qed
qed

lemma taken_contacts:
  assumes "take_first_contact w c e r (cs, nd) = Some (res, cs', nd')"
  shows "case res of
      Some a \<Rightarrow> cs' = consume_contact c cs \<and> fa_client_id a = c \<and> open_contact cs c (fa_recipient a) (fa_max_total_msat a) = 1
    | None \<Rightarrow> cs' = cs \<or> cs' = consume_contact c cs"
  using assms unfolding take_first_contact_def prod.case
  by (cases "canonical_recipient r"; cases "lock_node w nd"; cases "bt_get cs c")
    (auto simp: open_contact_def split: if_splits)

lemma readmitted_contacts:
  assumes "reserve_quoted_readmission x cfg w later rid par r q adm cr operation (cs, nd) = Some (res, cs', nd')"
  shows "cs' = cs \<or> cs' = consume_contact (rs_client_id par) cs"
    and "res = Inr v \<Longrightarrow> canonical_recipient r = Some k \<Longrightarrow> lock_node w nd = Some nd1
      \<Longrightarrow> readmission_basis cs (nd_inner nd1) par k (w_unix w) = Inr (e, Some m)
      \<Longrightarrow> cs' = consume_contact (rs_client_id par) cs \<and> open_contact cs (rs_client_id par) k m = 1"
proof -
  note def = assms [unfolded reserve_quoted_readmission_def prod.case]
  show "cs' = cs \<or> cs' = consume_contact (rs_client_id par) cs"
  proof (cases "canonical_recipient r")
    case None then show ?thesis using def by simp
  next
    case (Some k)
    then obtain nd1 where nd1: "lock_node w nd = Some nd1" using def by (auto simp: bind_eq_Some_conv)
    show ?thesis
      by (cases "readmission_basis cs (nd_inner nd1) par k (w_unix w)";
          cases "quoted_need par k q adm cr (nd_file nd1)")
        (use def Some nd1 in \<open>auto simp: Let_def split: prod.splits if_splits\<close>)
  qed
  assume *: "res = Inr v" "canonical_recipient r = Some k" "lock_node w nd = Some nd1"
    "readmission_basis cs (nd_inner nd1) par k (w_unix w) = Inr (e, Some m)"
  have "cs' = consume_contact (rs_client_id par) cs"
    using def * by (cases "quoted_need par k q adm cr (nd_file nd1)") (auto simp: Let_def split: if_splits prod.splits)
  moreover have "open_contact cs (rs_client_id par) k m = 1"
    using *(4) by (auto simp: readmission_basis_def open_contact_def bind_eq_Some_conv split: option.splits if_splits)
  ultimately show "cs' = consume_contact (rs_client_id par) cs \<and> open_contact cs (rs_client_id par) k m = 1" ..
qed

lemma sample_spend_sel:
  "nd_file sample_spend_node = pairing_file_new \<lparr> pf_clients := [sample_client 1], pf_grants := [sample_grant] \<rparr>"
  "in_identity_fingerprint (nd_inner sample_spend_node) = ''id''" "is_live 1000 sample_grant"
  "lock_node sample_world sample_spend_node = Some sample_spend_node"
proof -
  show live: "is_live 1000 sample_grant"
    by (simp add: is_live_def sample_grant_def i64_wrap_def MAX_SPEND_GRANT_TTL_SECS_def)
  show "lock_node sample_world sample_spend_node = Some sample_spend_node"
    using live by (simp add: lock_node_def sample_spend_node_def Let_def prune_owner_confirmations_def fresh_inner_def
        prune_expired_locked_def has_dead_grant_def pairing_file_new_def bt_retain_def sample_world_clock)
qed (simp_all add: sample_spend_node_def Let_def fresh_inner_def)

lemma sample_contact_canonical: "canonical_recipient sample_contact = Some sample_contact"
proof -
  have stop: "trim_start_of ws (replicate 64 (CHR ''a'')) = replicate 64 (CHR ''a'')"
    if "list_all (\<lambda>w. w = [] \<or> hd w \<noteq> CHR ''a'') ws" for ws
  proof -
    have "find (\<lambda>w. w \<noteq> [] \<and> strip_prefix w (replicate 64 (CHR ''a'')) \<noteq> None) ws = None"
      using that by (auto simp: find_None_iff list_all_iff neq_Nil_conv numeral_eq_Suc)
    then show ?thesis by (subst trim_start_of.simps) simp
  qed
  have "list_all (\<lambda>w. w = [] \<or> hd w \<noteq> CHR ''a'') white_space" "list_all (\<lambda>w. w = [] \<or> hd w \<noteq> CHR ''a'') (map rev white_space)"
    by code_simp+
  then have "trim (replicate 64 (CHR ''a'')) = replicate 64 (CHR ''a'')" by (simp add: trim_def stop)
  moreover have "ascii_lower (CHR ''a'') = CHR ''a''" "ascii_hexdigit (CHR ''a'')" by code_simp+
  ultimately show ?thesis by (simp add: sample_contact_def canonical_recipient_def ascii_lowercase_def list_all_iff)
qed

lemmas slow_eval = terms_eval terms_recipient_def reserve_eval messaging_per_call_max_msat_def MESSAGING_PER_CALL_MAX_MSAT_def
  add_bucket_def breaker_now_def i64_sat_sub_def i64_min_def i64_max_def bt_retain_def in_window_def add_used_def drawn_child_def

lemma slow_meter_eq:
  "sample_slow_meter = (from_terms ((terms_recipient sample_contact 50000 (terms_new 100000))
      \<lparr> gt_breakers := default_breaker_limits \<lparr> max_payments_per_minute := 1 \<rparr> \<rparr>))
    \<lparr> gb_used_msat := 1000, gb_used_by_recipient := [(sample_contact, 1000)], gb_pending := [(''m1'', [(sample_contact, 1000)])],
      gb_breaker_state := spend_breaker_default \<lparr> sb_buckets := [(910, \<lparr> bk_payments = 1, bk_msat = 1000 \<rparr>)], sb_last_at := Some 910 \<rparr> \<rparr>"
  by (simp add: sample_slow_meter_def admit_eval slow_eval)

lemma slow_top_up:
  "top_up ''m1'' sample_contact 500 1000 sample_slow_meter = Inr (sample_slow_meter
    \<lparr> gb_used_msat := 1500, gb_used_by_recipient := [(sample_contact, 1500)], gb_pending := [(''m1'', [(sample_contact, 1500)])],
      gb_breaker_state := spend_breaker_default \<lparr> sb_buckets := [(910, \<lparr> bk_payments = 1, bk_msat = 1000 \<rparr>),
        (1000, \<lparr> bk_payments = 1, bk_msat = 500 \<rparr>)], sb_last_at := Some 1000 \<rparr> \<rparr>)"
  by (simp add: top_up_def slow_meter_eq slow_eval)

lemma slow_refused:
  assumes "top_up ''m1'' sample_contact 500 1000 sample_slow_meter = Inr b1"
  shows "reserve_for_purpose (default_authority \<lparr> ra_expected_op_id := Some ''op'', ra_operation := None \<rparr>)
      [\<lparr> ch_recipient = sample_contact, ch_amount_msat = 2000 \<rparr>] 1000 b1 = Inl RateLimitMinute"
    "ledger_refusal (default_authority \<lparr> ra_expected_op_id := Some ''op'', ra_operation := None \<rparr>) b1 = None"
    "gb_used_msat b1 = 1500" "fst (record_breaker_refusal RateLimitMinute 1000 b1)"
    "gb_used_msat (snd (record_breaker_refusal RateLimitMinute 1000 b1)) = 1500"
proof -
  note b1 = assms [unfolded slow_top_up sum.inject(2), symmetric]
  show "reserve_for_purpose (default_authority \<lparr> ra_expected_op_id := Some ''op'', ra_operation := None \<rparr>)
      [\<lparr> ch_recipient = sample_contact, ch_amount_msat = 2000 \<rparr>] 1000 b1 = Inl RateLimitMinute"
    by (simp add: b1 slow_meter_eq admit_eval slow_eval)
  show "ledger_refusal (default_authority \<lparr> ra_expected_op_id := Some ''op'', ra_operation := None \<rparr>) b1 = None"
    by (simp add: b1 slow_meter_eq admit_eval slow_eval)
  show "gb_used_msat b1 = 1500" "fst (record_breaker_refusal RateLimitMinute 1000 b1)"
    "gb_used_msat (snd (record_breaker_refusal RateLimitMinute 1000 b1)) = 1500"
    by (simp_all add: b1 record_breaker_refusal_def Let_def spend_breaker_default_def)
qed

lemma slow_sel:
  "nd_file sample_slow_node = pairing_file_new
     \<lparr> pf_clients := [sample_client 1], pf_grants := [sample_grant \<lparr> sg_budget := Some sample_slow_meter \<rparr>] \<rparr>"
  "in_identity_fingerprint (nd_inner sample_slow_node) = ''id''"
  "pf_grants (nd_file sample_slow_node) = [sample_grant \<lparr> sg_budget := Some sample_slow_meter \<rparr>]"
  "lock_node sample_world sample_slow_node = Some sample_slow_node"
  "is_live 1000 (sample_grant \<lparr> sg_budget := Some b \<rparr>)" "is_live 1001 (sample_grant \<lparr> sg_budget := Some b \<rparr>)"
proof -
  show live: "is_live 1000 (sample_grant \<lparr> sg_budget := Some b \<rparr>)" "is_live 1001 (sample_grant \<lparr> sg_budget := Some b \<rparr>)" for b
    by (simp_all add: is_live_def sample_grant_def i64_wrap_def MAX_SPEND_GRANT_TTL_SECS_def)
  show "lock_node sample_world sample_slow_node = Some sample_slow_node"
    using live by (simp add: lock_node_def sample_slow_node_def sample_spend_node_def Let_def prune_owner_confirmations_def fresh_inner_def
        prune_expired_locked_def has_dead_grant_def pairing_file_new_def bt_retain_def sample_world_clock put_budget_def set_file_def)
qed (simp_all add: sample_slow_node_def sample_spend_sel put_budget_def, simp add: set_file_def sample_spend_sel)

lemma slow_charged:
  "\<exists>nd'. charge_readmission sample_pairing_ops (sample_cfg \<lparr> owner_control_enabled := True \<rparr>) sample_world 1001 ''r2''
      sample_parent sample_contact 1 0 sample_slow_meter 500 2000 None sample_slow_node = Some (Inl RateLimitMinute, nd')
    \<and> map (map_option gb_used_msat \<circ> sg_budget) (pf_grants (nd_file nd')) = [Some 1000]
    \<and> (\<exists>f. nd_disk nd' = [f] \<and> map (map_option gb_used_msat \<circ> sg_budget) (pf_grants f) = [Some 1500])"
proof -
  let ?cfg = "sample_cfg \<lparr> owner_control_enabled := True \<rparr>"
  let ?auth = "default_authority \<lparr> ra_expected_op_id := Some ''op'', ra_operation := None \<rparr>"
  obtain b1 where b1: "top_up ''m1'' sample_contact 500 1000 sample_slow_meter = Inr b1" using slow_top_up by blast
  note refused = slow_refused [OF b1]
  let ?g = "\<lambda>b. sample_grant \<lparr> sg_budget := Some b \<rparr>"
  let ?b2 = "snd (record_breaker_refusal RateLimitMinute 1000 b1)"
  let ?nd = "\<lambda>b. set_file (put_budget 0 (Some b) (nd_file sample_slow_node)) sample_slow_node"
  have grants: "pf_grants (nd_file (?nd b)) = [?g b]" for b by (simp add: slow_sel)
  have fp: "in_identity_fingerprint (nd_inner (?nd b)) = ''id''" for b using slow_sel(2) by (simp add: set_file_def)
  have "spend_matches sample_pairing_ops ?cfg ?auth sample_phone 1 ''id'' 1000 (?g b)" for b
    using slow_sel(5) [of b] by (simp add: spend_matches_def default_authority_def permits_spend_grant_def sample_grant_def)
  moreover have "find_client sample_phone (nd_file (?nd b)) = Some (sample_client 1)" "pc_epoch (sample_client 1) = 1" for b
    by (simp_all add: slow_sel sample_spend_sel put_budget_def find_client_def sample_client_def)
  moreover have "\<not> ra_payment ?auth" "\<not> ra_liquidity ?auth" "\<not> ra_in_memory ?auth" by (simp_all add: default_authority_def)
  moreover have save: "save_node sample_world (set_file (put_budget 0 (Some b') (nd_file (?nd b))) (?nd b))
      = Some (Inr (), (?nd b') \<lparr> nd_disk := [nd_file (?nd b')] \<rparr>)" for b b'
    using sample_grants_saved [of "?nd b'"] slow_sel(5,6)
    by (simp add: slow_sel sample_spend_sel put_budget_def pairing_file_new_def set_file_def)
  ultimately have "reserve_spend_locked sample_pairing_ops ?cfg sample_world 1001 ''r2'' sample_phone 1
      [\<lparr> ch_recipient = sample_contact, ch_amount_msat = 2000 \<rparr>] ?auth (?nd b1)
      = Some (Inl RateLimitMinute, (?nd ?b2) \<lparr> nd_disk := [nd_file (?nd ?b2)] \<rparr>)"
    using refused grants [of b1] fp [of b1]
    by (simp add: reserve_spend_locked_def refuse_reservation_def Let_def sample_world_clock split_beta)
  moreover have "gb_used_msat sample_slow_meter = 1000" by (simp add: slow_meter_eq)
  ultimately show ?thesis using b1 refused(5) grants [of ?b2]
    by (simp add: charge_readmission_def sample_parent_def sample_world_clock restore_budget_def sample_grant_def)
qed


end
