(* ===== verification/Owner_Approval.thy ===== *)
theory Owner_Approval
  imports First_Contact
begin

text \<open>
  Approvals on a second owner device (\<open>pairing/approval.rs\<close>): a client proposes terms, an
  enrolled device key of another pairing signs the exact message, and the approval writes the
  grant, resets a breaker or confirms a first contact under the lock of the service. Proposals
  and hourly attempt counts are in memory; a restart starts with the empty state.
\<close>

section \<open>State\<close>

record pending_approval =
  pa_operation :: approval_operation
  pa_created :: nat
  pa_consumed :: bool

record owner_approvals =
  oa_pending :: "(string, pending_approval) btmap"
  oa_requests :: "(string, nat list) btmap"
  oa_approvals :: "(string, nat list) btmap"

record approval_view =
  av_operation :: approval_operation
  av_approval_message :: string
  av_status :: string
  av_owner_action :: string

datatype approval_error = PairingRefused request_error | BudgetRefused budget_refusal

definition PER_HOUR :: nat where "PER_HOUR = 30"

text \<open>Instants are whole seconds of the monotonic clock.\<close>

definition pending_live :: "int \<Rightarrow> nat \<Rightarrow> pending_approval \<Rightarrow> bool" where
  "pending_live now instant p \<longleftrightarrow>
     ao_expires_at (pa_operation p) > now \<and> int (instant - pa_created p) < APPROVAL_TTL"

definition pending_view :: "int \<Rightarrow> nat \<Rightarrow> pending_approval \<Rightarrow> approval_view" where
  "pending_view now instant p =
     \<lparr> av_operation = pa_operation p, av_approval_message = approval_message (pa_operation p),
       av_status = (if pa_consumed p then ''consumed'' else if pending_live now instant p then ''pending'' else ''expired''),
       av_owner_action = ''Approve these exact terms on a different enrolled owner device'' \<rparr>"

definition rate ::
  "nat \<Rightarrow> string \<Rightarrow> (string, nat list) btmap \<Rightarrow> (pairing_error + unit) \<times> (string, nat list) btmap" where
  "rate instant key m =
     (let kept = filter (\<lambda>(_, ts). ts \<noteq> []) (map (\<lambda>(k, ts). (k, filter (\<lambda>t. instant - t < 3600) ts)) m);
          times = bt_get_or [] kept key in
      if length times \<ge> PER_HOUR then (Inl TooManyPending, kept)
      else (Inr (), bt_insert key (times @ [instant]) kept))"

definition approval_mode :: "pairing_cfg \<Rightarrow> bool" where
  "approval_mode cfg \<longleftrightarrow> owner_control_enabled cfg \<or> local_owner_device cfg"

definition approval_client :: "string \<Rightarrow> u64 \<Rightarrow> pairing_file \<Rightarrow> pairing_error + paired_client" where
  "approval_client client_id epoch f =
     (case find_client client_id f of
        None \<Rightarrow> Inl UnknownClient
      | Some c \<Rightarrow> if pc_epoch c \<noteq> epoch then Inl BindingMismatch else Inr c)"

definition approval_grant ::
  "pairing_ops \<Rightarrow> pairing_cfg \<Rightarrow> string \<Rightarrow> u64 \<Rightarrow> int \<Rightarrow> inner \<Rightarrow> spend_grant option" where
  "approval_grant x cfg client_id epoch now i =
     find (\<lambda>g. sg_client_id g = client_id \<and> sg_epoch g = epoch
         \<and> sg_identity_fingerprint g = in_identity_fingerprint i \<and> is_live now g
         \<and> permits_spend_grant x cfg g) (pf_grants (in_file i))"

section \<open>Proposals\<close>

text \<open>What the node adds to a proposal: the live grant, and the state a reset was reviewed in.\<close>

definition proposal_terms ::
  "pairing_ops \<Rightarrow> approval_request \<Rightarrow> int \<Rightarrow> spend_grant option
   \<Rightarrow> pairing_error + breaker_reset_terms option" where
  "proposal_terms x request now grant =
     (case request of
        FirstContact _ _ _ \<Rightarrow>
          if grant = None then Inl (NotGrantable ''first contact requires a live spend grant'') else Inr None
      | BreakerReset \<Rightarrow>
          (case grant of
             None \<Rightarrow> Inl (NotGrantable ''reset requires a live spend grant'')
           | Some g \<Rightarrow> map_sum id Some (reset_terms_from_grant x g now))
      | SpendGrant _ _ _ _ \<Rightarrow> Inr None)"

definition request_owner_approval ::
  "pairing_ops \<Rightarrow> pairing_cfg \<Rightarrow> world \<Rightarrow> int \<Rightarrow> string \<Rightarrow> bytes \<Rightarrow> string \<Rightarrow> u64 \<Rightarrow> approval_request
   \<Rightarrow> owner_approvals \<times> node \<Rightarrow> ((request_error + approval_view) \<times> owner_approvals \<times> node) option" where
  "request_owner_approval x cfg w later op_id nonce client_id epoch request = (\<lambda>(oa, nd).
     if \<not> approval_mode cfg then Some (Inl (PairingErr OwnerChannelUnavailable), oa, nd)
     else case request_normalize request of
       Inl e \<Rightarrow> Some (Inl e, oa, nd)
     | Inr request \<Rightarrow> map_option (\<lambda>nd.
         let now = w_unix w; grant = approval_grant x cfg client_id epoch now (nd_inner nd);
             stop = (\<lambda>e oa. (Inl (PairingErr e), oa, nd)) in
         case approval_client client_id epoch (nd_file nd) of
           Inl e \<Rightarrow> stop e oa
         | Inr client \<Rightarrow>
             (case proposal_terms x request now grant of
                Inl e \<Rightarrow> stop e oa
              | Inr reset \<Rightarrow>
                  let kept = bt_retain (\<lambda>_. pending_live now (w_instant w)) (oa_pending oa);
                      oa1 = oa \<lparr> oa_pending := kept \<rparr> in
                  if length kept \<ge> 1024
                     \<or> length (filter (\<lambda>(_, p). \<not> pa_consumed p \<and> ao_client_id (pa_operation p) = client_id) kept) \<ge> 3
                  then stop TooManyPending oa1
                  else (case rate (w_instant w) client_id (oa_requests oa) of
                      (Inl e, m) \<Rightarrow> stop e (oa1 \<lparr> oa_requests := m \<rparr>)
                    | (Inr _, m) \<Rightarrow>
                        let p = \<lparr> pa_operation =
                              \<lparr> ao_op_id = op_id, ao_node = in_identity_fingerprint (nd_inner nd),
                                ao_client_id = client_id, ao_client_pubkey = pc_client_pubkey client, ao_epoch = epoch,
                                ao_grant_op = map_option sg_op_id grant, ao_breaker_reset = reset, ao_request = request,
                                ao_nonce = hex_encode x nonce, ao_expires_at = i64_wrap (now + APPROVAL_TTL) \<rparr>,
                              pa_created = w_instant w, pa_consumed = False \<rparr> in
                        (Inr (pending_view later (w_instant w) p),
                         oa1 \<lparr> oa_requests := m, oa_pending := bt_insert op_id p kept \<rparr>, nd))))
         (lock_node w nd))"

definition owner_approval_status ::
  "int \<Rightarrow> nat \<Rightarrow> string \<Rightarrow> u64 \<Rightarrow> string \<Rightarrow> owner_approvals \<Rightarrow> pairing_file \<Rightarrow> pairing_error + approval_view" where
  "owner_approval_status now instant client_id epoch op_id oa f =
     (case approval_client client_id epoch f of
        Inl e \<Rightarrow> Inl e
      | Inr _ \<Rightarrow>
          (case bt_get (oa_pending oa) op_id of
             None \<Rightarrow> Inl UnknownOperation
           | Some p \<Rightarrow>
               if ao_client_id (pa_operation p) = client_id \<and> ao_epoch (pa_operation p) = epoch
               then Inr (pending_view now instant p) else Inl UnknownOperation))"

text \<open>The map is ordered by operation, so its live entries come sorted as the code sorts them.\<close>

definition pending_approval_views :: "int \<Rightarrow> nat \<Rightarrow> owner_approvals \<Rightarrow> approval_view list" where
  "pending_approval_views now instant oa =
     map (pending_view now instant \<circ> snd)
       (filter (\<lambda>(_, p). \<not> pa_consumed p \<and> pending_live now instant p) (oa_pending oa))"

definition owner_pending_approvals ::
  "pairing_ops \<Rightarrow> pairing_cfg \<Rightarrow> int \<Rightarrow> nat \<Rightarrow> string \<Rightarrow> u64 \<Rightarrow> string \<Rightarrow> owner_approvals \<Rightarrow> inner
   \<Rightarrow> pairing_error + approval_view list" where
  "owner_pending_approvals x cfg now instant client_id epoch key_id oa i =
     (if \<not> approval_mode cfg then Inl OwnerChannelUnavailable
      else case intent_key x cfg i client_id epoch key_id of
        Inl e \<Rightarrow> Inl e
      | Inr _ \<Rightarrow> Inr (filter (\<lambda>v. ao_client_id (av_operation v) \<noteq> client_id) (pending_approval_views now instant oa)))"

section \<open>Approval\<close>

definition approve_breaker_reset ::
  "pairing_ops \<Rightarrow> pairing_cfg \<Rightarrow> world \<Rightarrow> string \<Rightarrow> approval_operation \<Rightarrow> node
   \<Rightarrow> ((pairing_error + unit) \<times> node) option" where
  "approve_breaker_reset x cfg w key_id op nd =
     (let now = w_unix w; f = nd_file nd; stop = (\<lambda>e. Some (Inl e, nd)) in
      case approval_grant x cfg (ao_client_id op) (ao_epoch op) now (nd_inner nd) of
        None \<Rightarrow> stop UnknownOperation
      | Some g \<Rightarrow>
          (case reset_terms_from_grant x g now of
             Inl e \<Rightarrow> stop e
           | Inr current \<Rightarrow>
               if rt_resets_last_day current \<ge> RESET_PER_DAY then stop TooManyPending
               else (case ao_breaker_reset op of
                       None \<Rightarrow> stop BadProof
                     | Some reviewed \<Rightarrow>
                         if rt_state_digest current \<noteq> rt_state_digest reviewed
                            \<or> rt_grant_expires_at current \<noteq> rt_grant_expires_at reviewed
                         then stop BindingMismatch
                         else (case find_index (\<lambda>g. Some (sg_op_id g) = ao_grant_op op) (pf_grants f) of
                                 None \<Rightarrow> stop UnknownOperation
                               | Some idx \<Rightarrow>
                                   (case sg_budget (pf_grants f ! idx) of
                                      None \<Rightarrow> stop UnknownOperation
                                    | Some b \<Rightarrow>
                                        let b1 = reset_breakers b;
                                            b2 = b1 \<lparr> gb_device_breaker_resets :=
                                              filter (\<lambda>r. dr_at r > i64_sat_sub now RESET_WINDOW) (gb_device_breaker_resets b1)
                                              @ [\<lparr> dr_at = now, dr_approver_key_id = key_id, dr_approval_op_id = ao_op_id op \<rparr>] \<rparr> in
                                        commit w (nd_inner nd) (set_file (put_budget idx (Some b2) f) nd) ())))))"

definition approved_grant :: "int \<Rightarrow> string \<Rightarrow> string \<Rightarrow> device_key \<Rightarrow> approval_operation \<Rightarrow> grant_terms \<Rightarrow> spend_grant" where
  "approved_grant now key_id signature approver op terms =
     \<lparr> sg_op_id = ao_op_id op, sg_client_id = ao_client_id op, sg_scopes = [Spend], sg_granted_at = now,
       sg_expires_at = i64_wrap (now + gt_ttl_secs terms), sg_identity_fingerprint = ao_node op,
       sg_epoch = ao_epoch op, sg_granted_by = ''device:'' @ key_id, sg_budget = Some (from_terms terms),
       sg_owner_approval = Some \<lparr> ar_operation = op, ar_approver = approver, ar_signature = signature \<rparr> \<rparr>"

text \<open>A new budget replaces every budget the client had.\<close>

definition replace_budgets :: "string \<Rightarrow> spend_grant \<Rightarrow> pairing_file \<Rightarrow> pairing_file" where
  "replace_budgets client_id g f =
     f \<lparr> pf_grants := map (\<lambda>old. if sg_client_id old = client_id then old \<lparr> sg_budget := None \<rparr> else old) (pf_grants f) @ [g] \<rparr>"

definition approve_spend_grant ::
  "world \<Rightarrow> string \<Rightarrow> string \<Rightarrow> device_key \<Rightarrow> approval_operation \<Rightarrow> node
   \<Rightarrow> ((request_error + unit) \<times> node) option" where
  "approve_spend_grant w key_id signature approver op nd =
     (case spend_terms (ao_request op) of
        Inl e \<Rightarrow> Some (Inl e, nd)
      | Inr terms \<Rightarrow>
          map_option (map_prod (map_sum PairingErr id) id)
            (commit w (nd_inner nd)
              (set_file (replace_budgets (ao_client_id op)
                 (approved_grant (w_unix w) key_id signature approver op terms) (nd_file nd)) nd) ()))"

definition approve_first_contact ::
  "world \<Rightarrow> int \<Rightarrow> string \<Rightarrow> string \<Rightarrow> device_key \<Rightarrow> approval_operation \<Rightarrow> string \<Rightarrow> u64 \<Rightarrow> u64 option
   \<Rightarrow> contacts \<times> node \<Rightarrow> ((budget_refusal + unit) \<times> contacts \<times> node) option" where
  "approve_first_contact w later key_id signature approver op recipient max_total budget = (\<lambda>(cs, nd).
     case ao_grant_op op of
       None \<Rightarrow> Some (Inl NoGrant, cs, nd)
     | Some grant_op \<Rightarrow>
         (case grant_first_contact_locked w later (ao_client_id op) grant_op recipient max_total budget (cs, nd) of
            None \<Rightarrow> None
          | Some (Inl e, cs', nd') \<Rightarrow> Some (Inl e, cs', nd')
          | Some (Inr _, cs', nd') \<Rightarrow>
              Some (Inr (), map (\<lambda>(k, p). (k, if k = ao_client_id op
                then p \<lparr> pn_grant := (pn_grant p) \<lparr>
                            fc_expires_at := min (fc_expires_at (pn_grant p)) (i64_wrap (w_unix w + 120)),
                            fc_granted_by := Some (''device:'' @ key_id) \<rparr>,
                         pn_owner_approval := Some \<lparr> ar_operation = op, ar_approver = approver, ar_signature = signature \<rparr> \<rparr>
                else p)) cs', nd')))"

text \<open>The checks between the attempt count and the write, in their order.\<close>

definition approval_refusal ::
  "pairing_ops \<Rightarrow> pairing_cfg \<Rightarrow> int \<Rightarrow> nat \<Rightarrow> string \<Rightarrow> device_key \<Rightarrow> string \<Rightarrow> pending_approval \<Rightarrow> inner
   \<Rightarrow> pairing_error option" where
  "approval_refusal x cfg now instant client_id approver signature p i =
     (let op = pa_operation p in
      if \<not> pending_live now instant p then Some Expired
      else if pa_consumed p \<or> ao_client_id op = client_id then Some BadProof
      else case approval_client (ao_client_id op) (ao_epoch op) (in_file i) of
        Inl e \<Rightarrow> Some e
      | Inr requester \<Rightarrow>
          if ao_node op \<noteq> in_identity_fingerprint i \<or> ao_client_pubkey op \<noteq> pc_client_pubkey requester
          then Some BindingMismatch
          else (case parse_public_key x (dk_public_key approver) of
                  Inl e \<Rightarrow> Some e
                | Inr public \<Rightarrow>
                    (case verify_p256 x public (ascii_bytes (approval_message op)) signature of
                       Inl e \<Rightarrow> Some e
                     | Inr _ \<Rightarrow>
                         if map_option sg_op_id (approval_grant x cfg (ao_client_id op) (ao_epoch op) now i) \<noteq> ao_grant_op op
                         then Some BindingMismatch else None)))"

definition carry_out ::
  "pairing_ops \<Rightarrow> pairing_cfg \<Rightarrow> world \<Rightarrow> int \<Rightarrow> string \<Rightarrow> string \<Rightarrow> device_key \<Rightarrow> approval_operation
   \<Rightarrow> contacts \<times> node \<Rightarrow> ((approval_error + unit) \<times> contacts \<times> node) option" where
  "carry_out x cfg w later key_id signature approver op = (\<lambda>(cs, nd).
     case ao_request op of
       BreakerReset \<Rightarrow>
         map_option (\<lambda>(r, nd'). (map_sum (PairingRefused \<circ> PairingErr) id r, cs, nd'))
           (approve_breaker_reset x cfg w key_id op nd)
     | SpendGrant _ _ _ _ \<Rightarrow>
         map_option (\<lambda>(r, nd'). (map_sum PairingRefused id r, cs, nd'))
           (approve_spend_grant w key_id signature approver op nd)
     | FirstContact recipient max_total budget \<Rightarrow>
         map_option (\<lambda>(r, s). (map_sum BudgetRefused id r, s))
           (approve_first_contact w later key_id signature approver op recipient max_total budget (cs, nd)))"

definition approve_owner_request ::
  "pairing_ops \<Rightarrow> pairing_cfg \<Rightarrow> world \<Rightarrow> int \<Rightarrow> string \<Rightarrow> u64 \<Rightarrow> string \<Rightarrow> string \<Rightarrow> string
   \<Rightarrow> owner_approvals \<times> contacts \<times> node
   \<Rightarrow> ((approval_error + approval_view) \<times> owner_approvals \<times> contacts \<times> node) option" where
  "approve_owner_request x cfg w later client_id epoch op_id key_id signature = (\<lambda>(oa, cs, nd).
     if \<not> approval_mode cfg then Some (Inl (PairingRefused (PairingErr OwnerChannelUnavailable)), oa, cs, nd)
     else Option.bind (lock_node w nd) (\<lambda>nd.
       let stop = (\<lambda>e oa. Some (Inl (PairingRefused (PairingErr e)), oa, cs, nd)) in
       case intent_key x cfg (nd_inner nd) client_id epoch key_id of
         Inl e \<Rightarrow> stop e oa
       | Inr approver \<Rightarrow>
           (case rate (w_instant w) key_id (oa_approvals oa) of
              (Inl e, m) \<Rightarrow> stop e (oa \<lparr> oa_approvals := m \<rparr>)
            | (Inr _, m) \<Rightarrow>
                let oa = oa \<lparr> oa_approvals := m \<rparr> in
                (case bt_get (oa_pending oa) op_id of
                   None \<Rightarrow> stop UnknownOperation oa
                 | Some p \<Rightarrow>
                     (case approval_refusal x cfg (w_unix w) (w_instant w) client_id approver signature p (nd_inner nd) of
                        Some e \<Rightarrow> stop e oa
                      | None \<Rightarrow>
                          (case carry_out x cfg w later key_id signature approver (pa_operation p) (cs, nd) of
                             None \<Rightarrow> None
                           | Some (Inl e, cs', nd') \<Rightarrow> Some (Inl e, oa, cs', nd')
                           | Some (Inr _, cs', nd') \<Rightarrow>
                               let p' = p \<lparr> pa_consumed := True \<rparr> in
                               Some (Inr (pending_view later (w_instant w) p'),
                                     oa \<lparr> oa_pending := bt_insert op_id p' (oa_pending oa) \<rparr>, cs', nd')))))))"

section \<open>Confirmations over time\<close>

text \<open>
  What happens to the confirmations of first contacts: one is issued for a client, recipient
  and amount, one is used, or neither. The readings of clock and disk and the proposals are
  arbitrary; a restart forgets every confirmation; all other operations leave them alone.
\<close>

datatype contact_event = Issued string string u64 | Used string string u64 | Quiet

fun approval_event :: "approval_error + approval_view \<Rightarrow> contact_event" where
  "approval_event (Inl _) = Quiet"
| "approval_event (Inr v) =
     (case ao_request (av_operation v) of
        FirstContact r m _ \<Rightarrow> Issued (ao_client_id (av_operation v)) (the (canonical_recipient r)) m
      | _ \<Rightarrow> Quiet)"

definition readmission_event ::
  "world \<Rightarrow> reservation \<Rightarrow> string \<Rightarrow> contacts \<times> node \<Rightarrow> budget_refusal + u64 \<times> reservation \<Rightarrow> contact_event" where
  "readmission_event w parent recipient = (\<lambda>(cs, nd) res.
     case (res, canonical_recipient recipient, lock_node w nd) of
       (Inr _, Some k, Some nd1) \<Rightarrow>
         (case readmission_basis cs (nd_inner nd1) parent k (w_unix w) of
            Inr (_, Some m) \<Rightarrow> Used (rs_client_id parent) k m
          | _ \<Rightarrow> Quiet)
     | _ \<Rightarrow> Quiet)"

inductive contact_step ::
  "pairing_ops \<Rightarrow> pairing_cfg \<Rightarrow> contacts \<times> node \<Rightarrow> contact_event \<Rightarrow> contacts \<times> node \<Rightarrow> bool" for x cfg where
  step_grant: "grant_first_contact cfg w c op r m cb s = Some (res, s')
    \<Longrightarrow> contact_step x cfg s (case res of Inl _ \<Rightarrow> Quiet | Inr g \<Rightarrow> Issued c (fc_recipient g) (fc_max_total_msat g)) s'"
| step_approve: "approve_owner_request x cfg w later c e op_id key_id signature (oa, cs, nd) = Some (res, oa', cs', nd')
    \<Longrightarrow> contact_step x cfg (cs, nd) (approval_event res) (cs', nd')"
| step_take: "take_first_contact w c e r s = Some (res, s')
    \<Longrightarrow> contact_step x cfg s (case res of None \<Rightarrow> Quiet | Some a \<Rightarrow> Used (fa_client_id a) (fa_recipient a) (fa_max_total_msat a)) s'"
| step_readmit: "reserve_quoted_readmission x cfg w later rid par r q adm cr operation s = Some (res, s')
    \<Longrightarrow> contact_step x cfg s (readmission_event w par r s res) s'"
| step_restart: "contact_step x cfg (cs, nd) Quiet ([], nd')"
| step_other: "contact_step x cfg (cs, nd) Quiet (cs, nd')"

inductive contact_run :: "pairing_ops \<Rightarrow> pairing_cfg \<Rightarrow> contact_event list \<Rightarrow> contacts \<times> node \<Rightarrow> bool" for x cfg where
  run_start: "contact_run x cfg [] ([], nd)"
| run_step: "contact_run x cfg es s \<Longrightarrow> contact_step x cfg s e s' \<Longrightarrow> contact_run x cfg (e # es) s'"

definition contact_balance :: "contact_event list \<Rightarrow> contacts \<Rightarrow> bool" where
  "contact_balance es cs \<longleftrightarrow>
     (\<forall>c r m. count_list es (Used c r m) + open_contact cs c r m \<le> count_list es (Issued c r m))"

text \<open>Clients and device keys carry the identities derived from their public keys.\<close>

definition ids_derived :: "pairing_ops \<Rightarrow> pairing_file \<Rightarrow> bool" where
  "ids_derived x f \<longleftrightarrow>
     list_all (\<lambda>c. client_id_from_pubkey x (pc_client_pubkey c) = pc_client_id c) (pf_clients f)
     \<and> list_all (\<lambda>k. client_id_from_pubkey x (dk_client_pubkey k) = dk_client_id k
         \<and> (case parse_public_key x (dk_public_key k) of Inl _ \<Rightarrow> True | Inr public \<Rightarrow> key_id_for x public = dk_key_id k))
       (pf_device_keys f)"

text \<open>
  What a file holds for the requester of an approved operation: no budget but the approved
  grant, that grant as long as it is live, and a grant that permits spending exactly if it was
  granted inside the operation's window.
\<close>

definition approval_replaces ::
  "pairing_ops \<Rightarrow> pairing_cfg \<Rightarrow> world \<Rightarrow> spend_grant \<Rightarrow> approval_operation \<Rightarrow> pairing_file \<Rightarrow> bool" where
  "approval_replaces x cfg w new op f \<longleftrightarrow>
     (\<forall>g \<in> set (pf_grants f). sg_client_id g = ao_client_id op \<longrightarrow> sg_budget g \<noteq> None \<longrightarrow> g = new)
     \<and> ((\<forall>n. is_live (sv_clock_start (w_save w n)) new) \<longrightarrow> new \<in> set (pf_grants f))
     \<and> (permits_spend_grant x cfg new \<longleftrightarrow> i64_wrap (ao_expires_at op - APPROVAL_TTL) \<le> w_unix w)"

section \<open>Samples\<close>

definition sample_approval_cfg :: pairing_cfg where
  "sample_approval_cfg = sample_cfg \<lparr> owner_control_enabled := True, owner_approval_key := Some [] \<rparr>"

definition sample_point :: bytes where
  "sample_point = 4 # replicate 64 0"

definition sample_owner_id :: string where
  "sample_owner_id = client_id_from_pubkey sample_pairing_ops ''o''"

definition sample_signature :: "string \<Rightarrow> string" where
  "sample_signature m = map byte_char (pad_to 64 (ascii_bytes m))"

definition sample_owner_key :: device_key where
  "sample_owner_key =
     \<lparr> dk_key_id = key_id_for sample_pairing_ops sample_point, dk_client_id = sample_owner_id,
       dk_public_key = map byte_char sample_point, dk_name = ''owner'', dk_registered_at = 900, dk_epoch = 1,
       dk_client_pubkey = ''o'', dk_owner_approval =
         sample_signature (owner_approval_message ''id'' ''o'' 1 (map byte_char sample_point)),
       dk_enrolled_by = ''console'' \<rparr>"

definition sample_approval_node :: node where
  "sample_approval_node =
     (let f = pairing_file_new \<lparr> pf_clients := [sample_client 1,
                (sample_client 1) \<lparr> pc_client_id := sample_owner_id, pc_client_pubkey := ''o'' \<rparr>],
                pf_device_keys := [sample_owner_key] \<rparr>
      in \<lparr> nd_inner = fresh_inner f ''id'', nd_disk = [f] \<rparr>)"

definition sample_operation :: approval_operation where
  "sample_operation =
     \<lparr> ao_op_id = ''op2'', ao_node = ''id'', ao_client_id = sample_phone, ao_client_pubkey = ''k'', ao_epoch = 1,
       ao_grant_op = None, ao_breaker_reset = None, ao_request = SpendGrant 100000 (Some 100000) 3600 None,
       ao_nonce = [], ao_expires_at = 1300 \<rparr>"

definition sample_proposal :: pending_approval where
  "sample_proposal = \<lparr> pa_operation = sample_operation, pa_created = 10, pa_consumed = False \<rparr>"

definition sample_approvals :: owner_approvals where
  "sample_approvals = \<lparr> oa_pending = [(''op2'', sample_proposal)], oa_requests = [], oa_approvals = [] \<rparr>"

section \<open>Facts\<close>

lemma balance_quiet:
  assumes "contact_balance es cs" "\<And>c r m. open_contact cs' c r m \<le> open_contact cs c r m"
  shows "contact_balance (Quiet # es) cs'"
  using assms unfolding contact_balance_def by simp (meson add_left_mono order_trans)

lemma balance_used:
  assumes "contact_balance es cs" "open_contact cs c r m = 1"
  shows "contact_balance (Used c r m # es) (consume_contact c cs)"
  unfolding contact_balance_def
proof (intro allI)
  fix c' r' m'
  have "count_list es (Used c' r' m') + open_contact cs c' r' m' \<le> count_list es (Issued c' r' m')"
    using assms(1) by (simp add: contact_balance_def)
  then show "count_list (Used c r m # es) (Used c' r' m') + open_contact (consume_contact c cs) c' r' m'
      \<le> count_list (Used c r m # es) (Issued c' r' m')"
    using assms(2) by (auto simp: open_consumed)
qed

lemma balance_issued:
  assumes "contact_balance es cs" "\<And>c'. c' \<noteq> c \<Longrightarrow> bt_get cs' c' = bt_get cs c'"
    "bt_get cs' c = Some p" "fc_recipient (pn_grant p) = r" "fc_max_total_msat (pn_grant p) = m"
  shows "contact_balance (Issued c r m # es) cs'"
  unfolding contact_balance_def
proof (intro allI)
  fix c' r' m'
  have "count_list es (Used c' r' m') + open_contact cs c' r' m' \<le> count_list es (Issued c' r' m')"
    using assms(1) by (simp add: contact_balance_def)
  moreover have "open_contact cs' c' r' m' \<le> (if c' = c \<and> r' = r \<and> m' = m then 1 else if c' = c then 0 else open_contact cs c' r' m')"
    using assms(2-5) by (auto simp: open_contact_def split: option.splits)
  ultimately show "count_list (Issued c r m # es) (Used c' r' m') + open_contact cs' c' r' m'
      \<le> count_list (Issued c r m # es) (Issued c' r' m')" by (auto split: if_splits)
qed

lemma carried_contacts:
  assumes "carry_out x cfg w later key_id signature approver op (cs, nd) = Some (res, cs', nd')"
  shows "case (res, ao_request op) of
      (Inr _, FirstContact r m _) \<Rightarrow>
        (\<forall>c. c \<noteq> ao_client_id op \<longrightarrow> bt_get cs' c = bt_get cs c)
        \<and> (\<exists>p. bt_get cs' (ao_client_id op) = Some p \<and> fc_recipient (pn_grant p) = the (canonical_recipient r)
             \<and> fc_max_total_msat (pn_grant p) = m)
    | _ \<Rightarrow> cs' = cs"
proof (cases "ao_request op")
  case BreakerReset then show ?thesis using assms by (auto simp: carry_out_def split: sum.splits)
next
  case (SpendGrant a b c d) then show ?thesis using assms by (auto simp: carry_out_def split: sum.splits)
next
  case (FirstContact r m budget)
  have get: "bt_get (map (\<lambda>(k, p). (k, if k = c then h p else p)) ps) j
      = map_option (\<lambda>p. if j = c then h p else p) (bt_get ps j)" for c j and ps :: contacts and h
    by (induction ps) auto
  show ?thesis
  proof (cases "ao_grant_op op")
    case None then show ?thesis using assms FirstContact by (auto simp: carry_out_def approve_first_contact_def)
  next
    case (Some g)
    then obtain q cs1 nd1 where q: "grant_first_contact_locked w later (ao_client_id op) g r m budget (cs, nd) = Some (q, cs1, nd1)"
      using assms FirstContact by (auto simp: carry_out_def approve_first_contact_def split: option.splits)
    show ?thesis using granted_contacts [OF q] assms FirstContact Some q
      by (cases q) (auto simp: carry_out_def approve_first_contact_def get option.map_ident)
  qed
qed

lemma approve_cases:
  assumes "approve_owner_request x cfg w later c e op_id key_id signature (oa, cs, nd) = Some (res, oa', cs', nd')"
  obtains (refused) err where "res = Inl err" "cs' = cs"
    | (approved) nd1 approver p m where "approval_mode cfg" "lock_node w nd = Some nd1"
      "intent_key x cfg (nd_inner nd1) c e key_id = Inr approver" "bt_get (oa_pending oa) op_id = Some p"
      "approval_refusal x cfg (w_unix w) (w_instant w) c approver signature p (nd_inner nd1) = None"
      "carry_out x cfg w later key_id signature approver (pa_operation p) (cs, nd1) = Some (Inr (), cs', nd')"
      "res = Inr (pending_view later (w_instant w) (p \<lparr> pa_consumed := True \<rparr>))"
      "oa' = oa \<lparr> oa_approvals := m, oa_pending := bt_insert op_id (p \<lparr> pa_consumed := True \<rparr>) (oa_pending oa) \<rparr>"
proof (cases "\<exists>nd1 approver p m. approval_mode cfg \<and> lock_node w nd = Some nd1
    \<and> intent_key x cfg (nd_inner nd1) c e key_id = Inr approver \<and> rate (w_instant w) key_id (oa_approvals oa) = (Inr (), m)
    \<and> bt_get (oa_pending oa) op_id = Some p
    \<and> approval_refusal x cfg (w_unix w) (w_instant w) c approver signature p (nd_inner nd1) = None")
  case True
  then obtain nd1 approver p m where ok: "approval_mode cfg" "lock_node w nd = Some nd1"
      "intent_key x cfg (nd_inner nd1) c e key_id = Inr approver" "rate (w_instant w) key_id (oa_approvals oa) = (Inr (), m)"
      "bt_get (oa_pending oa) op_id = Some p"
      "approval_refusal x cfg (w_unix w) (w_instant w) c approver signature p (nd_inner nd1) = None" by blast
  note run = assms [unfolded approve_owner_request_def prod.case Let_def ok bind.bind_lunit sum.case]
  show thesis
  proof (cases "carry_out x cfg w later key_id signature approver (pa_operation p) (cs, nd1)")
    case None then show thesis using run ok by simp
  next
    case (Some out)
    obtain q cs1 nd2 where out: "out = (q, cs1, nd2)" by (cases out) auto
    show thesis
    proof (cases q)
      case (Inl err)
      then show thesis using refused [of err] run ok Some out carried_contacts [OF Some [unfolded out]] by simp
    next
      case (Inr u)
      then show thesis using approved [OF ok(1,2,3,5,6), of m] run ok Some out by simp
    qed
  qed
next
  case False
  have "\<exists>err. res = Inl err \<and> cs' = cs"
  proof (cases "lock_node w nd")
    case None then show ?thesis using assms by (auto simp: approve_owner_request_def split: if_splits)
  next
    case (Some nd1)
    obtain r m where r: "rate (w_instant w) key_id (oa_approvals oa) = (r, m)" by fastforce
    show ?thesis
      by (cases "intent_key x cfg (nd_inner nd1) c e key_id"; cases r; cases "bt_get (oa_pending oa) op_id")
        (use assms False Some r in \<open>auto simp: approve_owner_request_def Let_def split: if_splits option.splits\<close>)
  qed
  then show thesis using refused by blast
qed

lemma balance_approved:
  assumes "approve_owner_request x cfg w later c e op_id key_id signature (oa, cs, nd) = Some (res, oa', cs', nd')"
    "contact_balance es cs"
  shows "contact_balance (approval_event res # es) cs'"
  using assms(1)
proof (cases rule: approve_cases)
  case (refused err)
  then show ?thesis using assms(2) balance_quiet [of es cs cs] by simp
next
  case (approved nd1 approver p m)
  from carried_contacts [OF approved(6)] show ?thesis
    using assms(2) balance_quiet [of es cs cs'] balance_issued [of es cs "ao_client_id (pa_operation p)" cs'] approved(7)
    by (cases "ao_request (pa_operation p)") (auto simp: pending_view_def)
qed

lemma contact_step_balance:
  assumes "contact_step x cfg s e s'" "contact_balance es (fst s)"
  shows "contact_balance (e # es) (fst s')"
  using assms
proof (cases rule: contact_step.cases)
  case (step_grant w c op r m cb res)
  obtain cs nd cs' nd' where s: "s = (cs, nd)" "s' = (cs', nd')" by (cases s; cases s') auto
  from step_grant(2) have "res = Inl NoGrant \<and> cs' = cs \<or>
      (\<exists>nd1. grant_first_contact_locked w (w_unix w) c op r m cb (cs, nd1) = Some (res, cs', nd'))"
    unfolding s grant_first_contact_def by (auto simp: bind_eq_Some_conv split: if_splits)
  then show ?thesis
  proof
    assume "res = Inl NoGrant \<and> cs' = cs" then show ?thesis
      using step_grant(1) assms(2) balance_quiet [of es cs cs] s by simp
  next
    assume "\<exists>nd1. grant_first_contact_locked w (w_unix w) c op r m cb (cs, nd1) = Some (res, cs', nd')"
    then obtain nd1 where "grant_first_contact_locked w (w_unix w) c op r m cb (cs, nd1) = Some (res, cs', nd')" ..
    from granted_contacts [OF this] show ?thesis
      using step_grant(1) assms(2) balance_quiet [of es cs cs] s balance_issued [of es cs c cs'] by (cases res) auto
  qed
next
  case (step_approve w later c e' op_id key_id signature oa cs nd res oa' cs' nd')
  then show ?thesis using balance_approved [OF step_approve(4)] assms(2) by simp
next
  case (step_take w c e' r res)
  obtain cs nd cs' nd' where s: "s = (cs, nd)" "s' = (cs', nd')" by (cases s; cases s') auto
  note out = taken_contacts [OF step_take(2) [unfolded s]]
  show ?thesis
  proof (cases res)
    case None
    then have "contact_balance (Quiet # es) cs'"
      using balance_quiet [of es cs cs'] assms(2) out open_consumed_le unfolding s by auto
    then show ?thesis using step_take(1) None s by simp
  next
    case (Some a)
    then show ?thesis using balance_used [of es cs c] assms(2) out step_take(1) unfolding s by simp
  qed
next
  case (step_readmit w later rid par r q adm cr operation res)
  obtain cs nd cs' nd' where s: "s = (cs, nd)" "s' = (cs', nd')" by (cases s; cases s') auto
  note run = step_readmit(2) [unfolded s]
  have quiet: "contact_balance (Quiet # es) cs'"
    using readmitted_contacts(1) [OF run] balance_quiet [of es cs cs'] assms(2) open_consumed_le unfolding s by auto
  show ?thesis
  proof (cases "e = Quiet")
    case True then show ?thesis using quiet s by simp
  next
    case False
    then obtain v k nd1 ep m where used: "res = Inr v" "canonical_recipient r = Some k" "lock_node w nd = Some nd1"
        "readmission_basis cs (nd_inner nd1) par k (w_unix w) = Inr (ep, Some m)" "e = Used (rs_client_id par) k m"
      using step_readmit(1) unfolding s readmission_event_def by (auto split: sum.splits option.splits prod.splits)
    then show ?thesis
      using readmitted_contacts(2) [OF run used(1-4)] balance_used [of es cs "rs_client_id par" k m] assms(2) s by simp
  qed
next
  case step_restart
  then show ?thesis using balance_quiet [of es "fst s" "[]"] assms(2) by (simp add: open_contact_def)
next
  case step_other
  then show ?thesis using balance_quiet [of es "fst s" "fst s"] assms(2) by simp
qed

lemma contact_run_balance: "contact_run x cfg es s \<Longrightarrow> contact_balance es (fst s)"
  by (induction rule: contact_run.induct)
    (auto simp: contact_step_balance, simp add: contact_balance_def open_contact_def)

lemma spend_terms_ok:
  assumes "spend_terms request = Inr terms"
  shows "\<not> gt_allow_liquidity_fees terms" "MIN_SPEND_GRANT_TTL_SECS \<le> gt_ttl_secs terms"
    "gt_ttl_secs terms \<le> MAX_SPEND_GRANT_TTL_SECS" "bt_wf (gt_per_recipient_msat terms)"
proof -
  have "\<exists>t. normalized t = Inr terms \<and> \<not> gt_allow_liquidity_fees t"
    using assms by (cases request) (auto simp: Let_def terms_for_secs_def terms_per_call_def terms_new_def
        terms_recipient_def split: option.splits sum.splits)
  then obtain t where t: "normalized t = Inr terms" "\<not> gt_allow_liquidity_fees t" by blast
  obtain ps m where m: "canonical_budgets (gt_budget_msat t) (gt_per_recipient_msat t) [] = Inr m"
      and terms: "terms = t \<lparr> gt_payee_allowlist := ps, gt_per_recipient_msat := m \<rparr>"
    using t(1) by (auto simp: normalized_def split: if_splits sum.splits)
  show "\<not> gt_allow_liquidity_fees terms" using t(2) terms by simp
  show "MIN_SPEND_GRANT_TTL_SECS \<le> gt_ttl_secs terms" "gt_ttl_secs terms \<le> MAX_SPEND_GRANT_TTL_SECS"
    using t(1) terms by (auto simp: normalized_def split: if_splits)
  show "bt_wf (gt_per_recipient_msat terms)" using canonical_budgets_Inr [OF m] terms by simp
qed

text \<open>The keys and signatures behind an approval that passes its checks.\<close>

lemma approver_signed:
  assumes "intent_key x cfg i c e key_id = Inr key" "ids_derived x (in_file i)"
    "approval_refusal x cfg now inst c key signature p i = None"
  shows "\<exists>owner. owner_approval_key cfg = Some owner \<and> device_authority_off cfg = None
      \<and> receipt_signed x owner \<lparr> ar_operation = pa_operation p, ar_approver = key, ar_signature = signature \<rparr>"
    and "key \<in> set (pf_device_keys (in_file i))" "dk_key_id key = key_id" "dk_client_id key = c"
    and "ao_client_id (pa_operation p) \<noteq> c" "now < ao_expires_at (pa_operation p)" "\<not> pa_consumed p"
    and "ao_node (pa_operation p) = in_identity_fingerprint i"
    and "\<exists>public. parse_public_key x (dk_public_key key) = Inr public
      \<and> verify_p256 x public (ascii_bytes (approval_message (pa_operation p))) signature = Inr ()"
proof -
  from assms(1) obtain client owner where k: "find (\<lambda>k. dk_key_id k = key_id \<and> dk_client_id k = c \<and> dk_epoch k = e)
        (pf_device_keys (in_file i)) = Some key"
      and auth: "device_authority cfg = Inr owner"
      and owner: "\<not> isl (verify_owner_approval x owner (owner_approval_message (in_identity_fingerprint i)
          (dk_client_pubkey key) (dk_epoch key) (dk_public_key key)) (dk_owner_approval key))"
    unfolding intent_key_def by (auto split: option.splits if_splits sum.splits)
  show mem: "key \<in> set (pf_device_keys (in_file i))" and kid: "dk_key_id key = key_id" and kc: "dk_client_id key = c"
    using k by (auto simp: find_Some_iff)
  note ref = assms(3) [unfolded approval_refusal_def Let_def]
  show "ao_client_id (pa_operation p) \<noteq> c" "now < ao_expires_at (pa_operation p)" "\<not> pa_consumed p"
    using ref by (auto simp: pending_live_def split: if_splits)
  from ref obtain requester where r: "approval_client (ao_client_id (pa_operation p)) (ao_epoch (pa_operation p)) (in_file i) = Inr requester"
      and nodes: "ao_node (pa_operation p) = in_identity_fingerprint i" "ao_client_pubkey (pa_operation p) = pc_client_pubkey requester"
    by (auto split: if_splits sum.splits)
  show "ao_node (pa_operation p) = in_identity_fingerprint i" by (rule nodes)
  show pub: "\<exists>public. parse_public_key x (dk_public_key key) = Inr public
      \<and> verify_p256 x public (ascii_bytes (approval_message (pa_operation p))) signature = Inr ()"
    using ref r nodes by (auto split: if_splits sum.splits)
  have "client_id_from_pubkey x (pc_client_pubkey requester) = ao_client_id (pa_operation p)"
    using r assms(2) by (auto simp: approval_client_def find_client_def ids_derived_def list_all_iff find_Some_iff
        split: option.splits if_splits)
  moreover have "client_id_from_pubkey x (dk_client_pubkey key) = dk_client_id key"
    "parse_public_key x (dk_public_key key) = Inr public \<Longrightarrow> key_id_for x public = dk_key_id key" for public
    using mem assms(2) by (auto simp: ids_derived_def list_all_iff)
  ultimately have "receipt_signed x owner \<lparr> ar_operation = pa_operation p, ar_approver = key, ar_signature = signature \<rparr>"
    using pub owner nodes by (auto simp: receipt_signed_def Let_def isl_def split: sum.splits)
  then show "\<exists>owner. owner_approval_key cfg = Some owner \<and> device_authority_off cfg = None
      \<and> receipt_signed x owner \<lparr> ar_operation = pa_operation p, ar_approver = key, ar_signature = signature \<rparr>"
    using auth by (auto simp: device_authority_def split: option.splits)
qed

lemma permits_approved:
  assumes "receipt_signed x owner \<lparr> ar_operation = op, ar_approver = key, ar_signature = signature \<rparr>"
    "owner_approval_key cfg = Some owner" "device_authority_off cfg = None" "approval_mode cfg"
    "dk_client_id key \<noteq> ao_client_id op" "dk_key_id key = key_id" "spend_terms (ao_request op) = Inr terms"
    "0 \<le> now" "now < 2 ^ 62" "now < ao_expires_at op"
  shows "permits_spend_grant x cfg (approved_grant now key_id signature key op terms)
    \<longleftrightarrow> i64_wrap (ao_expires_at op - APPROVAL_TTL) \<le> now"
proof -
  note ok = spend_terms_ok [OF assms(7)]
  have t: "0 \<le> now + gt_ttl_secs terms" "now + gt_ttl_secs terms < 2 ^ 63"
    using ok(2,3) assms(8,9) by (simp_all add: MIN_SPEND_GRANT_TTL_SECS_def MAX_SPEND_GRANT_TTL_SECS_def)
  then have "i64_checked (now + gt_ttl_secs terms) = Some (i64_wrap (now + gt_ttl_secs terms))"
    by (simp add: i64_checked_def i64_wrap_def i64_min_def i64_max_def)
  moreover have "list_all (\<lambda>(r, cap). case bt_get (gt_per_recipient_msat terms) r of None \<Rightarrow> False | Some actual \<Rightarrow> actual \<le> cap)
      (gt_per_recipient_msat terms)"
    using bt_wf_distinct [OF ok(4)] by (auto simp: list_all_iff)
  ultimately show ?thesis using assms ok(1)
    by (auto simp: permits_spend_grant_def approved_grant_def receipt_verifies_def Let_def approval_mode_def from_terms_def)
qed

lemma carried_spend:
  assumes "carry_out x cfg w later key_id signature key op (cs, nd) = Some (Inr (), cs', nd')"
    "ao_request op = SpendGrant b pc ws r"
  obtains terms where "spend_terms (ao_request op) = Inr terms"
    "save_node w (set_file (replace_budgets (ao_client_id op) (approved_grant (w_unix w) key_id signature key op terms) (nd_file nd)) nd)
       = Some (Inr (), nd')"
proof (cases "spend_terms (ao_request op)")
  case (Inl e)
  then show thesis using assms by (auto simp: carry_out_def approve_spend_grant_def)
next
  case (Inr terms)
  then show thesis using assms that [OF Inr]
    by (auto simp: carry_out_def approve_spend_grant_def commit_def split: option.splits sum.splits prod.splits)
qed

lemma saved_live:
  assumes "save_node w nd = Some (Inr (), nd')" "g \<in> set (pf_grants (nd_file nd))"
    "\<forall>n. is_live (sv_clock_start (w_save w n)) g"
  shows "g \<in> set (pf_grants (nd_file nd'))"
proof -
  let ?kept = "\<lambda>env c res. g \<in> set (pf_grants c) \<longrightarrow> (\<forall>n. is_live (sv_clock_start (env n)) g)
    \<longrightarrow> (case fst res of Inl _ \<Rightarrow> True | Inr f \<Rightarrow> g \<in> set (pf_grants f))"
  have kept: "?kept env c res" if "persist_loop env n c d = Some res" for env n c d res
    by (rule persist_loop.raw_induct [where P = "\<lambda>env n c d res. ?kept env c res", OF _ that])
      (auto simp: Let_def retain_live_grants_def split: option.splits if_splits)
  let ?c = "nd_file nd \<lparr> pf_version := PAIRING_FILE_VERSION \<rparr>"
  obtain f d where "persist_loop (w_save w) 0 ?c (nd_disk nd) = Some (Inr f, d)" "nd_file nd' = f"
    using assms(1) by (auto simp: save_node_def persist_def split: option.splits sum.splits)
  then show ?thesis using kept [of "w_save w" 0 ?c] assms(2,3) by fastforce
qed

lemma consumed_refused:
  assumes "approve_owner_request x cfg w later c e op_id key_id signature (oa, cs, nd) = Some (res, oa', cs', nd')"
    "bt_get (oa_pending oa) op_id = Some p" "pa_consumed p"
  shows "isl res"
  using assms(1)
proof (cases rule: approve_cases)
  case (approved nd1 approver p' m)
  then show ?thesis using assms(2,3) by (auto simp: approval_refusal_def Let_def split: if_splits)
qed simp

text \<open>
  (C29) The owner's approval of a spend request on a second device. When it succeeds, an enrolled
  key of another pairing signed the exact message of the operation, every budget the requester
  holds afterwards is the approved grant with the signed terms, the only file a restart can find
  is the one with that grant as long as it is live, and the operation cannot be approved again.
  The grant permits
  spending exactly if the clock has not stepped back to before the operation's window: the check
  of the receipt asks for it and the approval itself does not.
\<close>

theorem approval_grants_signed_terms:
  assumes "approve_owner_request x cfg w later c e op_id key_id signature (oa, cs, nd) = Some (Inr v, oa', cs', nd')"
    "ids_derived x (nd_file nd)" "av_operation v = op" "ao_request op = SpendGrant budget per_call window recipient"
    "0 \<le> w_unix w" "w_unix w < 2 ^ 62"
  shows "(\<exists>key public terms. key \<in> set (pf_device_keys (nd_file nd)) \<and> dk_client_id key = c \<and> c \<noteq> ao_client_id op
      \<and> parse_public_key x (dk_public_key key) = Inr public
      \<and> verify_p256 x public (ascii_bytes (approval_message op)) signature = Inr ()
      \<and> spend_terms (ao_request op) = Inr terms
      \<and> approval_replaces x cfg w (approved_grant (w_unix w) key_id signature key op terms) op (nd_file nd'))
    \<and> nd_disk nd' = [nd_file nd']
    \<and> (\<forall>w2 later2 c2 e2 key2 signature2 s2 r oa3 s3.
      approve_owner_request x cfg w2 later2 c2 e2 op_id key2 signature2 (oa', s2) = Some (r, oa3, s3) \<longrightarrow> isl r)"
proof -
  from assms(1) obtain nd1 key p m where ok: "approval_mode cfg" "lock_node w nd = Some nd1"
      "intent_key x cfg (nd_inner nd1) c e key_id = Inr key"
      "approval_refusal x cfg (w_unix w) (w_instant w) c key signature p (nd_inner nd1) = None"
      "carry_out x cfg w later key_id signature key op (cs, nd1) = Some (Inr (), cs', nd')" "pa_operation p = op"
      "bt_get (oa_pending oa') op_id = Some (p \<lparr> pa_consumed := True \<rparr>)"
    by (cases rule: approve_cases) (use assms(3) in \<open>auto simp: pending_view_def\<close>)
  note reg = same_registry_fields [OF lock_frame(1) [OF ok(2)]]
  have ids: "ids_derived x (nd_file nd1)" using assms(2) reg by (simp add: ids_derived_def)
  note key = approver_signed [OF ok(3) ids ok(4), unfolded ok(6)]
  obtain terms where terms: "spend_terms (ao_request op) = Inr terms"
      and save: "save_node w (set_file (replace_budgets (ao_client_id op)
        (approved_grant (w_unix w) key_id signature key op terms) (nd_file nd1)) nd1) = Some (Inr (), nd')"
    using carried_spend [OF ok(5) assms(4)] by blast
  obtain owner where "owner_approval_key cfg = Some owner" "device_authority_off cfg = None"
      "receipt_signed x owner \<lparr> ar_operation = op, ar_approver = key, ar_signature = signature \<rparr>"
    using key(1) by blast
  note permits = permits_approved [OF this(3,1,2) ok(1) _ key(3) terms assms(5,6) key(6)]
  have "approval_replaces x cfg w (approved_grant (w_unix w) key_id signature key op terms) op (nd_file nd')"
    unfolding approval_replaces_def
    using saved_grants [OF save] saved_live [OF save] permits key(4,5) by (auto simp: replace_budgets_def split: if_splits)
  moreover have "key \<in> set (pf_device_keys (nd_file nd))" using key(2) reg by simp
  moreover have "nd_disk nd' = [nd_file nd']" using save_frame(3) [OF save] by simp
  ultimately show ?thesis using key(4,5,9) terms consumed_refused [OF _ ok(7)] by auto
qed

lemma sample_ids: "sample_phone \<noteq> sample_owner_id"
  by (simp add: sample_phone_def sample_owner_id_def client_id_from_pubkey_def sample_pairing_ops_def pad_to_def
      ascii_bytes_def byte_char_def)

lemma sample_owner_ok:
  "parse_public_key sample_pairing_ops (dk_public_key sample_owner_key) = Inr sample_point"
  "verify_owner_approval sample_pairing_ops [] (owner_approval_message ''id'' ''o'' 1 (dk_public_key sample_owner_key))
     (dk_owner_approval sample_owner_key) = Inr ()"
  "verify_p256 sample_pairing_ops b (ascii_bytes m) (sample_signature m) = Inr ()"
proof -
  have "map char_byte (map byte_char (4 # replicate 64 0)) = 4 # replicate 64 (0 :: u8)" by (rule map_char_byte)
  then show "parse_public_key sample_pairing_ops (dk_public_key sample_owner_key) = Inr sample_point"
    unfolding parse_public_key_def sample_owner_key_def sample_pairing_ops_def sample_point_def
    by (simp del: list.map map_replicate)
qed (simp_all add: verify_owner_approval_def verify_p256_def sample_pairing_ops_def sample_signature_def
    sample_owner_key_def comp_def del: map_map)

lemma sample_approval_sel:
  "nd_file sample_approval_node = pairing_file_new \<lparr> pf_clients := [sample_client 1,
     (sample_client 1) \<lparr> pc_client_id := sample_owner_id, pc_client_pubkey := ''o'' \<rparr>], pf_device_keys := [sample_owner_key] \<rparr>"
  "in_identity_fingerprint (nd_inner sample_approval_node) = ''id''" "pf_grants (nd_file sample_approval_node) = []"
  by (simp_all add: sample_approval_node_def Let_def fresh_inner_def pairing_file_new_def)

lemma sample_approval_checks:
  "lock_node sample_world sample_approval_node = Some sample_approval_node"
  "ids_derived sample_pairing_ops (nd_file sample_approval_node)"
  "intent_key sample_pairing_ops sample_approval_cfg (nd_inner sample_approval_node) sample_owner_id 1
     (dk_key_id sample_owner_key) = Inr sample_owner_key"
  "approval_refusal sample_pairing_ops sample_approval_cfg 1000 10 sample_owner_id sample_owner_key
     (sample_signature (approval_message sample_operation)) sample_proposal (nd_inner sample_approval_node) = None"
proof -
  have clients: "find_client sample_phone (nd_file sample_approval_node) = Some (sample_client 1)"
    "find_client sample_owner_id (nd_file sample_approval_node)
       = Some ((sample_client 1) \<lparr> pc_client_id := sample_owner_id, pc_client_pubkey := ''o'' \<rparr>)"
    using sample_ids by (simp_all add: sample_approval_sel find_client_def sample_client_def)
  have key: "dk_client_id sample_owner_key = sample_owner_id" "dk_epoch sample_owner_key = 1" "dk_client_pubkey sample_owner_key = ''o''"
    by (simp_all add: sample_owner_key_def)
  have op: "ao_client_id sample_operation = sample_phone" "ao_epoch sample_operation = 1" "ao_node sample_operation = ''id''"
      "ao_client_pubkey sample_operation = ''k''" "ao_grant_op sample_operation = None" "ao_expires_at sample_operation = 1300"
    by (simp_all add: sample_operation_def)
  show "lock_node sample_world sample_approval_node = Some sample_approval_node"
    by (simp add: lock_node_def sample_approval_node_def Let_def prune_owner_confirmations_def fresh_inner_def
        prune_expired_locked_def has_dead_grant_def pairing_file_new_def bt_retain_def)
  show "ids_derived sample_pairing_ops (nd_file sample_approval_node)"
    using sample_owner_ok(1) by (simp add: ids_derived_def sample_approval_sel sample_owner_key_def sample_client_def
        sample_phone_def sample_owner_id_def)
  show "intent_key sample_pairing_ops sample_approval_cfg (nd_inner sample_approval_node) sample_owner_id 1
      (dk_key_id sample_owner_key) = Inr sample_owner_key"
    using sample_owner_ok(2) clients(2) by (simp add: intent_key_def sample_approval_sel key device_authority_def
        sample_approval_cfg_def sample_cfg_def sample_client_def)
  show "approval_refusal sample_pairing_ops sample_approval_cfg 1000 10 sample_owner_id sample_owner_key
      (sample_signature (approval_message sample_operation)) sample_proposal (nd_inner sample_approval_node) = None"
    using sample_ids sample_owner_ok(1,3) clients(1)
    by (simp add: approval_refusal_def sample_proposal_def pending_live_def APPROVAL_TTL_def op approval_client_def
        approval_grant_def sample_approval_sel pairing_file_new_def sample_client_def)
qed

lemma sample_approved:
  "\<exists>v oa' cs' nd'. approve_owner_request sample_pairing_ops sample_approval_cfg sample_world 1000 sample_owner_id 1 ''op2''
       (dk_key_id sample_owner_key) (sample_signature (approval_message sample_operation))
       (sample_approvals, [], sample_approval_node) = Some (Inr v, oa', cs', nd') \<and> av_operation v = sample_operation"
proof -
  have "\<not> isl (spend_terms (ao_request sample_operation))"
    by (simp add: sample_operation_def terms_for_secs_def terms_per_call_def terms_new_def normalized_def limits_valid_def
        default_breaker_limits_def MAX_GRANT_BUDGET_MSAT_def MIN_SPEND_GRANT_TTL_SECS_def MAX_SPEND_GRANT_TTL_SECS_def
        MAX_RECIPIENT_BUDGETS_def)
  then obtain terms where terms: "spend_terms (ao_request sample_operation) = Inr terms"
    by (cases "spend_terms (ao_request sample_operation)") auto
  let ?g = "approved_grant 1000 (dk_key_id sample_owner_key) (sample_signature (approval_message sample_operation))
      sample_owner_key sample_operation terms"
  let ?nd = "set_file (replace_budgets sample_phone ?g (nd_file sample_approval_node)) sample_approval_node"
  have "gt_ttl_secs terms \<le> 86400" "60 \<le> gt_ttl_secs terms" using spend_terms_ok(2,3) [OF terms]
    by (simp_all add: MIN_SPEND_GRANT_TTL_SECS_def MAX_SPEND_GRANT_TTL_SECS_def)
  then have "is_live 1000 ?g" "is_live 1001 ?g"
    by (simp_all add: is_live_def approved_grant_def i64_wrap_def MAX_SPEND_GRANT_TTL_SECS_def)
  then have save: "save_node sample_world ?nd = Some (Inr (), ?nd \<lparr> nd_disk := [nd_file ?nd] \<rparr>)"
    by (intro sample_grants_saved) (simp_all add: replace_budgets_def sample_approval_sel pairing_file_new_def)
  have op: "ao_client_id sample_operation = sample_phone" "ao_request sample_operation = SpendGrant 100000 (Some 100000) 3600 None"
    by (simp_all add: sample_operation_def)
  have carried: "carry_out sample_pairing_ops sample_approval_cfg sample_world 1000 (dk_key_id sample_owner_key)
      (sample_signature (approval_message sample_operation)) sample_owner_key sample_operation ([], sample_approval_node)
      = Some (Inr (), [], ?nd \<lparr> nd_disk := [nd_file ?nd] \<rparr>)"
    using terms save by (simp add: carry_out_def approve_spend_grant_def commit_def op sample_world_clock)
  have "w_instant sample_world = 10" "approval_mode sample_approval_cfg"
    by (simp_all add: sample_world_def approval_mode_def sample_approval_cfg_def)
  moreover have "rate 10 (dk_key_id sample_owner_key) [] = (Inr (), [(dk_key_id sample_owner_key, [10])])"
    by (simp add: rate_def bt_get_or_def PER_HOUR_def)
  moreover have "pa_operation sample_proposal = sample_operation" by (simp add: sample_proposal_def)
  ultimately show ?thesis using carried
    by (simp add: approve_owner_request_def sample_approval_checks sample_approvals_def sample_world_clock
        pending_view_def Let_def)
qed

theorem approval_grants_signed_terms_witness:
  "\<exists>v oa' cs' nd'. approve_owner_request sample_pairing_ops sample_approval_cfg sample_world 1000 sample_owner_id 1 ''op2''
       (dk_key_id sample_owner_key) (sample_signature (approval_message sample_operation))
       (sample_approvals, [], sample_approval_node) = Some (Inr v, oa', cs', nd')
     \<and> av_operation v = sample_operation \<and> nd_disk nd' = [nd_file nd']"
proof -
  obtain v oa' cs' nd' where run: "approve_owner_request sample_pairing_ops sample_approval_cfg sample_world 1000
       sample_owner_id 1 ''op2'' (dk_key_id sample_owner_key) (sample_signature (approval_message sample_operation))
       (sample_approvals, [], sample_approval_node) = Some (Inr v, oa', cs', nd')" "av_operation v = sample_operation"
    using sample_approved by blast
  have "ao_request sample_operation = SpendGrant 100000 (Some 100000) 3600 None" by (simp add: sample_operation_def)
  from approval_grants_signed_terms [OF run(1) sample_approval_checks(2) run(2) this] run show ?thesis
    by (auto simp: sample_world_clock)
qed

text \<open>
  (C30) A confirmation of a first contact pays once. In every history of issued confirmations,
  device approvals, payments, repeated admissions, restarts and other operations of the service,
  a confirmation for a client, a recipient and an amount is used at most as often as the owner
  issued one for exactly that client, recipient and amount.
\<close>

theorem first_contact_paid_once:
  assumes "contact_run x cfg es s"
  shows "count_list es (Used c r m) \<le> count_list es (Issued c r m)"
  using contact_run_balance [OF assms] by (simp add: contact_balance_def) (meson le_add1 order_trans)

lemma sample_contact_issued:
  "\<exists>p. grant_first_contact (sample_cfg \<lparr> owner_control_enabled := True \<rparr>) sample_world sample_phone ''op'' sample_contact 1000 None
       ([], sample_spend_node) = Some (Inr (pn_grant p), [(sample_phone, p)], sample_spend_node)
     \<and> fc_recipient (pn_grant p) = sample_contact \<and> fc_max_total_msat (pn_grant p) = 1000 \<and> \<not> pn_consumed p
     \<and> fc_expires_at (pn_grant p) = 1300 \<and> pn_epoch p = 1 \<and> pn_budget_op_id p = ''op''"
proof -
  have "contact_grant sample_phone ''op'' 1000 (nd_inner sample_spend_node) = Some sample_grant"
    using sample_spend_sel(3) by (simp add: contact_grant_def sample_spend_sel sample_client_def)
      (simp add: sample_grant_def)
  moreover have "contact_refusal sample_contact 1000 None (from_terms (terms_new 100000)) = None"
    by (simp add: contact_refusal_def messaging_per_call_max_msat_def MESSAGING_PER_CALL_MAX_MSAT_def remaining_msat_def
        terms_eval sat_sub_def)
  moreover have "length sample_contact = 64" by (simp add: sample_contact_def)
  moreover have "sg_budget sample_grant = Some (from_terms (terms_new 100000))" "sg_expires_at sample_grant = 2000"
      "sg_epoch sample_grant = 1" "sg_op_id sample_grant = ''op''"
    by (simp_all add: sample_grant_def)
  ultimately show ?thesis
    by (simp add: grant_first_contact_def grant_first_contact_locked_def sample_spend_sel(4) sample_contact_canonical
        sample_world_clock FIRST_CONTACT_MAX_MSAT_def FIRST_CONTACT_GRANT_TTL_SECS_def FIRST_CONTACT_APPROVAL_WINDOW_SECS_def
        i64_wrap_def Let_def)
qed

theorem first_contact_paid_once_witness:
  "\<exists>s. contact_run sample_pairing_ops (sample_cfg \<lparr> owner_control_enabled := True \<rparr>)
       [Used sample_phone sample_contact 1000, Issued sample_phone sample_contact 1000] s
   \<and> count_list [Used sample_phone sample_contact 1000, Issued sample_phone sample_contact 1000] (Used sample_phone sample_contact 1000)
     \<le> count_list [Used sample_phone sample_contact 1000, Issued sample_phone sample_contact 1000] (Issued sample_phone sample_contact 1000)"
proof -
  let ?cfg = "sample_cfg \<lparr> owner_control_enabled := True \<rparr>"
  obtain p where p: "grant_first_contact ?cfg sample_world sample_phone ''op'' sample_contact 1000 None
       ([], sample_spend_node) = Some (Inr (pn_grant p), [(sample_phone, p)], sample_spend_node)"
     "fc_recipient (pn_grant p) = sample_contact" "fc_max_total_msat (pn_grant p) = 1000" "\<not> pn_consumed p"
     "fc_expires_at (pn_grant p) = 1300" "pn_epoch p = 1" "pn_budget_op_id p = ''op''"
    using sample_contact_issued by blast
  have issued: "contact_run sample_pairing_ops ?cfg [Issued sample_phone sample_contact 1000] ([(sample_phone, p)], sample_spend_node)"
    using contact_run.run_step [OF contact_run.run_start contact_step.step_grant [OF p(1)]] p(2,3) by simp
  have "\<exists>a s'. take_first_contact sample_world sample_phone 1 sample_contact ([(sample_phone, p)], sample_spend_node) = Some (Some a, s')
      \<and> fa_client_id a = sample_phone \<and> fa_recipient a = sample_contact \<and> fa_max_total_msat a = 1000"
    using p sample_spend_sel(3)
    by (simp add: take_first_contact_def sample_contact_canonical sample_spend_sel sample_world_clock)
      (simp add: sample_grant_def)
  then obtain a s' where a: "take_first_contact sample_world sample_phone 1 sample_contact ([(sample_phone, p)], sample_spend_node) = Some (Some a, s')"
      "fa_client_id a = sample_phone" "fa_recipient a = sample_contact" "fa_max_total_msat a = 1000" by blast
  have "contact_run sample_pairing_ops ?cfg [Used sample_phone sample_contact 1000, Issued sample_phone sample_contact 1000] s'"
    using contact_run.run_step [OF issued contact_step.step_take [OF a(1)]] a(2-4) by simp
  with first_contact_paid_once [OF this] show ?thesis by blast
qed

end
