(* ===== verification/Elevation.thy ===== *)
theory Elevation
  imports Owner_Approval
begin

text \<open>
  Requests of paired clients for spend, front-door and identity-replacement authority, and the
  owner's consent to them (\<open>pairing.rs\<close>, from \<open>console_challenge\<close> and from
  \<open>create_elevation_request\<close> on). The owner reads a code on a console or in a protected file that
  no client can read; an approval repeats it. What was shown is part of an operation's answer
  here, and whether it could be shown is an argument.
\<close>

section \<open>Codes\<close>

definition OWNER_CODE_ALPHABET :: string where
  "OWNER_CODE_ALPHABET = ''23456789ABCDEFGHJKLMNPQRSTUVWXYZ''"

definition OWNER_CODE_ATTEMPTS :: u8 where "OWNER_CODE_ATTEMPTS = 3"
definition OWNER_CODE_FAILURES_PER_RUN :: u32 where "OWNER_CODE_FAILURES_PER_RUN = 10"
definition MAX_PENDING_ELEVATIONS_PER_CLIENT :: nat where "MAX_PENDING_ELEVATIONS_PER_CLIENT = 4"

text \<open>Eight random bytes, four characters each side of a dash.\<close>

definition new_owner_code :: "bytes \<Rightarrow> string" where
  "new_owner_code b =
     (let cs = map (\<lambda>w. OWNER_CODE_ALPHABET ! (unat w mod length OWNER_CODE_ALPHABET)) b
      in take 4 cs @ (if length cs > 4 then ''-'' else []) @ drop 4 cs)"

definition ascii_upper :: "char \<Rightarrow> char" where
  "ascii_upper c = (let k = (of_char c :: nat) in if 97 \<le> k \<and> k \<le> 122 then char_of (k - 32) else c)"

definition normalize_owner_code :: "string \<Rightarrow> string" where
  "normalize_owner_code typed =
     map ascii_upper (concat (filter (\<lambda>c. c \<notin> set white_space \<and> c \<noteq> ''-'') (utf8_chars typed)))"

definition scope_list :: "scope list \<Rightarrow> string" where
  "scope_list ss = join_with ''+'' (map scope_as_str ss)"

definition grant_confirmation_phrase :: "pending_elevation \<Rightarrow> string" where
  "grant_confirmation_phrase op = ''GRANT '' @ scope_list (pe_scopes op) @ '' TO '' @ pe_op_id op"

definition replacement_confirmation_phrase :: "replacement_approval \<Rightarrow> string" where
  "replacement_confirmation_phrase a = ''REPLACE IDENTITY '' @ ra_op_id a"

datatype delivery = OnConsole | InFile | Undelivered

text \<open>
  The answer carries the line and the short code the owner was shown. Requests with a command
  of the owner's tool may fall back to a protected file.
\<close>

definition console_challenge ::
  "pairing_ops \<Rightarrow> pairing_cfg \<Rightarrow> int \<Rightarrow> bytes \<Rightarrow> bytes \<Rightarrow> delivery \<Rightarrow> string \<Rightarrow> string \<Rightarrow> int \<Rightarrow> bool \<Rightarrow> inner
   \<Rightarrow> (pairing_error + (string \<times> string option) option) \<times> inner" where
  "console_challenge x cfg now nonce code_bytes shown op_id label expires_at command i =
     (if \<not> owner_control_enabled cfg then (Inr None, i)
      else
        let phrase = label @ '' CODE '' @ hex_encode x nonce;
            codes_on = (in_owner_code_failures i < OWNER_CODE_FAILURES_PER_RUN);
            code = (if command \<and> codes_on then Some (new_owner_code code_bytes) else None) in
        if shown = Undelivered \<or> shown = InFile \<and> \<not> command then (Inl OwnerApprovalUnavailable, i)
        else (Inr (Some (phrase, code)),
              i \<lparr> in_owner_confirmations :=
                    bt_insert op_id
                      \<lparr> oc_phrase = blake3 x (ascii_bytes phrase),
                        oc_code = map_option (\<lambda>c. blake3 x (ascii_bytes (normalize_owner_code c))) code,
                        oc_expires_at = expires_at, oc_failures = 0, oc_approval_file = (shown = InFile) \<rparr>
                      (bt_retain (\<lambda>_ c. oc_expires_at c > now) (in_owner_confirmations i)) \<rparr>))"

definition confirmable :: "int \<Rightarrow> string \<Rightarrow> inner \<Rightarrow> bool" where
  "confirmable now op_id i =
     (case bt_get (in_owner_confirmations i) op_id of None \<Rightarrow> False | Some c \<Rightarrow> oc_expires_at c > now)"

definition phrase_matches :: "pairing_ops \<Rightarrow> string \<Rightarrow> owner_confirmation \<Rightarrow> bool" where
  "phrase_matches x confirmation c \<longleftrightarrow> oc_phrase c = blake3 x (ascii_bytes (trim confirmation))"

definition code_matches :: "pairing_ops \<Rightarrow> string \<Rightarrow> inner \<Rightarrow> owner_confirmation \<Rightarrow> bool" where
  "code_matches x confirmation i c \<longleftrightarrow>
     in_owner_code_failures i < OWNER_CODE_FAILURES_PER_RUN
     \<and> oc_code c = Some (blake3 x (ascii_bytes (normalize_owner_code (trim confirmation))))"

definition verify_owner_confirmation :: "pairing_ops \<Rightarrow> int \<Rightarrow> string \<Rightarrow> string \<Rightarrow> inner \<Rightarrow> pairing_error + unit" where
  "verify_owner_confirmation x now op_id confirmation i =
     (case bt_get (in_owner_confirmations i) op_id of
        None \<Rightarrow> Inl ConfirmationMismatch
      | Some c \<Rightarrow>
          if oc_expires_at c > now \<and> phrase_matches x confirmation c then Inr () else Inl ConfirmationMismatch)"

text \<open>A request that is cancelled because of wrong codes leaves the file and is remembered.\<close>

definition cancel_guessed :: "string \<Rightarrow> inner \<Rightarrow> inner" where
  "cancel_guessed op_id i =
     (let f = in_file i;
          client = (case find (\<lambda>e. pe_op_id e = op_id) (pf_pending_elevations f) of
                      Some e \<Rightarrow> Some (pe_client_id e)
                    | None \<Rightarrow> map_option pd_client_id (find (\<lambda>p. pd_op_id p = op_id) (pf_pending_device_keys f))) in
      i \<lparr> in_owner_confirmations := bt_remove op_id (in_owner_confirmations i),
          in_file := f \<lparr> pf_pending_elevations := filter (\<lambda>e. pe_op_id e \<noteq> op_id) (pf_pending_elevations f),
                         pf_pending_device_keys := filter (\<lambda>p. pd_op_id p \<noteq> op_id) (pf_pending_device_keys f) \<rparr>,
          in_cancelled_ops := (case client of None \<Rightarrow> in_cancelled_ops i
                               | Some cid \<Rightarrow> bt_insert op_id cid (in_cancelled_ops i)) \<rparr>)"

definition verify_grant_confirmation ::
  "pairing_ops \<Rightarrow> world \<Rightarrow> string \<Rightarrow> string \<Rightarrow> node \<Rightarrow> ((pairing_error + unit) \<times> node) option" where
  "verify_grant_confirmation x w op_id confirmation nd =
     (let i = nd_inner nd; codes_enabled = (in_owner_code_failures i < OWNER_CODE_FAILURES_PER_RUN) in
      case bt_get (in_owner_confirmations i) op_id of
        None \<Rightarrow> Some (Inl ConfirmationLost, nd)
      | Some c \<Rightarrow>
          if oc_expires_at c \<le> w_unix w then Some (Inl ConfirmationLost, nd)
          else if phrase_matches x confirmation c \<or> code_matches x confirmation i c then Some (Inr (), nd)
          else
            let c' = c \<lparr> oc_failures := sat_add (oc_failures c) 1 \<rparr>;
                left = sat_sub OWNER_CODE_ATTEMPTS (oc_failures c');
                i' = i \<lparr> in_owner_confirmations := bt_insert op_id c' (in_owner_confirmations i),
                         in_owner_code_failures := sat_add (in_owner_code_failures i) 1 \<rparr> in
            if left = 0
            then map_option (\<lambda>(_, nd'). (Inl ConfirmationLost, nd')) (save_node w (set_inner (cancel_guessed op_id i') nd))
            else Some (Inl (if codes_enabled then WrongOwnerCode left else ShortCodesOff), set_inner i' nd))"

section \<open>Elevation\<close>

definition elevation_refusal :: "scope list \<Rightarrow> bool \<Rightarrow> pairing_error option" where
  "elevation_refusal scopes has_terms =
     (if scopes = [] then Some (NotGrantable ''no scopes requested'')
      else case find (\<lambda>s. s \<notin> set grantable_scopes) scopes of
        Some bad \<Rightarrow> Some (NotGrantable (scope_as_str bad))
      | None \<Rightarrow>
          if FrontDoor \<in> set scopes \<and> (\<exists>s \<in> set scopes. s \<noteq> FrontDoor)
          then Some (NotGrantable ''front_door is requested on its own, never together with another scope'')
          else if FrontDoor \<in> set scopes \<and> has_terms
          then Some (Malformed ''a front_door request carries no budget'')
          else None)"

text \<open>Show the code, then store the request; a save that fails takes both back.\<close>

definition open_elevation ::
  "pairing_ops \<Rightarrow> pairing_cfg \<Rightarrow> world \<Rightarrow> bytes \<Rightarrow> bytes \<Rightarrow> delivery \<Rightarrow> pending_elevation \<Rightarrow> node
   \<Rightarrow> ((request_error + pending_elevation \<times> (string \<times> string option) option) \<times> node) option" where
  "open_elevation x cfg w nonce code_bytes shown op nd =
     (case console_challenge x cfg (w_unix w) nonce code_bytes shown (pe_op_id op) (grant_confirmation_phrase op)
             (pe_expires_at op) True (nd_inner nd) of
        (Inl e, i) \<Rightarrow> Some (Inl (PairingErr e), set_inner i nd)
      | (Inr text, i) \<Rightarrow>
          let f = nd_file nd;
              f' = f \<lparr> pf_pending_elevations := filter (\<lambda>e. pe_expires_at e > w_unix w) (pf_pending_elevations f) @ [op] \<rparr> in
          (case save_node w (set_inner (i \<lparr> in_file := f' \<rparr>) nd) of
             None \<Rightarrow> None
           | Some (Inl e, nd') \<Rightarrow>
               Some (Inl (PairingErr e), set_inner ((nd_inner nd')
                 \<lparr> in_file := (nd_file nd') \<lparr> pf_pending_elevations :=
                     filter (\<lambda>e. pe_op_id e \<noteq> pe_op_id op) (pf_pending_elevations (nd_file nd')) \<rparr>,
                   in_owner_confirmations := bt_remove (pe_op_id op) (in_owner_confirmations (nd_inner nd')) \<rparr>) nd')
           | Some (Inr _, nd') \<Rightarrow> Some (Inr (op, text), nd')))"

definition create_budget_elevation_request ::
  "pairing_ops \<Rightarrow> pairing_cfg \<Rightarrow> world \<Rightarrow> bytes \<Rightarrow> bytes \<Rightarrow> bytes \<Rightarrow> delivery \<Rightarrow> string \<Rightarrow> scope list \<Rightarrow> grant_terms option
   \<Rightarrow> node \<Rightarrow> ((request_error + pending_elevation \<times> (string \<times> string option) option) \<times> node) option" where
  "create_budget_elevation_request x cfg w op_bytes nonce code_bytes shown client_id scopes proposed nd =
     (case (case proposed of None \<Rightarrow> Inr None | Some t \<Rightarrow> map_sum TermsErr Some (normalized t)) of
        Inl e \<Rightarrow> Some (Inl e, nd)
      | Inr terms \<Rightarrow>
          (case elevation_refusal scopes (terms \<noteq> None) of
             Some e \<Rightarrow> Some (Inl (PairingErr e), nd)
           | None \<Rightarrow> Option.bind (lock_node w nd) (\<lambda>nd.
               let f = nd_file nd; now = w_unix w; stop = (\<lambda>e. Some (Inl (PairingErr e), nd)) in
               case find_client client_id f of
                 None \<Rightarrow> stop UnknownClient
               | Some client \<Rightarrow>
                   if \<not> owner_control_enabled cfg then stop OwnerApprovalUnavailable
                   else if length (filter (\<lambda>e. pe_client_id e = client_id \<and> pe_expires_at e > now) (pf_pending_elevations f))
                           \<ge> MAX_PENDING_ELEVATIONS_PER_CLIENT
                   then stop TooManyPending
                   else open_elevation x cfg w nonce code_bytes shown
                     \<lparr> pe_op_id = hex_encode x op_bytes, pe_client_id = client_id, pe_client_name = pc_name client,
                       pe_scopes = scopes, pe_created_at = now, pe_expires_at = i64_wrap (now + ELEVATION_TTL_SECS),
                       pe_proposed_terms = terms \<rparr> nd)))"

datatype elevation_status = ElPending | ElGranted | ElExpired | ElLost | ElAbsent

definition elevation_status_for ::
  "pairing_cfg \<Rightarrow> world \<Rightarrow> string \<Rightarrow> string \<Rightarrow> node \<Rightarrow> ((pairing_error + elevation_status) \<times> node) option" where
  "elevation_status_for cfg w client_id op_id nd = map_option (\<lambda>nd.
     (let i = nd_inner nd; f = in_file i; now = w_unix w; pending = find (\<lambda>e. pe_op_id e = op_id) (pf_pending_elevations f) in
      (if \<not> (list_ex (\<lambda>e. pe_op_id e = op_id \<and> pe_client_id e = client_id) (pf_pending_elevations f)
            \<or> list_ex (\<lambda>g. sg_op_id g = op_id \<and> sg_client_id g = client_id) (pf_grants f)
            \<or> list_ex (\<lambda>g. fd_op_id g = op_id \<and> fd_client_id g = client_id) (pf_front_door_grants f)
            \<or> bt_get (in_cancelled_ops i) op_id = Some client_id)
      then Inl UnknownOperation
      else Inr (
        if \<not> owner_control_enabled cfg
        then (case pending of None \<Rightarrow> ElAbsent | Some op \<Rightarrow> if pe_expires_at op \<le> now then ElExpired else ElPending)
        else case pending of
          Some op \<Rightarrow>
            if pe_expires_at op \<le> now then ElExpired
            else if (if FrontDoor \<in> set (pe_scopes op)
                     then list_ex (\<lambda>g. fd_client_id g = pe_client_id op \<and> front_door_live now g) (pf_front_door_grants f)
                     else list_ex (\<lambda>g. sg_client_id g = pe_client_id op \<and> is_live now g) (pf_grants f))
            then ElGranted
            else if \<not> confirmable now op_id i then ElLost else ElPending
        | None \<Rightarrow>
            if list_ex (\<lambda>g. sg_op_id g = op_id \<and> is_live now g) (pf_grants f)
               \<or> list_ex (\<lambda>g. fd_op_id g = op_id \<and> front_door_live now g) (pf_front_door_grants f) then ElGranted
            else if bt_contains (in_cancelled_ops i) op_id then ElLost else ElAbsent)), nd)) (lock_node w nd)"

definition drop_elevation :: "string \<Rightarrow> pairing_file \<Rightarrow> pairing_file" where
  "drop_elevation op_id f = f \<lparr> pf_pending_elevations := filter (\<lambda>e. pe_op_id e \<noteq> op_id) (pf_pending_elevations f) \<rparr>"

text \<open>
  The part both grants share: find the live request, check its kind and the owner's code, and
  hand the request and its client to the write.
\<close>

definition confirm_elevation ::
  "pairing_ops \<Rightarrow> world \<Rightarrow> string \<Rightarrow> string \<Rightarrow> (pending_elevation \<Rightarrow> pairing_error option) \<Rightarrow> node
   \<Rightarrow> (pending_elevation \<Rightarrow> paired_client \<Rightarrow> node \<Rightarrow> ((pairing_error + 'a) \<times> node) option)
   \<Rightarrow> ((pairing_error + 'a) \<times> node) option" where
  "confirm_elevation x w op_id confirmation bad_kind nd write =
     (case find (\<lambda>e. pe_op_id e = op_id) (pf_pending_elevations (nd_file nd)) of
        None \<Rightarrow> Some (Inl UnknownOperation, nd)
      | Some op \<Rightarrow>
          if pe_expires_at op \<le> w_unix w
          then map_option (\<lambda>(r, nd'). (case r of Inl e \<Rightarrow> Inl e | Inr _ \<Rightarrow> Inl Expired, nd'))
                 (save_node w (set_file (drop_elevation op_id (nd_file nd)) nd))
          else (case bad_kind op of
              Some e \<Rightarrow> Some (Inl e, nd)
            | None \<Rightarrow>
                (case verify_grant_confirmation x w op_id confirmation nd of
                   None \<Rightarrow> None
                 | Some (Inl e, nd') \<Rightarrow> Some (Inl e, nd')
                 | Some (Inr _, nd') \<Rightarrow>
                     (case find_client (pe_client_id op) (nd_file nd') of
                        None \<Rightarrow> Some (Inl UnknownClient, nd')
                      | Some client \<Rightarrow> write op client nd'))))"

definition console_grant :: "int \<Rightarrow> pending_elevation \<Rightarrow> paired_client \<Rightarrow> inner \<Rightarrow> grant_terms \<Rightarrow> spend_grant" where
  "console_grant now op client i terms =
     \<lparr> sg_op_id = pe_op_id op, sg_client_id = pe_client_id op, sg_scopes = pe_scopes op, sg_granted_at = now,
       sg_expires_at = i64_wrap (now + gt_ttl_secs terms), sg_identity_fingerprint = in_identity_fingerprint i,
       sg_epoch = pc_epoch client, sg_granted_by = ''cli'', sg_budget = Some (from_terms terms), sg_owner_approval = None \<rparr>"

text \<open>A save that fails keeps the grant in memory.\<close>

definition write_console_grant ::
  "world \<Rightarrow> int \<Rightarrow> string \<Rightarrow> grant_terms \<Rightarrow> pending_elevation \<Rightarrow> paired_client \<Rightarrow> node
   \<Rightarrow> ((pairing_error + spend_grant) \<times> node) option" where
  "write_console_grant w later op_id terms op client nd =
     (let g = console_grant (w_unix w) op client (nd_inner nd) terms in
      case save_node w (set_file (replace_budgets (pe_client_id op) g (drop_elevation op_id (nd_file nd))) nd) of
        None \<Rightarrow> None
      | Some (Inl e, nd') \<Rightarrow> Some (Inl e, nd')
      | Some (Inr _, nd') \<Rightarrow>
          let nd'' = set_inner ((nd_inner nd') \<lparr> in_owner_confirmations :=
                bt_remove op_id (in_owner_confirmations (nd_inner nd')) \<rparr>) nd' in
          Some (if is_live later g then Inr g else Inl Expired, nd''))"

definition grant_elevation ::
  "pairing_ops \<Rightarrow> pairing_cfg \<Rightarrow> world \<Rightarrow> int \<Rightarrow> string \<Rightarrow> string \<Rightarrow> grant_terms \<Rightarrow> node
   \<Rightarrow> ((request_error + spend_grant) \<times> node) option" where
  "grant_elevation x cfg w later op_id confirmation terms nd =
     (if \<not> owner_control_enabled cfg then Some (Inl (PairingErr OwnerChannelUnavailable), nd)
      else case normalized terms of
        Inl e \<Rightarrow> Some (Inl (TermsErr e), nd)
      | Inr terms \<Rightarrow> Option.bind (lock_node w nd) (\<lambda>nd.
          map_option (map_prod (map_sum PairingErr id) id)
            (confirm_elevation x w op_id confirmation
              (\<lambda>op. if FrontDoor \<in> set (pe_scopes op)
                 then Some (NotGrantable ''this request asks for front_door, which carries no budget; grant it as a front-door grant'')
                 else None) nd (write_console_grant w later op_id terms))))"

definition write_front_door ::
  "world \<Rightarrow> string \<Rightarrow> int \<Rightarrow> pending_elevation \<Rightarrow> paired_client \<Rightarrow> node
   \<Rightarrow> ((pairing_error + front_door_grant) \<times> node) option" where
  "write_front_door w op_id ttl_secs op client nd =
     (let g = \<lparr> fd_op_id = pe_op_id op, fd_client_id = pe_client_id op, fd_granted_at = w_unix w,
                fd_expires_at = i64_wrap (w_unix w + ttl_secs),
                fd_identity_fingerprint = in_identity_fingerprint (nd_inner nd), fd_epoch = pc_epoch client,
                fd_granted_by = ''cli'', fd_revoked = False \<rparr>;
          f = drop_elevation op_id (nd_file nd);
          f' = f \<lparr> pf_front_door_grants := map (\<lambda>old. if fd_client_id old = pe_client_id op
                     then old \<lparr> fd_revoked := True \<rparr> else old) (pf_front_door_grants f) @ [g] \<rparr> in
      case save_node w (set_file f' nd) of
        None \<Rightarrow> None
      | Some (Inl e, nd') \<Rightarrow> Some (Inl e, nd')
      | Some (Inr _, nd') \<Rightarrow>
          Some (Inr g, set_inner ((nd_inner nd') \<lparr> in_owner_confirmations :=
                bt_remove op_id (in_owner_confirmations (nd_inner nd')) \<rparr>) nd'))"

definition grant_front_door ::
  "pairing_ops \<Rightarrow> pairing_cfg \<Rightarrow> world \<Rightarrow> string \<Rightarrow> string \<Rightarrow> int \<Rightarrow> node
   \<Rightarrow> ((pairing_error + front_door_grant) \<times> node) option" where
  "grant_front_door x cfg w op_id confirmation ttl_secs nd =
     (if \<not> owner_control_enabled cfg then Some (Inl OwnerChannelUnavailable, nd)
      else if ttl_secs \<le> 0 \<or> ttl_secs > MAX_SPEND_GRANT_TTL_SECS
      then Some (Inl (Malformed ''a front-door grant lasts between 1 second and 24 hours''), nd)
      else Option.bind (lock_node w nd) (\<lambda>nd.
        confirm_elevation x w op_id confirmation
          (\<lambda>op. if pe_scopes op \<noteq> [FrontDoor]
             then Some (NotGrantable ''this request does not ask for front_door; grant it with a budget'') else None)
          nd (write_front_door w op_id ttl_secs)))"

section \<open>Replacing the identity\<close>

text \<open>The fingerprint of a recovery phrase is the key derivation of another crate.\<close>

definition create_replacement_request ::
  "pairing_ops \<Rightarrow> (string \<Rightarrow> pairing_error + string) \<Rightarrow> pairing_cfg \<Rightarrow> world \<Rightarrow> bytes \<Rightarrow> bytes \<Rightarrow> delivery
   \<Rightarrow> string \<Rightarrow> string \<Rightarrow> string \<Rightarrow> node \<Rightarrow> ((pairing_error + replacement_approval \<times> (string \<times> string option) option) \<times> node) option" where
  "create_replacement_request x fingerprint_for cfg w op_bytes nonce shown client_id current mnemonic nd =
     (case fingerprint_for mnemonic of
        Inl e \<Rightarrow> Some (Inl e, nd)
      | Inr replacement \<Rightarrow> Option.bind (lock_node w nd) (\<lambda>nd.
          case find_client client_id (nd_file nd) of
            None \<Rightarrow> Some (Inl UnknownClient, nd)
          | Some client \<Rightarrow>
              let a = \<lparr> ra_op_id = hex_encode x op_bytes, ra_client_id = client_id,
                        ra_current_identity_fingerprint = current, ra_replacement_identity_fingerprint = replacement,
                        ra_expires_at = i64_wrap (w_unix w + ELEVATION_TTL_SECS), ra_approved = False,
                        ra_client_name = pc_name client \<rparr> in
              (case console_challenge x cfg (w_unix w) nonce [] shown (ra_op_id a) (replacement_confirmation_phrase a)
                      (ra_expires_at a) False (nd_inner nd) of
                 (Inl e, i) \<Rightarrow> Some (Inl e, set_inner i nd)
               | (Inr text, i) \<Rightarrow>
                   let f = nd_file nd in
                   finish w (set_inner (i \<lparr> in_file := f \<lparr> pf_replacement_approvals :=
                     filter (\<lambda>a. ra_expires_at a > w_unix w) (pf_replacement_approvals f) @ [a] \<rparr> \<rparr>) nd) (a, text))))"

definition drop_replacement :: "string \<Rightarrow> pairing_file \<Rightarrow> pairing_file" where
  "drop_replacement op_id f = f \<lparr> pf_replacement_approvals := filter (\<lambda>a. ra_op_id a \<noteq> op_id) (pf_replacement_approvals f) \<rparr>"

definition approve_replacement ::
  "pairing_ops \<Rightarrow> pairing_cfg \<Rightarrow> world \<Rightarrow> string \<Rightarrow> string \<Rightarrow> node
   \<Rightarrow> ((pairing_error + replacement_approval) \<times> node) option" where
  "approve_replacement x cfg w op_id confirmation nd =
     (if \<not> owner_control_enabled cfg then Some (Inl OwnerChannelUnavailable, nd)
      else Option.bind (lock_node w nd) (\<lambda>nd.
        let f = nd_file nd in
        case find (\<lambda>a. ra_op_id a = op_id) (pf_replacement_approvals f) of
          None \<Rightarrow> Some (Inl UnknownOperation, nd)
        | Some a \<Rightarrow>
            if ra_expires_at a \<le> w_unix w
            then map_option (\<lambda>(r, nd'). (case r of Inl e \<Rightarrow> Inl e | Inr _ \<Rightarrow> Inl Expired, nd'))
                   (save_node w (set_file (drop_replacement op_id f) nd))
            else (case verify_owner_confirmation x (w_unix w) op_id confirmation (nd_inner nd) of
                Inl e \<Rightarrow> Some (Inl e, nd)
              | Inr _ \<Rightarrow>
                  let a' = a \<lparr> ra_approved := True \<rparr>; f' = drop_replacement op_id f in
                  finish w (set_file (f' \<lparr> pf_replacement_approvals := pf_replacement_approvals f' @ [a'] \<rparr>) nd) a')))"

definition consume_replacement_approval ::
  "pairing_cfg \<Rightarrow> world \<Rightarrow> string \<Rightarrow> string \<Rightarrow> string \<Rightarrow> string \<Rightarrow> node
   \<Rightarrow> ((pairing_error + replacement_approval) \<times> node) option" where
  "consume_replacement_approval cfg w op_id client_id current replacement nd =
     (if \<not> owner_control_enabled cfg then Some (Inl OwnerChannelUnavailable, nd)
      else Option.bind (lock_node w nd) (\<lambda>nd.
        let f = nd_file nd in
        case find_index (\<lambda>a. ra_op_id a = op_id) (pf_replacement_approvals f) of
          None \<Rightarrow> Some (Inl UnknownOperation, nd)
        | Some n \<Rightarrow>
            let a = pf_replacement_approvals f ! n;
                f' = f \<lparr> pf_replacement_approvals := take n (pf_replacement_approvals f) @ drop (Suc n) (pf_replacement_approvals f) \<rparr> in
            if ra_expires_at a \<le> w_unix w
            then map_option (\<lambda>(r, nd'). (case r of Inl e \<Rightarrow> Inl e | Inr _ \<Rightarrow> Inl Expired, nd')) (save_node w (set_file f' nd))
            else if \<not> ra_approved a then Some (Inl NotApproved, nd)
            else if ra_client_id a \<noteq> client_id \<or> ra_current_identity_fingerprint a \<noteq> current
                    \<or> ra_replacement_identity_fingerprint a \<noteq> replacement
            then Some (Inl BindingMismatch, nd)
            else finish w (set_file f' nd) a))"

section \<open>Guessing\<close>

fun wrong_code :: "pairing_error + 'a \<Rightarrow> bool" where
  "wrong_code (Inl (WrongOwnerCode _)) = True"
| "wrong_code _ = False"

fun wrong_request :: "request_error + 'a \<Rightarrow> bool" where
  "wrong_request (Inl (PairingErr (WrongOwnerCode _))) = True"
| "wrong_request _ = False"

text \<open>
  One step of a run of the node, and whether it answered that a short code was wrong. Every
  place that takes a code checks it with \<open>verify_grant_confirmation\<close>; all other operations leave
  the count of wrong codes alone.
\<close>

inductive owner_step :: "pairing_ops \<Rightarrow> pairing_cfg \<Rightarrow> node \<Rightarrow> bool \<Rightarrow> node \<Rightarrow> bool" for x cfg where
  step_guess: "verify_grant_confirmation x w op_id confirmation nd = Some (r, nd') \<Longrightarrow> owner_step x cfg nd (wrong_code r) nd'"
| step_elevate: "grant_elevation x cfg w later op_id confirmation terms nd = Some (q, nd')
    \<Longrightarrow> owner_step x cfg nd (wrong_request q) nd'"
| step_door: "grant_front_door x cfg w op_id confirmation ttl nd = Some (d, nd') \<Longrightarrow> owner_step x cfg nd (wrong_code d) nd'"
| step_ask: "create_budget_elevation_request x cfg w ob nonce cb shown c scopes proposed nd = Some (a, nd')
    \<Longrightarrow> owner_step x cfg nd False nd'"
| step_rest: "in_owner_code_failures (nd_inner nd') = in_owner_code_failures (nd_inner nd) \<Longrightarrow> owner_step x cfg nd False nd'"

inductive owner_run :: "pairing_ops \<Rightarrow> pairing_cfg \<Rightarrow> nat \<Rightarrow> node \<Rightarrow> bool" for x cfg where
  run_fresh: "in_owner_code_failures (nd_inner nd) = 0 \<Longrightarrow> owner_run x cfg 0 nd"
| run_next: "owner_run x cfg n nd \<Longrightarrow> owner_step x cfg nd b nd' \<Longrightarrow> owner_run x cfg (n + of_bool b) nd'"

section \<open>Samples\<close>

definition sample_confirmation :: owner_confirmation where
  "sample_confirmation = \<lparr> oc_phrase = blake3 sample_pairing_ops (ascii_bytes ''go''), oc_code = None,
     oc_expires_at = 1900, oc_failures = 0, oc_approval_file = False \<rparr>"

definition sample_elevation :: pending_elevation where
  "sample_elevation = \<lparr> pe_op_id = ''e1'', pe_client_id = sample_phone, pe_client_name = ''phone'', pe_scopes = [Spend],
     pe_created_at = 1000, pe_expires_at = 1900, pe_proposed_terms = None \<rparr>"

definition sample_asked_node :: node where
  "sample_asked_node =
     (let f = pairing_file_new \<lparr> pf_clients := [sample_client 1], pf_pending_elevations := [sample_elevation] \<rparr>
      in \<lparr> nd_inner = (fresh_inner f ''id'') \<lparr> in_owner_confirmations := [(''e1'', sample_confirmation)] \<rparr>, nd_disk = [f] \<rparr>)"

abbreviation sample_owner_cfg :: pairing_cfg where
  "sample_owner_cfg \<equiv> sample_cfg \<lparr> owner_control_enabled := True \<rparr>"

definition sample_full_disk :: world where
  "sample_full_disk = sample_world \<lparr> w_save := (\<lambda>n. (sample_env n) \<lparr> sv_write := Some ''disk full'' \<rparr>) \<rparr>"

abbreviation wrong_codes :: "node \<Rightarrow> nat" where
  "wrong_codes nd \<equiv> unat (in_owner_code_failures (nd_inner nd))"

definition counted :: "node \<Rightarrow> bool \<Rightarrow> node \<Rightarrow> bool" where
  "counted nd wrong nd' \<longleftrightarrow> wrong_codes nd \<le> wrong_codes nd'
     \<and> (wrong \<longrightarrow> wrong_codes nd < 10 \<and> wrong_codes nd' = Suc (wrong_codes nd))"

section \<open>Facts\<close>

lemma lock_inner:
  assumes "lock_node w nd = Some nd'"
  shows "in_owner_code_failures (nd_inner nd') = in_owner_code_failures (nd_inner nd)"
    "in_identity_fingerprint (nd_inner nd') = in_identity_fingerprint (nd_inner nd)"
    "set (in_owner_confirmations (nd_inner nd')) \<subseteq> set (in_owner_confirmations (nd_inner nd))"
  using assms by (auto simp: lock_node_def prune_owner_confirmations_def Let_def bt_retain_def split: option.splits)

lemma save_inner:
  assumes "save_node w nd = Some (r, nd')"
  shows "in_owner_code_failures (nd_inner nd') = in_owner_code_failures (nd_inner nd)"
    "in_owner_confirmations (nd_inner nd') = in_owner_confirmations (nd_inner nd)"
  using assms by (auto simp: save_node_def set_file_def split: option.splits)

lemma verified:
  assumes "verify_grant_confirmation x w op_id confirmation nd = Some (Inr u, nd')"
  shows "nd' = nd" "\<exists>c. bt_get (in_owner_confirmations (nd_inner nd)) op_id = Some c \<and> w_unix w < oc_expires_at c
    \<and> (phrase_matches x confirmation c \<or> code_matches x confirmation (nd_inner nd) c)"
  using assms by (auto simp: verify_grant_confirmation_def Let_def split: option.splits if_splits)

lemma verify_counts:
  assumes "verify_grant_confirmation x w op_id confirmation nd = Some (r, nd')"
  shows "wrong_codes nd \<le> wrong_codes nd'" "wrong_code r \<Longrightarrow> wrong_codes nd < 10 \<and> wrong_codes nd' = Suc (wrong_codes nd)"
proof -
  have up: "unat (sat_add n 1) = (if unat n < 2 ^ 32 - 1 then Suc (unat n) else unat n)" for n :: u32
    using unat_lt_pow [of n] by (simp add: unat_sat_add min_def)
  have "wrong_codes nd' = wrong_codes nd \<or> wrong_codes nd' = unat (sat_add (in_owner_code_failures (nd_inner nd)) 1)"
    using assms by (auto simp: verify_grant_confirmation_def Let_def set_inner_def cancel_guessed_def
        dest!: save_inner(1) split: option.splits if_splits)
  then show "wrong_codes nd \<le> wrong_codes nd'" by (auto simp: up)
  assume "wrong_code r"
  then have "in_owner_code_failures (nd_inner nd) < 10" "wrong_codes nd' = unat (sat_add (in_owner_code_failures (nd_inner nd)) 1)"
    using assms by (auto simp: verify_grant_confirmation_def Let_def set_inner_def OWNER_CODE_FAILURES_PER_RUN_def
        split: option.splits if_splits)
  then show "wrong_codes nd < 10 \<and> wrong_codes nd' = Suc (wrong_codes nd)" by (simp add: up word_less_nat_alt)
qed

lemma save_error_io:
  assumes "save_node w nd = Some (Inl e, nd')"
  obtains s where "e = Io s"
proof -
  have io: "case fst res of Inl e \<Rightarrow> (\<exists>s. e = Io s) | Inr _ \<Rightarrow> True" if "persist_loop env n c d = Some res" for env n c d res
    by (rule persist_loop.raw_induct [where P = "\<lambda>env n c d res. case fst res of Inl e \<Rightarrow> (\<exists>s. e = Io s) | Inr _ \<Rightarrow> True", OF _ that])
      (auto simp: Let_def split: option.splits if_splits)
  obtain d where "persist_loop (w_save w) 0 (nd_file nd \<lparr> pf_version := PAIRING_FILE_VERSION \<rparr>) (nd_disk nd) = Some (Inl e, d)"
    using assms by (auto simp: save_node_def persist_def split: option.splits sum.splits)
  from io [OF this] show thesis using that by auto
qed

lemma save_quiet:
  "save_node w nd = Some (r, nd') \<Longrightarrow> wrong_codes nd' = wrong_codes nd"
  "save_node w nd = Some (Inl e, nd') \<Longrightarrow> \<not> wrong_code (Inl e :: pairing_error + 'a)"
  using save_inner(1) by metis (auto elim: save_error_io)

lemma counted_quiet: "wrong_codes nd' = wrong_codes nd \<Longrightarrow> \<not> b \<Longrightarrow> counted nd b nd'"
  by (simp add: counted_def)

lemma write_quiet:
  "write_console_grant w later op_id terms op client nd = Some (r, nd') \<Longrightarrow> wrong_codes nd' = wrong_codes nd \<and> \<not> wrong_code r"
  "write_front_door w op_id ttl op client nd = Some (q, nd') \<Longrightarrow> wrong_codes nd' = wrong_codes nd \<and> \<not> wrong_code q"
  by (auto simp: write_console_grant_def write_front_door_def Let_def set_inner_def set_file_def
      dest: save_quiet split: option.splits sum.splits prod.splits if_splits)

lemma confirm_counts:
  assumes "confirm_elevation x w op_id confirmation bad nd write = Some (r, nd')"
    "\<And>op client m q m'. write op client m = Some (q, m') \<Longrightarrow> wrong_codes m' = wrong_codes m \<and> \<not> wrong_code q"
    "\<And>op e. bad op = Some e \<Longrightarrow> \<not> wrong_code (Inl e :: pairing_error + 'a)"
  shows "counted nd (wrong_code (r :: pairing_error + 'a)) nd'"
proof (cases "find (\<lambda>e. pe_op_id e = op_id) (pf_pending_elevations (nd_file nd))")
  case None
  then show ?thesis using assms(1) by (auto simp: confirm_elevation_def intro: counted_quiet)
next
  case (Some op)
  note def = assms(1) [unfolded confirm_elevation_def Some option.case]
  consider (late) "pe_expires_at op \<le> w_unix w" | (kind) e where "\<not> pe_expires_at op \<le> w_unix w" "bad op = Some e"
    | (check) "\<not> pe_expires_at op \<le> w_unix w" "bad op = None" by (cases "bad op") auto
  then show ?thesis
  proof cases
    case late
    then obtain q where "save_node w (set_file (drop_elevation op_id (nd_file nd)) nd) = Some (q, nd')"
        "r = (case q of Inl e \<Rightarrow> Inl e | Inr _ \<Rightarrow> Inl Expired)" using def by auto
    then show ?thesis by (intro counted_quiet) (auto simp: set_file_def dest: save_quiet split: sum.splits)
  next
    case kind
    then show ?thesis using def assms(3) by (auto intro: counted_quiet)
  next
    case check
    then obtain q nd1 where q: "verify_grant_confirmation x w op_id confirmation nd = Some (q, nd1)"
      using def by (auto split: option.splits)
    show ?thesis
    proof (cases q)
      case (Inl e)
      then have "nd' = nd1" "wrong_code r = wrong_code q" using def check q by (auto elim!: wrong_code.elims)
      then show ?thesis using verify_counts [OF q] by (auto simp: counted_def)
    next
      case (Inr u)
      then show ?thesis using def check q verified(1) [OF q [unfolded Inr]] assms(2)
        by (auto intro!: counted_quiet split: option.splits)
    qed
  qed
qed

lemma ask_quiet:
  assumes "create_budget_elevation_request x cfg w ob nonce cb shown c scopes proposed nd = Some (a, nd')"
  shows "wrong_codes nd' = wrong_codes nd"
proof -
  have challenge: "console_challenge x cfg now nonce cb shown op label t cmd i = (r, i') \<Longrightarrow> in_owner_code_failures i' = in_owner_code_failures i"
    for now op label t cmd i r i'
    by (auto simp: console_challenge_def Let_def split: if_splits)
  have opened: "wrong_codes nd2 = wrong_codes nd1"
    if "open_elevation x cfg w nonce cb shown op nd1 = Some (a, nd2)" for op nd1 nd2
  proof -
    obtain r i where ch: "console_challenge x cfg (w_unix w) nonce cb shown (pe_op_id op) (grant_confirmation_phrase op)
        (pe_expires_at op) True (nd_inner nd1) = (r, i)" by fastforce
    show ?thesis using that ch challenge [OF ch] save_quiet(1)
      by (cases r) (fastforce simp: open_elevation_def set_inner_def Let_def split: option.splits sum.splits prod.splits)+
  qed
  have "nd' = nd \<or> (\<exists>nd1. lock_node w nd = Some nd1 \<and> (nd' = nd1 \<or> (\<exists>op. open_elevation x cfg w nonce cb shown op nd1 = Some (a, nd'))))"
    using assms unfolding create_budget_elevation_request_def Let_def
    by (cases "case proposed of None \<Rightarrow> Inr None | Some t \<Rightarrow> map_sum TermsErr Some (normalized t)")
      (auto simp: bind_eq_Some_conv split: option.splits if_splits)
  then show ?thesis using lock_inner(1) opened by metis
qed

lemma counted_lock: "lock_node w nd = Some nd1 \<Longrightarrow> counted nd1 b nd' \<Longrightarrow> counted nd b nd'"
  by (simp add: counted_def lock_inner(1))

lemma wrong_request_map: "wrong_request (map_sum PairingErr h r) = wrong_code r"
  by (induction r rule: wrong_code.induct) auto

lemma elevate_cases:
  assumes "grant_elevation x cfg w later op_id confirmation terms nd = Some (q, nd')"
  obtains (stopped) "nd' = nd" "q = Inl (PairingErr OwnerChannelUnavailable) \<or> (\<exists>e. q = Inl (TermsErr e))"
    | (tried) t nd1 bad r where "owner_control_enabled cfg" "normalized terms = Inr t" "lock_node w nd = Some nd1"
      "\<And>op e. bad op = Some e \<Longrightarrow> FrontDoor \<in> set (pe_scopes op) \<and> (\<exists>s. e = NotGrantable s)"
      "\<And>op. bad op = None \<Longrightarrow> FrontDoor \<notin> set (pe_scopes op)"
      "confirm_elevation x w op_id confirmation bad nd1 (write_console_grant w later op_id t) = Some (r, nd')"
      "q = map_sum PairingErr id r"
proof (cases "owner_control_enabled cfg \<and> \<not> isl (normalized terms)")
  case False
  then show thesis using assms stopped by (cases "normalized terms") (auto simp: grant_elevation_def split: if_splits)
next
  case True
  then obtain t where t: "normalized terms = Inr t" by (cases "normalized terms") auto
  let ?bad = "\<lambda>op. if FrontDoor \<in> set (pe_scopes op)
    then Some (NotGrantable ''this request asks for front_door, which carries no budget; grant it as a front-door grant'') else None"
  obtain nd1 r where "lock_node w nd = Some nd1" "q = map_sum PairingErr id r"
      "confirm_elevation x w op_id confirmation ?bad nd1 (write_console_grant w later op_id t) = Some (r, nd')"
    using assms True t by (cases "lock_node w nd") (auto simp: grant_elevation_def)
  then show thesis using True t by (intro tried [of t nd1 ?bad r]) (auto split: if_splits)
qed

lemma door_cases:
  assumes "grant_front_door x cfg w op_id confirmation ttl nd = Some (d, nd')"
  obtains (stopped) "nd' = nd" "\<not> wrong_code d"
    | (tried) nd1 bad where "lock_node w nd = Some nd1" "\<And>op e. bad op = Some e \<Longrightarrow> \<exists>s. e = NotGrantable s"
      "confirm_elevation x w op_id confirmation bad nd1 (write_front_door w op_id ttl) = Some (d, nd')"
proof (cases "owner_control_enabled cfg \<and> \<not> (ttl \<le> 0 \<or> ttl > MAX_SPEND_GRANT_TTL_SECS)")
  case False
  then show thesis using assms stopped unfolding grant_front_door_def by (cases "owner_control_enabled cfg") auto
next
  case True
  let ?bad = "\<lambda>op. if pe_scopes op \<noteq> [FrontDoor]
    then Some (NotGrantable ''this request does not ask for front_door; grant it with a budget'') else None"
  obtain nd1 where "lock_node w nd = Some nd1"
      "confirm_elevation x w op_id confirmation ?bad nd1 (write_front_door w op_id ttl) = Some (d, nd')"
    using assms True unfolding grant_front_door_def by (cases "lock_node w nd") auto
  then show thesis by (intro tried [of nd1 ?bad]) (auto split: if_splits)
qed

lemma owner_step_counted:
  assumes "owner_step x cfg nd b nd'" shows "counted nd b nd'"
  using assms
proof (cases rule: owner_step.cases)
  case (step_guess w op_id confirmation r)
  then show ?thesis using verify_counts [OF step_guess(2)] by (simp add: counted_def)
next
  case (step_elevate w later op_id confirmation terms q)
  from step_elevate(2) show ?thesis
  proof (cases rule: elevate_cases)
    case stopped
    then show ?thesis using step_elevate(1) by (auto simp: counted_def)
  next
    case (tried t nd1 bad r)
    have "counted nd1 (wrong_code r) nd'"
      by (rule confirm_counts [OF tried(6)]) (use tried(4) in \<open>fastforce dest: write_quiet(1)\<close>)+
    then show ?thesis using counted_lock [OF tried(3)] by (simp add: step_elevate(1) tried(7) wrong_request_map)
  qed
next
  case (step_door w op_id confirmation ttl d)
  from step_door(2) show ?thesis
  proof (cases rule: door_cases)
    case stopped
    then show ?thesis using step_door(1) by (simp add: counted_def)
  next
    case (tried nd1 bad)
    have "counted nd1 (wrong_code d) nd'"
      by (rule confirm_counts [OF tried(3)]) (use tried(2) in \<open>fastforce dest: write_quiet(2)\<close>)+
    then show ?thesis using counted_lock [OF tried(1)] step_door(1) by simp
  qed
next
  case (step_ask w ob nonce cb shown c scopes proposed a)
  then show ?thesis using ask_quiet by (simp add: counted_quiet)
next
  case step_rest
  then show ?thesis by (simp add: counted_quiet)
qed

lemma owner_run_counted: "owner_run x cfg n nd \<Longrightarrow> n \<le> wrong_codes nd \<and> n \<le> 10"
proof (induction rule: owner_run.induct)
  case (run_next n nd b nd')
  then show ?case using owner_step_counted [OF run_next(2)] by (cases b) (auto simp: counted_def)
qed simp

lemma elevated:
  assumes "confirm_elevation x w op_id confirmation bad nd (write_console_grant w later op_id t) = Some (Inr g, nd')"
  obtains op client c where "op \<in> set (pf_pending_elevations (nd_file nd))" "pe_op_id op = op_id" "w_unix w < pe_expires_at op"
    "bad op = None" "find_client (pe_client_id op) (nd_file nd) = Some client"
    "bt_get (in_owner_confirmations (nd_inner nd)) op_id = Some c" "w_unix w < oc_expires_at c"
    "phrase_matches x confirmation c \<or> code_matches x confirmation (nd_inner nd) c"
    "write_console_grant w later op_id t op client nd = Some (Inr g, nd')"
proof (cases "find (\<lambda>e. pe_op_id e = op_id) (pf_pending_elevations (nd_file nd))")
  case None then show thesis using assms by (simp add: confirm_elevation_def)
next
  case (Some op)
  note def = assms [unfolded confirm_elevation_def Some option.case]
  have late: "\<not> pe_expires_at op \<le> w_unix w" using def
    by (auto split: sum.splits if_splits) (metis old.unit.exhaust sum.exhaust)
  have kind: "bad op = None" using def late by (auto split: option.splits)
  obtain q nd1 where q: "verify_grant_confirmation x w op_id confirmation nd = Some (q, nd1)"
    using def late kind by (auto split: option.splits)
  then obtain u where u: "q = Inr u" using def late kind by (cases q) auto
  note ok = verified [OF q [unfolded u]]
  obtain client where "find_client (pe_client_id op) (nd_file nd) = Some client" "write_console_grant w later op_id t op client nd = Some (Inr g, nd')"
    using def late kind q u ok(1) by (auto split: option.splits)
  then show thesis using that [of op client] Some late kind ok(2) by (auto simp: find_Some_iff)
qed

lemma console_written:
  assumes "write_console_grant w later op_id t op client nd = Some (Inr g, nd')"
  shows "g = console_grant (w_unix w) op client (nd_inner nd) t" "is_live later g" "nd_disk nd' = [nd_file nd']"
    "h \<in> set (pf_grants (nd_file nd')) \<Longrightarrow> sg_client_id h = pe_client_id op \<Longrightarrow> sg_budget h \<noteq> None \<Longrightarrow> h = g"
    "e \<in> set (pf_pending_elevations (nd_file nd')) \<Longrightarrow> pe_op_id e \<noteq> op_id"
    "bt_get (in_owner_confirmations (nd_inner nd')) op_id = None"
proof -
  let ?g = "console_grant (w_unix w) op client (nd_inner nd) t"
  let ?nd1 = "set_file (replace_budgets (pe_client_id op) ?g (drop_elevation op_id (nd_file nd))) nd"
  obtain nd1 where save: "save_node w ?nd1 = Some (Inr (), nd1)" and g: "g = ?g" "is_live later g"
      and nd': "nd' = set_inner ((nd_inner nd1) \<lparr> in_owner_confirmations := bt_remove op_id (in_owner_confirmations (nd_inner nd1)) \<rparr>) nd1"
    using assms by (auto simp: write_console_grant_def Let_def split: option.splits sum.splits prod.splits if_splits)
  show "g = ?g" "is_live later g" by fact+
  show "nd_disk nd' = [nd_file nd']" using save_frame(3) [OF save] nd' by (simp add: set_inner_def)
  show "h = g" if "h \<in> set (pf_grants (nd_file nd'))" "sg_client_id h = pe_client_id op" "sg_budget h \<noteq> None"
    using saved_grants [OF save] that g(1) nd' by (auto simp: replace_budgets_def set_inner_def split: if_splits)
  have "pf_pending_elevations (nd_file nd1) = pf_pending_elevations (nd_file ?nd1)"
    using save_frame(1) [OF save] by (simp add: same_registry_def) (metis pairing_file.select_convs(6) pairing_file.surjective
        pairing_file.update_convs(1,3,5))
  then show "pe_op_id e \<noteq> op_id" if "e \<in> set (pf_pending_elevations (nd_file nd'))"
    using that nd' by (auto simp: set_inner_def replace_budgets_def drop_elevation_def)
  show "bt_get (in_owner_confirmations (nd_inner nd')) op_id = None" using nd' by (simp add: set_inner_def)
qed


text \<open>
  (C33) Short codes cannot be searched. However many requests are made and however often codes
  are typed for them, a node answers at most ten times in one run that a short code was wrong;
  after the tenth, only the full line of a request confirms it.
\<close>

theorem owner_code_guesses_bounded:
  assumes "owner_run x cfg n nd"
  shows "n \<le> 10 \<and> (n = 10 \<longrightarrow> verify_grant_confirmation x w op_id confirmation nd = Some (Inr (), nd')
    \<longrightarrow> (\<exists>c. bt_get (in_owner_confirmations (nd_inner nd)) op_id = Some c \<and> phrase_matches x confirmation c))"
proof -
  note n = owner_run_counted [OF assms]
  have "\<not> code_matches x confirmation (nd_inner nd) c" if "n = 10" for c
    using n that by (simp add: code_matches_def OWNER_CODE_FAILURES_PER_RUN_def word_less_nat_alt)
  then show ?thesis using n verified(2) [of x w op_id confirmation nd "()" nd'] by auto
qed

text \<open>
  (C34) A grant whose save fails stays in force. When the owner's code was right and the file
  cannot be written, the owner is told that the store failed, and yet the grant with the owner's
  terms is among the grants in memory and passes the node's check of grants that may spend.
\<close>

theorem failed_grant_stays_in_force:
  assumes "grant_elevation x cfg w later op_id confirmation terms nd = Some (Inl (PairingErr (Io e)), nd')"
    "lock_node w nd = Some nd1" "verify_grant_confirmation x w op_id confirmation nd1 = Some (Inr (), nd1)"
    "find (\<lambda>e. pe_op_id e = op_id) (pf_pending_elevations (nd_file nd1)) = Some op" "w_unix w < pe_expires_at op"
  shows "\<exists>client t. normalized terms = Inr t \<and> find_client (pe_client_id op) (nd_file nd1) = Some client
    \<and> console_grant (w_unix w) op client (nd_inner nd1) t \<in> set (pf_grants (nd_file nd'))
    \<and> permits_spend_grant x cfg (console_grant (w_unix w) op client (nd_inner nd1) t)"
  using assms(1)
proof (cases rule: elevate_cases)
  case stopped then show ?thesis by simp
next
  case (tried t nd2 bad r)
  then have r: "confirm_elevation x w op_id confirmation bad nd1 (write_console_grant w later op_id t) = Some (Inl (Io e), nd')"
    using assms(2) by (cases r) auto
  have "bad op = None" using r assms(3-5) tried(4) by (auto simp: confirm_elevation_def split: option.splits)
  then obtain client where c: "find_client (pe_client_id op) (nd_file nd1) = Some client"
    "write_console_grant w later op_id t op client nd1 = Some (Inl (Io e), nd')"
    using r assms(3-5) by (auto simp: confirm_elevation_def split: option.splits)
  let ?g = "console_grant (w_unix w) op client (nd_inner nd1) t"
  have "save_node w (set_file (replace_budgets (pe_client_id op) ?g (drop_elevation op_id (nd_file nd1))) nd1) = Some (Inl (Io e), nd')"
    using c by (auto simp: write_console_grant_def Let_def split: option.splits sum.splits prod.splits if_splits)
  then have "?g \<in> set (pf_grants (nd_file nd'))" using save_failed_file by (fastforce simp: replace_budgets_def)
  moreover have "permits_spend_grant x cfg ?g" using tried(1) by (simp add: permits_spend_grant_def console_grant_def)
  ultimately show ?thesis using c(1) tried(2) by blast
qed

lemma sample_typed: "trim ''go'' = ''go''" "trim ''no'' = ''no''"
  by code_simp+

lemma sample_asked_sel:
  "nd_file sample_asked_node = pairing_file_new \<lparr> pf_clients := [sample_client 1], pf_pending_elevations := [sample_elevation] \<rparr>"
  "in_identity_fingerprint (nd_inner sample_asked_node) = ''id''" "in_owner_code_failures (nd_inner sample_asked_node) = 0"
  "in_owner_confirmations (nd_inner sample_asked_node) = [(''e1'', sample_confirmation)]"
  "find_client sample_phone (nd_file sample_asked_node) = Some (sample_client 1)"
  by (simp_all add: sample_asked_node_def Let_def fresh_inner_def find_client_def sample_client_def)

lemma sample_asked_lock:
  "w_unix w = 1000 \<Longrightarrow> lock_node w sample_asked_node = Some sample_asked_node"
  by (simp add: lock_node_def sample_asked_node_def Let_def prune_owner_confirmations_def fresh_inner_def
      prune_expired_locked_def has_dead_grant_def pairing_file_new_def bt_retain_def sample_confirmation_def)

lemma sample_answers:
  assumes "w_unix w = 1000"
  shows "verify_grant_confirmation sample_pairing_ops w ''e1'' ''go'' sample_asked_node = Some (Inr (), sample_asked_node)"
    "\<exists>nd'. verify_grant_confirmation sample_pairing_ops w ''e1'' ''no'' sample_asked_node = Some (Inl (WrongOwnerCode 2), nd')"
  using assms by (simp_all add: verify_grant_confirmation_def sample_asked_sel phrase_matches_def code_matches_def sample_typed
      sample_confirmation_def Let_def sample_pairing_ops_def pad_to_def ascii_bytes_def OWNER_CODE_ATTEMPTS_def
      OWNER_CODE_FAILURES_PER_RUN_def sat_add_def sat_sub_def)

theorem owner_code_guesses_bounded_witness:
  "\<exists>nd. owner_run sample_pairing_ops sample_owner_cfg 1 nd \<and> (1 :: nat) \<le> 10"
proof -
  obtain nd' where "verify_grant_confirmation sample_pairing_ops sample_world ''e1'' ''no'' sample_asked_node
      = Some (Inl (WrongOwnerCode 2), nd')" using sample_answers(2) [OF sample_world_clock] by blast
  from run_next [OF run_fresh [of sample_asked_node sample_pairing_ops sample_owner_cfg] step_guess [OF this]]
  have run: "owner_run sample_pairing_ops sample_owner_cfg 1 nd'" by (simp add: sample_asked_sel)
  from owner_code_guesses_bounded [OF this] run show ?thesis by blast
qed

lemma sample_terms: "\<exists>t. normalized (terms_new 100000) = Inr t \<and> gt_ttl_secs t = 86400"
  by (simp add: normalized_def limits_valid_def terms_new_def default_breaker_limits_def MAX_GRANT_BUDGET_MSAT_def
      MIN_SPEND_GRANT_TTL_SECS_def MAX_SPEND_GRANT_TTL_SECS_def MAX_RECIPIENT_BUDGETS_def)

lemma sample_elevate:
  assumes "normalized (terms_new 100000) = Inr t" "w_unix w = 1000"
  shows "grant_elevation sample_pairing_ops sample_owner_cfg w later ''e1'' ''go'' (terms_new 100000) sample_asked_node
    = map_option (map_prod (map_sum PairingErr id) id)
        (write_console_grant w later ''e1'' t sample_elevation (sample_client 1) sample_asked_node)"
proof -
  have op: "find (\<lambda>e. pe_op_id e = ''e1'') (pf_pending_elevations (nd_file sample_asked_node)) = Some sample_elevation"
    "\<not> pe_expires_at sample_elevation \<le> 1000" "FrontDoor \<notin> set (pe_scopes sample_elevation)" "pe_client_id sample_elevation = sample_phone"
    by (simp_all add: sample_asked_sel sample_elevation_def)
  show ?thesis using assms sample_asked_lock [OF assms(2)] op sample_answers(1) [OF assms(2)] sample_asked_sel(5)
    by (simp add: grant_elevation_def confirm_elevation_def)
qed

lemma sample_live:
  assumes "gt_ttl_secs t = 86400"
  shows "is_live 1000 (console_grant 1000 op client inner t)" "is_live 1001 (console_grant 1000 op client inner t)"
  using assms by (simp_all add: is_live_def console_grant_def i64_wrap_def MAX_SPEND_GRANT_TTL_SECS_def)

lemma full_disk_fails: "save_node sample_full_disk nd = Some (Inl (Io ''disk full''), nd)"
  by (cases nd) (simp add: save_node_def persist_def persist_loop.simps sample_full_disk_def Let_def set_file_def)


theorem failed_grant_stays_in_force_witness:
  "\<exists>nd' g. grant_elevation sample_pairing_ops sample_owner_cfg sample_full_disk 1001 ''e1'' ''go'' (terms_new 100000)
      sample_asked_node = Some (Inl (PairingErr (Io ''disk full'')), nd')
    \<and> g \<in> set (pf_grants (nd_file nd')) \<and> permits_spend_grant sample_pairing_ops sample_owner_cfg g"
proof -
  have w: "w_unix sample_full_disk = 1000" by (simp add: sample_full_disk_def sample_world_def)
  obtain t where t: "normalized (terms_new 100000) = Inr t" "gt_ttl_secs t = 86400" using sample_terms by blast
  have "\<exists>nd'. write_console_grant sample_full_disk 1001 ''e1'' t sample_elevation (sample_client 1) sample_asked_node
      = Some (Inl (Io ''disk full''), nd')"
    using sample_live [OF t(2)] by (simp add: write_console_grant_def full_disk_fails w Let_def)
  then obtain nd' where run: "grant_elevation sample_pairing_ops sample_owner_cfg sample_full_disk 1001 ''e1'' ''go''
      (terms_new 100000) sample_asked_node = Some (Inl (PairingErr (Io ''disk full'')), nd')"
    using sample_elevate [OF t(1) w] by auto
  have "find (\<lambda>e. pe_op_id e = ''e1'') (pf_pending_elevations (nd_file sample_asked_node)) = Some sample_elevation"
    "w_unix sample_full_disk < pe_expires_at sample_elevation"
    by (simp_all add: sample_asked_sel sample_elevation_def w)
  from failed_grant_stays_in_force [OF run sample_asked_lock [OF w] sample_answers(1) [OF w] this] run show ?thesis by blast
qed

end
