(* ===== verification/Spec2Isabelle.thy ===== *)
theory Spec2Isabelle
  imports Gate Peer_Prices Circuit_Breaker Auth Pairing_Bounds Cascade Call_Ledger Elevation
begin

text \<open>
  \<^bold>\<open>BitSov: paid messages, prices, pairing and spending\<close>

  A BitSov node accepts a message only with a Lightning payment for it, prices its own attention,
  remembers what its peers charge, and lets paired client devices act and spend under grants of
  the owner. This library models those parts of the program from the Rust sources under
  \<open>src/crates/\<close>, and proves what makes them correct.

  \<^bold>\<open>How the code is represented.\<close> A struct is a record, an enum a datatype, an unsigned integer a
  word of its width; \<open>i64\<close> times are integers with wrapping, saturating and checked operations
  written out (\<open>i64_wrap\<close>, \<open>i64_sat_sub\<close>, \<open>i64_checked\<close>) where the code uses them. \<open>BTreeMap\<close> and
  \<open>HashMap\<close> are association lists sorted by key (\<open>bt_wf\<close>). A fallible function returns a sum with
  its errors on the left. Doubles are exact rationals with infinities and NaN, rounded as IEEE 754
  asks after each operation. Cryptographic, encoding and JSON crates are fields of the records
  \<open>ext_ops\<close> and \<open>pairing_ops\<close>; random identities and readings of clocks are arguments. An operation of
  the pairing service takes the node and a \<open>world\<close> (clock readings and what writing, renaming and
  syncing the file do) and returns its answer and the node, or \<open>None\<close> when the save never returns.
  The disk is the list of file versions that a restart may find.

  \<^bold>\<open>Foundations.\<close>
  \<^item> \<open>Prelude\<close>, \<open>Rust_Text\<close>, \<open>F64\<close>: integer and map operations of the standard library, decimal
    printing and parsing, trimming and hex classes, double arithmetic.
  \<^item> \<open>Samples\<close>: concrete instances of the crates and a signed, paid envelope.

  \<^bold>\<open>Messages and prices.\<close>
  \<^item> \<open>Kinds\<close> (\<open>konsensus-core/src/kind.rs\<close>), \<open>Core_Types\<close> (\<open>types.rs\<close>, \<open>error.rs\<close>), \<open>Envelope\<close>
    (\<open>envelope.rs\<close>, \<open>web_reply.rs\<close>, \<open>identity.rs\<close>): kinds and categories, identifiers, proofs, signed
    bytes, validation, bounded decoding. The signed bytes determine every signed field.
  \<^item> \<open>Static_Pricing\<close> (\<open>traits/pricing.rs\<close>, \<open>static_pricing.rs\<close>) and \<open>Chain_Pricing\<close>
    (\<open>chain_aware.rs\<close>): both engines interpret the locale \<open>pricing_contract\<close>; the capped multiplier
    equals a formula over natural numbers and the fee cache never holds an unusable rate.
  \<^item> \<open>Discount\<close>, \<open>Peer_Prices\<close> (\<open>peer_prices.rs\<close>): discounts, cached and announced tables. Sender and
    gate compute the same price.
  \<^item> \<open>Lightning\<close> (\<open>traits/lightning.rs\<close>) and \<open>Circuit_Breaker\<close> (\<open>konsensus-lightning\<close>): payment
    records and the breaker around settlement lookups as the step relation \<open>cb_step\<close>, whose
    invariant bounds concurrency, cache and probes.

  \<^bold>\<open>Acceptance.\<close>
  \<^item> \<open>Sqlite_Store\<close> (\<open>konsensus-storage/src/sqlite.rs\<close>, money-path tables): nonces, receipts, acceptance,
    withdrawal, delivery quotes, web requests, each statement in its transaction.
  \<^item> \<open>Gate\<close> (\<open>gate.rs\<close>): every check of \<open>PaymentGate\<close> in order, against any store of the locale
    \<open>paid_store\<close>, which the SQLite store interprets. What is admitted is authentic, paid and new;
    what is rejected uses up nothing; no payment is committed twice under any interleaving
    (\<open>gate_step\<close>).

  \<^bold>\<open>Spending.\<close>
  \<^item> \<open>Spend_Budget\<close>, \<open>Call_Spend\<close> (\<open>spend_budget.rs\<close>, \<open>spend_budget/calls.rs\<close>): terms in normal form, the
    meter with its limits, breakers and envelopes, call holds and draws.
  \<^item> \<open>Meter_Steps\<close>: the transactions on one meter as \<open>meter_step\<close>. In every run the meter counts
    exactly what was paid and what is held, within the approved budget.
  \<^item> \<open>Spend_Ledger\<close> (\<open>pairing.rs\<close>), \<open>Call_Ledger\<close> (\<open>pairing/call_spend.rs\<close>): the same transactions on the
    whole registry, with lock, save and rollback. A reservation is on disk before it is returned.
  \<^item> \<open>First_Contact\<close> (\<open>pairing.rs\<close>) and \<open>Owner_Approval\<close> (\<open>pairing/approval.rs\<close>): one-time confirmations
    of new contacts, repeated admissions, and approvals signed on a second device. A
    confirmation pays once (\<open>contact_run\<close>), and an approved budget is the signed one.
  \<^item> \<open>Elevation\<close> (\<open>pairing.rs\<close>, \<open>console_challenge\<close> and \<open>create_elevation_request\<close> on): requests for spend,
    front-door and replacement authority and the codes the owner repeats. A grant needs what the
    owner was shown, and short codes cannot be searched (\<open>owner_run\<close>).

  \<^bold>\<open>Pairing and authority.\<close>
  \<^item> \<open>Pairing_Types\<close>, \<open>Pairing_Store\<close>, \<open>Pairing\<close> (\<open>pairing.rs\<close>, \<open>pairing/device.rs\<close>), \<open>Enrollment\<close>
    (\<open>pairing/second_device.rs\<close>, \<open>sas.rs\<close>, \<open>pairing/console.rs\<close>): the registry, the save loop,
    ceremonies, challenges, tokens, epochs, revocation, rotation, startup, second devices.
  \<^item> \<open>Pairing_Steps\<close>, \<open>Pairing_Bounds\<close>: runs of the service over crashes and restarts
    (\<open>service_step\<close>). The locale \<open>node_invariant\<close> carries an invariant through every operation; its
    interpretations show that a retired epoch never returns and that the state stays bounded.
  \<^item> \<open>Cascade\<close>: the breadth-first revocation removes exactly the keys that descend from the root.
  \<^item> \<open>Auth_Token\<close>, \<open>Auth\<close> (\<open>auth.rs\<close>): tokens and the extractors that guard the routes.

  \<^bold>\<open>Loops and bounds.\<close> Every definition but one is total. The save loop is a partial function,
  because a clock that runs backwards can keep it going; with ascending readings it returns
  after at most one pass more than there are live grants. The prices and discounts that pass
  through doubles are stated for amounts up to \<open>2^53\<close> msat where rounding matters.

  \<^bold>\<open>Not modelled.\<close>
  \<^item> Registration of device keys, signed relation intents and owner tickets: their codes pass through
    terminals, protected files and the audit log. The steps they and the requests of
    \<open>Elevation\<close> add to the registry are covered in \<open>Pairing_Steps\<close> by the step that leaves clients
    and epochs alone.
  \<^item> The PostgreSQL store and the tables of \<open>sqlite.rs\<close> off the money path: the same statements on
    another database, and plain rows.
  \<^item> HTTP handlers, web sockets, the command line and node start-up: wiring and input/output around
    the operations above.
  \<^item> Transport, wire formats, gossip, routing, relay, calendar, introductions, federation, recovery:
    sockets and serde formats, or parts no modelled component calls.
  \<^item> The cryptographic wrappers, Lightning backends, chain, fiat and BSX clients: calls into
    crates and services outside the repository.
\<close>

section \<open>Signed fields\<close>

text \<open>
  (C10) Two well-formed envelopes with the same signed bytes agree in every signed field:
  kind, sender, recipient, timestamp, ciphertext, nonce and payment proof. A signature can
  therefore not be moved to an envelope that differs in any of them.
\<close>

theorem signed_bytes_determine_fields:
  assumes "wf_envelope e" "wf_envelope e'" "signable_bytes e = signable_bytes e'"
  shows "ukm_kind e = ukm_kind e' \<and> ukm_sender e = ukm_sender e'
    \<and> ukm_recipient e = ukm_recipient e' \<and> ukm_timestamp e = ukm_timestamp e'
    \<and> ukm_ciphertext e = ukm_ciphertext e' \<and> ukm_nonce e = ukm_nonce e'
    \<and> ukm_payment_proof e = ukm_payment_proof e'"
  by (rule signable_bytes_inject [OF assms])

theorem signed_bytes_determine_fields_witness:
  "ukm_payment_proof (sample_envelope 0 1000)
     = ukm_payment_proof ((sample_envelope 0 1000) \<lparr> ukm_signature := Signature [] \<rparr>)"
proof -
  have w: "wf_envelope (sample_envelope 0 1000)"
      "wf_envelope ((sample_envelope 0 1000) \<lparr> ukm_signature := Signature [] \<rparr>)"
    by (simp_all add: wf_envelope_def wf_payment_proof_def sample_node_def)
  have "signable_bytes (sample_envelope 0 1000)
      = signable_bytes ((sample_envelope 0 1000) \<lparr> ukm_signature := Signature [] \<rparr>)" by simp
  from signed_bytes_determine_fields [OF w this] show ?thesis by (elim conjE)
qed

section \<open>What a sender computes is what the gate requires\<close>

text \<open>
  (C4) The price a sender computes from an announced base price, trust discount and
  admission floor is exactly the price the receiving gate requires for that base price,
  discount and floor: the two separately written discount routines agree on every 64-bit
  base price and every double, NaN and infinities included.
\<close>

theorem sender_price_is_gate_price:
  "price_with_floor_msat (apply_trust_discount base discount) (min_admission_cost_msat cfg)
     = gate_price_with_floor cfg (gate_discounted base discount)"
proof (cases "f64_is_finite discount")
  case False
  then show ?thesis
    by (simp add: apply_trust_discount_def gate_discounted_def gate_price_with_floor_def)
next
  case True
  then obtain q where q: "f64_clamp discount (F_Fin 0) (F_Fin (1 / 2)) = F_Fin q" "0 \<le> q" "q \<le> 1 / 2"
    by (rule f64_clamp_half)
  have "discount_ceil base (F_Fin (1 / 2)) \<le> discount_ceil base (F_Fin q)"
    using q by (intro discount_ceil_mono) auto
  then have "price_with_floor_msat (max (max (discount_ceil base (F_Fin q)) 1)
      (max (discount_ceil base (F_Fin (1 / 2))) 1)) m = price_with_floor_msat (discount_ceil base (F_Fin q)) m" for m
    by (auto simp: price_with_floor_msat_def max_def word_le_nat_alt word_unat_eq_iff)
  with q True show ?thesis
    by (simp add: apply_trust_discount_def gate_discounted_def gate_price_with_floor_def
        MAX_TRUST_DISCOUNT_def discounted_once_def trust_discount_floor_msat_def Let_def less_le)
qed

end
